(* ===== verification/Prelude.thy ===== *)
theory Prelude
  imports Main "HOL-Library.Word" "HOL-Library.Finite_Map"
begin

text \<open>
  Shared vocabulary of the development: the widths of Go's integers, Go's error values
  (with the wrapping of \<^verbatim>\<open>fmt.Errorf("...: %w", err)\<close>), the exceptional outcomes of a Go
  call (an error value, a run-time panic, the process exit of \<^verbatim>\<open>logger.Fatalf\<close>), and
  actions: functions from a state to an outcome and the state left behind. The state is
  returned on every branch, since Go keeps what was written before an error.
\<close>

unbundle bit_operations_syntax

named_theorems act_simps \<open>evaluation of actions\<close>
named_theorems word_nat \<open>order and arithmetic of words read as natural numbers\<close>

section \<open>Machine types\<close>

type_synonym u64 = "64 word"
type_synonym u32 = "32 word"
type_synonym byte = "8 word"
type_synonym bytes = "byte list"

text \<open>\<^verbatim>\<open>time.Time\<close> and \<^verbatim>\<open>time.Duration\<close> count nanoseconds.\<close>

type_synonym time = int
type_synonym duration = int

section \<open>Errors and outcomes\<close>

text \<open>
  \<open>ErrNew\<close> is \<^verbatim>\<open>errors.New\<close>, \<open>Wrapf\<close> is \<^verbatim>\<open>fmt.Errorf\<close> with \<^verbatim>\<open>%w\<close>, \<open>EOF\<close> and
  \<open>UnexpectedEOF\<close> are the sentinels of package io, \<open>SysErr\<close> is a failed system call and
  \<open>ErrNotExist\<close> the sentinel of package os.
\<close>

datatype err =
    ErrNew string
  | Wrapf string err
  | EOF
  | UnexpectedEOF
  | ErrNotExist
  | SysErr

fun errors_Is :: "err \<Rightarrow> err \<Rightarrow> bool" where
  "errors_Is (Wrapf m e) t = (Wrapf m e = t \<or> errors_Is e t)"
| "errors_Is e t = (e = t)"

datatype exn =
    Error err
  | Panic string
  | Fatal string

type_synonym ('s, 'a) action = "'s \<Rightarrow> (exn + 'a) \<times> 's"

definition returnA :: "'a \<Rightarrow> ('s, 'a) action" where
  "returnA x = (\<lambda>s. (Inr x, s))"

definition raiseA :: "exn \<Rightarrow> ('s, 'a) action" where
  "raiseA e = (\<lambda>s. (Inl e, s))"

definition bindA :: "('s, 'a) action \<Rightarrow> ('a \<Rightarrow> ('s, 'b) action) \<Rightarrow> ('s, 'b) action" where
  "bindA m f = (\<lambda>s. case m s of (Inl e, s') \<Rightarrow> (Inl e, s') | (Inr x, s') \<Rightarrow> f x s')"

definition getA :: "('s, 's) action" where
  "getA = (\<lambda>s. (Inr s, s))"

definition modifyA :: "('s \<Rightarrow> 's) \<Rightarrow> ('s, unit) action" where
  "modifyA f = (\<lambda>s. (Inr (), f s))"

text \<open>A read that may fail and changes nothing.\<close>

definition readA :: "('s \<Rightarrow> exn + 'a) \<Rightarrow> ('s, 'a) action" where
  "readA f = (\<lambda>s. (f s, s))"

definition whenA :: "bool \<Rightarrow> ('s, unit) action \<Rightarrow> ('s, unit) action" where
  "whenA b m = (if b then m else returnA ())"

text \<open>Run an action on one component of the state.\<close>

definition zoomA :: "('s \<Rightarrow> 't) \<Rightarrow> ('t \<Rightarrow> 's \<Rightarrow> 's) \<Rightarrow> ('t, 'a) action \<Rightarrow> ('s, 'a) action" where
  "zoomA get put m = (\<lambda>s. case m (get s) of (r, t) \<Rightarrow> (r, put t s))"

text \<open>\<open>tryA\<close> hands a returned error to the caller as a value; panics and exits pass through.\<close>

definition tryA :: "('s, 'a) action \<Rightarrow> ('s, err + 'a) action" where
  "tryA m = (\<lambda>s. case m s of
      (Inl (Error e), s') \<Rightarrow> (Inr (Inl e), s')
    | (Inl x, s') \<Rightarrow> (Inl x, s')
    | (Inr x, s') \<Rightarrow> (Inr (Inr x), s'))"

text \<open>\<open>wrapA\<close> is \<^verbatim>\<open>if err != nil { return fmt.Errorf(m, err) }\<close>.\<close>

fun wrapExn :: "string \<Rightarrow> exn \<Rightarrow> exn" where
  "wrapExn m (Error e) = Error (Wrapf m e)"
| "wrapExn m x = x"

definition wrapA :: "string \<Rightarrow> ('s, 'a) action \<Rightarrow> ('s, 'a) action" where
  "wrapA m a = (\<lambda>s. case a s of (Inl x, s') \<Rightarrow> (Inl (wrapExn m x), s') | (Inr x, s') \<Rightarrow> (Inr x, s'))"

text \<open>\<open>fatalA\<close> is \<^verbatim>\<open>if err != nil { r.logger.Fatalf(m, err) }\<close>: the process exits.\<close>

fun fatalExn :: "string \<Rightarrow> exn \<Rightarrow> exn" where
  "fatalExn m (Error e) = Fatal m"
| "fatalExn m x = x"

definition fatalA :: "string \<Rightarrow> ('s, 'a) action \<Rightarrow> ('s, 'a) action" where
  "fatalA m a = (\<lambda>s. case a s of (Inl x, s') \<Rightarrow> (Inl (fatalExn m x), s') | (Inr x, s') \<Rightarrow> (Inr x, s'))"

lemma returnA_apply [simp, act_simps]: "returnA x s = (Inr x, s)"
  by (simp add: returnA_def)

lemma raiseA_apply [simp, act_simps]: "raiseA e s = (Inl e, s)"
  by (simp add: raiseA_def)

lemma getA_apply [simp, act_simps]: "getA s = (Inr s, s)"
  by (simp add: getA_def)

lemma modifyA_apply [simp, act_simps]: "modifyA f s = (Inr (), f s)"
  by (simp add: modifyA_def)

lemma readA_apply [simp, act_simps]: "readA f s = (f s, s)"
  by (simp add: readA_def)

lemma whenA_simps [simp, act_simps]:
  "whenA True m = m" "whenA False m = returnA ()"
  by (simp_all add: whenA_def)

lemma bindA_getA [simp, act_simps]: "bindA getA f s = f s s"
  by (simp add: bindA_def)

lemma bindA_modifyA [simp, act_simps]: "bindA (modifyA g) f s = f () (g s)"
  by (simp add: bindA_def)

lemma bindA_returnA [simp, act_simps]: "bindA (returnA x) f s = f x s"
  by (simp add: bindA_def)

lemma bindA_raiseA [simp, act_simps]: "bindA (raiseA e) f s = (Inl e, s)"
  by (simp add: bindA_def)

lemma bindA_Inl: "m s = (Inl e, s') \<Longrightarrow> bindA m f s = (Inl e, s')"
  by (simp add: bindA_def)

lemma bindA_Inr: "m s = (Inr x, s') \<Longrightarrow> bindA m f s = f x s'"
  by (simp add: bindA_def)

lemma bindA_assoc: "bindA (bindA m f) g = bindA m (\<lambda>x. bindA (f x) g)"
  by (rule ext) (simp add: bindA_def split: prod.splits sum.splits)

text \<open>A sequence succeeds exactly when each part does, from the state the last one left.\<close>

lemma bindA_eq_Inr:
  "bindA m f s = (Inr y, s') \<longleftrightarrow> (\<exists>x s1. m s = (Inr x, s1) \<and> f x s1 = (Inr y, s'))"
  by (auto simp: bindA_def split: prod.splits sum.splits)

lemma bindA_eq_Inl:
  "bindA m f s = (Inl e, s') \<longleftrightarrow>
     m s = (Inl e, s') \<or> (\<exists>x s1. m s = (Inr x, s1) \<and> f x s1 = (Inl e, s'))"
  by (auto simp: bindA_def split: prod.splits sum.splits)

lemma whenA_eq_Inr:
  "whenA b m s = (Inr u, s') \<longleftrightarrow> (if b then m s = (Inr u, s') else s' = s)"
  by (simp add: whenA_def) auto

lemma zoomA_eq_Inr:
  "zoomA get put m s = (Inr x, s') \<longleftrightarrow> (\<exists>t. m (get s) = (Inr x, t) \<and> s' = put t s)"
  by (auto simp: zoomA_def split: prod.splits)

lemma wrapA_eq_Inr [simp]: "wrapA msg m s = (Inr x, s') \<longleftrightarrow> m s = (Inr x, s')"
  by (auto simp: wrapA_def split: prod.splits sum.splits)

lemma fatalA_eq_Inr [simp]: "fatalA msg m s = (Inr x, s') \<longleftrightarrow> m s = (Inr x, s')"
  by (auto simp: fatalA_def split: prod.splits sum.splits)

lemma wrapA_Inr: "m s = (Inr x, s') \<Longrightarrow> wrapA msg m s = (Inr x, s')"
  by simp

lemma fatalA_Inr: "m s = (Inr x, s') \<Longrightarrow> fatalA msg m s = (Inr x, s')"
  by simp

lemma fatalA_not_Error: "fatalA msg m s \<noteq> (Inl (Error e), s')"
  by (auto simp: fatalA_def split: prod.splits sum.splits)
     (metis exn.distinct(1,3) fatalExn.elims)

lemma tryA_eq_Inr:
  "tryA m s = (Inr r, s') \<longleftrightarrow>
     (\<exists>e. m s = (Inl (Error e), s') \<and> r = Inl e) \<or> (\<exists>x. m s = (Inr x, s') \<and> r = Inr x)"
  by (cases "m s"; cases "fst (m s)"; cases "projl (fst (m s))") (auto simp: tryA_def)

lemma tryA_eq_Inl:
  "tryA m s = (Inl x, s') \<longleftrightarrow> m s = (Inl x, s') \<and> (\<forall>e. x \<noteq> Error e)"
  by (cases "m s"; cases "fst (m s)"; cases "projl (fst (m s))") (auto simp: tryA_def)

lemma wrapA_eq_Inl: "wrapA msg m s = (Inl x, s') \<longleftrightarrow> (\<exists>y. m s = (Inl y, s') \<and> x = wrapExn msg y)"
  by (auto simp: wrapA_def split: prod.splits sum.splits)

lemma fatalA_eq_Inl: "fatalA msg m s = (Inl x, s') \<longleftrightarrow> (\<exists>y. m s = (Inl y, s') \<and> x = fatalExn msg y)"
  by (auto simp: fatalA_def split: prod.splits sum.splits)

lemmas act_fail = bindA_eq_Inl bindA_eq_Inr wrapA_eq_Inl tryA_eq_Inl tryA_eq_Inr

lemmas act_inv = bindA_eq_Inr whenA_eq_Inr zoomA_eq_Inr

section \<open>Relations between the states before and after an action\<close>

text \<open>
  \<open>relA R m\<close>: every run of \<open>m\<close>, failed ones included, ends in a state related by \<open>R\<close> to the
  state it started from. For a preorder the property is compositional: the rules below
  decompose an action into its parts. \<open>keepsA f m\<close> is the case "\<open>m\<close> does not change \<open>f\<close>".
\<close>

definition relA :: "('s \<Rightarrow> 's \<Rightarrow> bool) \<Rightarrow> ('s, 'a) action \<Rightarrow> bool" where
  "relA R m \<longleftrightarrow> (\<forall>s. R s (snd (m s)))"

abbreviation keepsA :: "('s \<Rightarrow> 'x) \<Rightarrow> ('s, 'a) action \<Rightarrow> bool" where
  "keepsA f \<equiv> relA (\<lambda>s s'. f s' = f s)"

lemma relAD: "relA R m \<Longrightarrow> m s = (r, s') \<Longrightarrow> R s s'"
  by (metis relA_def snd_conv)

lemma relAI: "(\<And>s r s'. m s = (r, s') \<Longrightarrow> R s s') \<Longrightarrow> relA R m"
  by (metis relA_def prod.collapse)

locale action_rel =
  fixes R :: "'s \<Rightarrow> 's \<Rightarrow> bool"
  assumes rel_refl: "R s s"
    and rel_trans: "R s t \<Longrightarrow> R t u \<Longrightarrow> R s u"
begin

lemma bind:
  assumes "relA R m" "\<And>x. relA R (f x)"
  shows "relA R (bindA m f)"
proof (rule relAI)
  fix s r s' assume b: "bindA m f s = (r, s')"
  obtain r1 s1 where m: "m s = (r1, s1)" by (cases "m s")
  have "R s s1" by (rule relAD[OF assms(1) m])
  moreover have "R s1 s'" if "r1 = Inr x" for x
    using b m that relAD[OF assms(2)] by (simp add: bindA_def)
  ultimately show "R s s'"
    using b m by (cases r1) (auto simp: bindA_def intro: rel_trans)
qed

lemma pure_actions:
  "relA R (returnA x)" "relA R (raiseA e)" "relA R getA" "relA R (readA g)"
  by (auto simp: relA_def rel_refl)

lemma modify: "(\<And>s. R s (g s)) \<Longrightarrow> relA R (modifyA g)"
  by (simp add: relA_def)

lemma guarded: "(b \<Longrightarrow> relA R m) \<Longrightarrow> relA R (whenA b m)"
  by (cases b) (auto simp: pure_actions)

lemma cond: "(b \<Longrightarrow> relA R m) \<Longrightarrow> (\<not> b \<Longrightarrow> relA R m') \<Longrightarrow> relA R (if b then m else m')"
  by simp

lemma wrapped:
  "relA R m \<Longrightarrow> relA R (wrapA msg m)" "relA R m \<Longrightarrow> relA R (fatalA msg m)" "relA R m \<Longrightarrow> relA R (tryA m)"
  by (auto simp: relA_def wrapA_def fatalA_def tryA_def split: prod.splits sum.splits exn.splits)
     (metis snd_conv)+

lemma zoom: "(\<And>t s. R s (put t s)) \<Longrightarrow> relA R (zoomA get put m)"
  by (auto simp: relA_def zoomA_def split: prod.splits)

lemma from_get: "(\<And>s. relA R (f s)) \<Longrightarrow> relA R (bindA getA f)"
  by (intro bind pure_actions)

lemma case_option: "relA R m \<Longrightarrow> (\<And>x. relA R (f x)) \<Longrightarrow> relA R (case v of None \<Rightarrow> m | Some x \<Rightarrow> f x)"
  by (cases v) auto

lemma case_sum: "(\<And>x. relA R (f x)) \<Longrightarrow> (\<And>y. relA R (g y)) \<Longrightarrow> relA R (case v of Inl x \<Rightarrow> f x | Inr y \<Rightarrow> g y)"
  by (cases v) auto

lemma case_prod: "(\<And>x y. relA R (f x y)) \<Longrightarrow> relA R (case p of (x, y) \<Rightarrow> f x y)"
  by (cases p) auto

lemmas intros = bind pure_actions modify guarded cond wrapped case_option case_sum case_prod

end

interpretation keeps: action_rel "\<lambda>s s'. f s' = f s" for f
  by unfold_locales auto

text \<open>
  \<open>liveAt R s m\<close>: a run of \<open>m\<close> from \<open>s\<close> that does not end the process (by a panic or an exit)
  ends in a state related to \<open>s\<close>. The rules follow the control flow and keep what the guards say
  of the state.
\<close>

lemma bindA_readA: "bindA (readA g) f s = (case g s of Inl x \<Rightarrow> (Inl x, s) | Inr y \<Rightarrow> f y s)"
  by (simp add: bindA_def readA_def split: sum.split)

fun ends :: "exn \<Rightarrow> bool" where
  "ends (Error e) = False"
| "ends x = True"

fun died :: "exn + 'a \<Rightarrow> bool" where
  "died (Inl x) = ends x"
| "died (Inr y) = False"

definition liveAt :: "('s \<Rightarrow> 's \<Rightarrow> bool) \<Rightarrow> 's \<Rightarrow> ('s, 'a) action \<Rightarrow> bool" where
  "liveAt R s m \<longleftrightarrow> (\<not> died (fst (m s)) \<longrightarrow> R s (snd (m s)))"

lemma liveAtD: "liveAt R s m \<Longrightarrow> m s = (res, s') \<Longrightarrow> \<not> died res \<Longrightarrow> R s s'"
  by (simp add: liveAt_def)

context action_rel
begin

lemma at_rel: "relA R m \<Longrightarrow> liveAt R s m"
  by (simp add: relA_def liveAt_def)

lemma at_get: "liveAt R s (f s) \<Longrightarrow> liveAt R s (bindA getA f)"
  by (simp add: liveAt_def)

lemma at_read: "(\<And>x. g s = Inr x \<Longrightarrow> liveAt R s (f x)) \<Longrightarrow> liveAt R s (bindA (readA g) f)"
  by (cases "g s") (auto simp: liveAt_def bindA_def readA_def rel_refl)

lemma at_bind:
  assumes "liveAt R s m" "\<And>x s1. m s = (Inr x, s1) \<Longrightarrow> liveAt R s1 (f x)"
  shows "liveAt R s (bindA m f)"
proof (cases "m s")
  case (Pair res s1)
  then show ?thesis using assms
    by (cases res) (auto simp: liveAt_def bindA_def intro: rel_trans)
qed

lemma at_if: "(b \<Longrightarrow> liveAt R s m) \<Longrightarrow> (\<not> b \<Longrightarrow> liveAt R s m') \<Longrightarrow> liveAt R s (if b then m else m')"
  by simp

lemma at_when: "(b \<Longrightarrow> liveAt R s m) \<Longrightarrow> liveAt R s (whenA b m)"
  by (cases b) (auto intro: at_rel pure_actions)

end

section \<open>Words as natural numbers\<close>

lemmas [word_nat] = word_less_nat_alt word_le_nat_alt

lemma unat_u64_less: "unat (w :: u64) < 2 ^ 64"
  by (rule order_less_le_trans[OF unsigned_less]) simp

lemma unat_Suc_word [word_nat]:
  fixes w :: u64
  shows "unat w + 1 < 2 ^ 64 \<Longrightarrow> unat (w + 1) = unat w + 1"
  by (simp add: unat_word_ariths)

lemma unat_add_of_nat:
  fixes w :: u64
  shows "unat w + n < 2 ^ 64 \<Longrightarrow> unat (w + of_nat n) = unat w + n"
  by (simp add: unat_word_ariths take_bit_eq_mod unat_of_nat)

lemma of_nat_diff_word:
  fixes w :: u64
  shows "(w + of_nat n) - w = of_nat n"
  by simp

lemma unat_of_nat_u64: "n < 2 ^ 64 \<Longrightarrow> unat (of_nat n :: u64) = n"
  by (simp add: unat_of_nat)

lemma unat_diff_le:
  fixes a b :: u64
  shows "b \<le> a \<Longrightarrow> unat (a - b) = unat a - unat b"
  by (simp add: unat_sub)

text \<open>Subtraction below zero wraps to a large value: what \<^verbatim>\<open>index - entries[0].Index\<close> does.\<close>

lemma unat_diff_wrap:
  fixes a b :: u64
  assumes "a < b"
  shows "unat (a - b) = 2 ^ 64 - (unat b - unat a)"
proof -
  have "unat (a - b) = (if unat b \<le> unat a then unat a - unat b else unat a + 2 ^ size a - unat b)"
    by (rule unat_sub_if_size)
  with assms show ?thesis
    using unsigned_less[of b] by (simp add: word_less_nat_alt word_size)
qed

lemma word_add_of_nat_inj:
  fixes w :: u64
  assumes "unat w + m < 2 ^ 64" "unat w + n < 2 ^ 64" "w + of_nat m = w + of_nat n"
  shows "m = n"
  using assms by (metis add_left_imp_eq unat_add_of_nat)

section \<open>Lists\<close>

lemma last_sorted_max: "sorted xs \<Longrightarrow> x \<in> set xs \<Longrightarrow> x \<le> last xs"
  by (induction xs) (auto split: if_splits)

section \<open>Counting loops\<close>

text \<open>
  The values of \<open>index\<close> in \<^verbatim>\<open>for index := a; index <= b; index++\<close>; \<open>index_range_loop\<close> shows that
  the loop takes them one by one, provided that \<open>b + 1\<close> does not wrap.
\<close>

definition index_range :: "u64 \<Rightarrow> u64 \<Rightarrow> u64 list" where
  "index_range a b = map of_nat [unat a..<Suc (unat b)]"

lemma index_range_loop:
  assumes "unat b + 1 < 2 ^ 64"
  shows "index_range a b = (if a \<le> b then a # index_range (a + 1) b else [])"
proof (cases "a \<le> b")
  case True
  then have "unat (a + 1) = Suc (unat a)" and "unat a \<le> unat b"
    using assms unat_Suc_word[of a] by (auto simp: word_le_nat_alt)
  with True show ?thesis
    by (simp add: index_range_def upt_rec[of "unat a"] word_unat_eq_iff)
qed (simp add: index_range_def word_le_nat_alt)

lemma set_index_range: "set (index_range a b) = {i. a \<le> i \<and> i \<le> b}"
proof -
  have u: "unat (of_nat n :: u64) = n" if "n < Suc (unat b)" for n
    using that unat_u64_less[of b] by (intro unat_of_nat_u64) simp
  have "i \<in> of_nat ` {unat a..<Suc (unat b)} \<longleftrightarrow> unat a \<le> unat i \<and> unat i \<le> unat b" for i :: u64
    using u by (auto intro!: image_eqI[of _ _ "unat i"])
  then show ?thesis
    by (auto simp: index_range_def word_le_nat_alt simp del: upt_Suc)
qed

section \<open>Numbers as text\<close>

text \<open>\<^verbatim>\<open>%d\<close> of a number that is not negative.\<close>

definition digit :: "nat \<Rightarrow> char" where
  "digit d = char_of (48 + d)"

fun decimal :: "nat \<Rightarrow> string" where
  "decimal n = (if n < 10 then [digit n] else decimal (n div 10) @ [digit (n mod 10)])"

declare decimal.simps [simp del]

end
