(* ===== verification/Framing.thy ===== *)
theory Framing
  imports Prelude
begin

text \<open>
  Length-prefixed messages on a byte stream, as \<^verbatim>\<open>encodeLogEntry\<close>, \<^verbatim>\<open>decodeLogEntry\<close>
  (log.go) and \<^verbatim>\<open>encodePersistentState\<close>, \<^verbatim>\<open>decodePersistentState\<close> (state_storage.go) use
  them: \<^verbatim>\<open>binary.Write\<close> and \<^verbatim>\<open>binary.Read\<close> of a big-endian \<^verbatim>\<open>int32\<close>, and \<^verbatim>\<open>io.ReadFull\<close> with
  its two end-of-file results. System calls may fail: the outcomes of the calls to come are
  a list, and a failed write may have stored a prefix of its bytes.
\<close>

section \<open>Outcomes of system calls\<close>

datatype io = IoOk | IoFail nat

text \<open>Bytes that a write of \<open>bs\<close> stores.\<close>

fun io_stored :: "io \<Rightarrow> bytes \<Rightarrow> bytes" where
  "io_stored IoOk bs = bs"
| "io_stored (IoFail n) bs = take n bs"

fun io_result :: "io \<Rightarrow> exn + unit" where
  "io_result IoOk = Inr ()"
| "io_result (IoFail n) = Inl (Error SysErr)"

lemma io_result_Inr [simp]: "io_result i = Inr u \<longleftrightarrow> i = IoOk"
  by (cases i) auto

text \<open>Once the recorded outcomes are used up, every call succeeds.\<close>

definition next_io :: "io list \<Rightarrow> io" where
  "next_io fs = (case fs of [] \<Rightarrow> IoOk | f # _ \<Rightarrow> f)"

lemma next_io_simps [simp]: "next_io [] = IoOk" "next_io (f # fs) = f"
  by (simp_all add: next_io_def)

section \<open>Big-endian 32-bit integers\<close>

definition be32 :: "u32 \<Rightarrow> bytes" where
  "be32 w = [ucast (drop_bit 24 w), ucast (drop_bit 16 w), ucast (drop_bit 8 w), ucast w]"

fun from_be32 :: "bytes \<Rightarrow> u32" where
  "from_be32 [a, b, c, d] =
     push_bit 24 (ucast a) OR push_bit 16 (ucast b) OR push_bit 8 (ucast c) OR ucast d"
| "from_be32 _ = 0"

lemma length_be32 [simp]: "length (be32 w) = 4"
  by (simp add: be32_def)

lemma be32_nonempty [simp]: "be32 w \<noteq> []"
  by (simp add: be32_def)

lemma from_be32_be32 [simp]: "from_be32 (be32 w) = w"
proof (rule bit_word_eqI)
  fix n assume "n < LENGTH(32)"
  then have n: "n < 32" by simp
  then consider "24 \<le> n" | "16 \<le> n \<and> n < 24" | "8 \<le> n \<and> n < 16" | "n < 8" by linarith
  then show "bit (from_be32 (be32 w)) n = bit w n"
    by cases (use n in \<open>auto simp: be32_def bit_simps\<close>)
qed

section \<open>Reading from a stream\<close>

text \<open>
  \<^verbatim>\<open>io.ReadFull(r, buf)\<close> with \<open>n = len(buf)\<close>: nothing to read is a success, no byte at all is
  \<^verbatim>\<open>io.EOF\<close>, too few bytes are \<^verbatim>\<open>io.ErrUnexpectedEOF\<close>.
\<close>

definition ReadFull :: "nat \<Rightarrow> (bytes, bytes) action" where
  "ReadFull n = (\<lambda>r.
     if n = 0 then (Inr [], r)
     else if r = [] then (Inl (Error EOF), [])
     else if length r < n then (Inl (Error UnexpectedEOF), [])
     else (Inr (take n r), drop n r))"

text \<open>\<^verbatim>\<open>binary.Read(r, binary.BigEndian, &size)\<close> for an \<^verbatim>\<open>int32\<close>.\<close>

definition readInt32 :: "(bytes, u32) action" where
  "readInt32 = bindA (ReadFull 4) (\<lambda>bs. returnA (from_be32 bs))"

text \<open>\<^verbatim>\<open>buf := make([]byte, size)\<close>: a negative length panics.\<close>

definition makeBuf :: "u32 \<Rightarrow> (bytes, nat) action" where
  "makeBuf sz =
     (if sint sz < 0 then raiseA (Panic ''makeslice: len out of range'')
      else returnA (nat (sint sz)))"

lemma ReadFull_append [simp]: "length bs = n \<Longrightarrow> ReadFull n (bs @ r) = (Inr bs, r)"
  by (auto simp: ReadFull_def)

lemma ReadFull_be32 [simp]: "ReadFull 4 (be32 w @ r) = (Inr (be32 w), r)"
  by (rule ReadFull_append) simp

lemma ReadFull_Nil [simp]: "ReadFull n [] = (if n = 0 then Inr [] else Inl (Error EOF), [])"
  by (simp add: ReadFull_def)

lemma ReadFull_length: "ReadFull n r = (Inr bs, r') \<Longrightarrow> length r = n + length r'"
  by (auto simp: ReadFull_def split: if_splits)

lemma readInt32_be32 [simp]: "readInt32 (be32 w @ r) = (Inr w, r)"
  by (simp add: readInt32_def bindA_def)

lemma readInt32_Nil [simp]: "readInt32 [] = (Inl (Error EOF), [])"
  by (simp add: readInt32_def bindA_def)

lemma readInt32_length: "readInt32 r = (Inr w, r') \<Longrightarrow> length r = 4 + length r'"
  by (auto simp: readInt32_def act_inv dest: ReadFull_length)

text \<open>A length below \<open>2^31\<close> survives the conversion to \<^verbatim>\<open>int32\<close> and back.\<close>

lemma sint_of_nat_u32: "n < 2 ^ 31 \<Longrightarrow> sint (of_nat n :: u32) = int n"
  by (simp add: signed_of_nat signed_take_bit_int_eq_self)

lemma makeBuf_of_nat [simp]: "n < 2 ^ 31 \<Longrightarrow> makeBuf (of_nat n) r = (Inr n, r)"
  by (simp add: makeBuf_def sint_of_nat_u32)

text \<open>A length of \<open>2^31\<close> or more does not: the reader panics.\<close>

lemma makeBuf_overflow: "makeBuf (of_nat (2 ^ 31)) r = (Inl (Panic ''makeslice: len out of range''), r)"
  by (simp add: makeBuf_def)

end
