(* ===== verification/Protobuf.thy ===== *)
theory Protobuf
  imports Prelude
begin

text \<open>
  The message types of internal/protobuf/raft.pb.go (generated from raft.proto), field by
  field. The wire format itself is google.golang.org/protobuf, which is not part of the
  repository: \<^verbatim>\<open>proto.Marshal\<close> and \<^verbatim>\<open>proto.Unmarshal\<close> are arguments of the definitions that
  call them. What the code relies on is \<open>proto_codec\<close>: a message that was marshalled is read
  back unchanged, and its encoding is below the documented 2 GiB limit of a serialised
  message.
\<close>

record pb_LogEntry =
  pb_Index :: u64
  pb_Term :: u64
  pb_Offset :: int
  pb_Data :: bytes
  pb_EntryType :: u32

record pb_AppendEntriesRequest =
  pba_LeaderId :: string
  pba_Term :: u64
  pba_LeaderCommit :: u64
  pba_PrevLogIndex :: u64
  pba_PrevLogTerm :: u64
  pba_Entries :: "pb_LogEntry list"

record pb_AppendEntriesResponse =
  pbar_Term :: u64
  pbar_Index :: u64
  pbar_Success :: bool

record pb_RequestVoteRequest =
  pbv_CandidateId :: string
  pbv_Term :: u64
  pbv_LastLogIndex :: u64
  pbv_LastLogTerm :: u64
  pbv_Prevote :: bool

record pb_RequestVoteResponse =
  pbvr_Term :: u64
  pbvr_VoteGranted :: bool

record pb_InstallSnapshotRequest =
  pbi_Term :: u64
  pbi_Leader :: string
  pbi_LastIncludedIndex :: u64
  pbi_LastIncludedTerm :: u64
  pbi_Configuration :: bytes
  pbi_Offset :: int
  pbi_Data :: bytes
  pbi_Done :: bool

record pb_InstallSnapshotResponse =
  pbir_Term :: u64
  pbir_BytesWritten :: int

record pb_StorageState =
  pbs_Term :: u64
  pbs_VotedFor :: string

record pb_Configuration =
  pbc_Members :: "(string, string) fmap"
  pbc_IsVoter :: "(string, bool) fmap"
  pbc_Index :: u64

type_synonym 'm marshal = "'m \<Rightarrow> bytes option"
type_synonym 'm unmarshal = "bytes \<Rightarrow> 'm option"

definition proto_codec :: "'m marshal \<Rightarrow> 'm unmarshal \<Rightarrow> bool" where
  "proto_codec mar unmar \<longleftrightarrow>
     (\<forall>m b. mar m = Some b \<longrightarrow> unmar b = Some m \<and> length b < 2 ^ 31)"

lemma proto_codecD:
  assumes "proto_codec mar unmar" "mar m = Some b"
  shows "unmar b = Some m" "length b < 2 ^ 31"
  using assms by (auto simp: proto_codec_def)

end
