(* ===== verification/LogStore.thy ===== *)
theory LogStore
  imports Framing Protobuf
begin

text \<open>
  log.go: log entries, their encoding, and \<^verbatim>\<open>persistentLog\<close>, the implementation of the
  interface \<^verbatim>\<open>Log\<close> over a file. The state is the slice of entries kept in memory, the open
  file (its cursor), the contents of \<^verbatim>\<open>log.bin\<close>, the temporary files of the directory and the
  outcomes of the system calls to come. The first entry of the slice is the placeholder the
  log indexes from. \<^verbatim>\<open>uint64\<close> indices are 64-bit words: \<^verbatim>\<open>index - l.entries[0].Index\<close> wraps.
\<close>

section \<open>Log entries\<close>

record LogEntry =
  Index :: u64
  Term :: u64
  Offset :: int
  Data :: bytes
  EntryType :: u32

definition NoOpEntry :: u32 where "NoOpEntry = 0"
definition OperationEntry :: u32 where "OperationEntry = 1"
definition ConfigurationEntry :: u32 where "ConfigurationEntry = 2"

definition NewLogEntry :: "u64 \<Rightarrow> u64 \<Rightarrow> bytes \<Rightarrow> u32 \<Rightarrow> LogEntry" where
  "NewLogEntry index trm dat entryType =
     \<lparr>Index = index, Term = trm, Offset = 0, Data = dat, EntryType = entryType\<rparr>"

definition emptyEntry :: LogEntry where
  "emptyEntry = \<lparr>Index = 0, Term = 0, Offset = 0, Data = [], EntryType = 0\<rparr>"

definition IsConflict :: "LogEntry \<Rightarrow> LogEntry \<Rightarrow> bool" where
  "IsConflict e other \<longleftrightarrow> Index e = Index other \<and> Term e \<noteq> Term other"

section \<open>Encoding\<close>

type_synonym 's writer = "bytes \<Rightarrow> ('s, unit) action"

definition toPb :: "LogEntry \<Rightarrow> pb_LogEntry" where
  "toPb e = \<lparr>pb_Index = Index e, pb_Term = Term e, pb_Offset = Offset e,
             pb_Data = Data e, pb_EntryType = EntryType e\<rparr>"

definition fromPb :: "pb_LogEntry \<Rightarrow> LogEntry" where
  "fromPb p = \<lparr>Index = pb_Index p, Term = pb_Term p, Offset = pb_Offset p,
               Data = pb_Data p, EntryType = pb_EntryType p\<rparr>"

definition encodeLogEntry :: "pb_LogEntry marshal \<Rightarrow> 's writer \<Rightarrow> LogEntry \<Rightarrow> ('s, unit) action" where
  "encodeLogEntry mar w entry =
     (case mar (toPb entry) of
        None \<Rightarrow> raiseA (Error (Wrapf ''could not marshal protobuf message'' SysErr))
      | Some buf \<Rightarrow>
          bindA (wrapA ''could not write length of protobuf message''
                  (w (be32 (of_nat (length buf))))) (\<lambda>_.
          wrapA ''could not write protobuf message'' (w buf)))"

definition decodeLogEntry :: "pb_LogEntry unmarshal \<Rightarrow> (bytes, LogEntry) action" where
  "decodeLogEntry unmar =
     bindA (wrapA ''could not read length of protobuf message'' readInt32) (\<lambda>sz.
     bindA (makeBuf sz) (\<lambda>n.
     bindA (wrapA ''could not read protobuf messsage'' (ReadFull n)) (\<lambda>buf.
     case unmar buf of
       None \<Rightarrow> raiseA (Error (Wrapf ''could not unmarshal protobuf message'' SysErr))
     | Some p \<Rightarrow> returnA (fromPb p))))"

section \<open>State of the log and its file\<close>

datatype logFile = NilFile | OpenFile nat | ClosedFile

record persistentLog =
  entries :: "LogEntry list"
  lfile :: logFile
  disk :: "bytes option"
  tmps :: "bytes list"
  faults :: "io list"

type_synonym 'a logA = "(persistentLog, 'a) action"

text \<open>One system call: it uses up one recorded outcome.\<close>

definition syscall :: "unit logA" where
  "syscall = (\<lambda>l. (io_result (next_io (faults l)), l\<lparr>faults := tl (faults l)\<rparr>))"

definition writeAt :: "nat \<Rightarrow> bytes \<Rightarrow> bytes \<Rightarrow> bytes" where
  "writeAt pos bs c = take pos (c @ replicate (pos - length c) 0) @ bs @ drop (pos + length bs) c"

definition content :: "persistentLog \<Rightarrow> bytes" where
  "content l = (case disk l of None \<Rightarrow> [] | Some c \<Rightarrow> c)"

definition withFile :: "(nat \<Rightarrow> 'a logA) \<Rightarrow> 'a logA" where
  "withFile f = (\<lambda>l. case lfile l of OpenFile pos \<Rightarrow> f pos l | _ \<Rightarrow> (Inl (Error SysErr), l))"

definition fileWrite :: "persistentLog writer" where
  "fileWrite bs = withFile (\<lambda>pos l.
     let stored = io_stored (next_io (faults l)) bs
     in (io_result (next_io (faults l)),
         l\<lparr>disk := Some (writeAt pos stored (content l)),
           lfile := OpenFile (pos + length stored),
           faults := tl (faults l)\<rparr>))"

definition fileSeekCurrent :: "int logA" where
  "fileSeekCurrent = withFile (\<lambda>pos. bindA syscall (\<lambda>_. returnA (int pos)))"

definition fileSeekStart :: "int \<Rightarrow> unit logA" where
  "fileSeekStart off = withFile (\<lambda>pos.
     bindA syscall (\<lambda>_.
     if off < 0 then raiseA (Error SysErr)
     else modifyA (\<lambda>l. l\<lparr>lfile := OpenFile (nat off)\<rparr>)))"

definition fileSeekEnd :: "unit logA" where
  "fileSeekEnd = withFile (\<lambda>pos.
     bindA syscall (\<lambda>_. modifyA (\<lambda>l. l\<lparr>lfile := OpenFile (length (content l))\<rparr>)))"

definition fileSync :: "unit logA" where
  "fileSync = withFile (\<lambda>pos. syscall)"

definition fileClose :: "unit logA" where
  "fileClose = withFile (\<lambda>pos l. case syscall l of (r, l') \<Rightarrow> (r, l'\<lparr>lfile := ClosedFile\<rparr>))"

definition fileTruncate :: "int \<Rightarrow> unit logA" where
  "fileTruncate n = withFile (\<lambda>pos.
     bindA syscall (\<lambda>_.
     if n < 0 then raiseA (Error SysErr)
     else modifyA (\<lambda>l. l\<lparr>disk := Some (take (nat n) (content l @ replicate (nat n - length (content l)) 0))\<rparr>)))"

text \<open>Temporary files of the log directory; the one being written is the head of \<open>tmps\<close>.\<close>

definition createTemp :: "unit logA" where
  "createTemp = bindA syscall (\<lambda>_. modifyA (\<lambda>l. l\<lparr>tmps := [] # tmps l\<rparr>))"

definition tmpContent :: "persistentLog \<Rightarrow> bytes" where
  "tmpContent l = (case tmps l of [] \<Rightarrow> [] | t # _ \<Rightarrow> t)"

definition tmpSeekCurrent :: "int logA" where
  "tmpSeekCurrent = bindA syscall (\<lambda>_. bindA getA (\<lambda>l. returnA (int (length (tmpContent l)))))"

definition tmpWrite :: "persistentLog writer" where
  "tmpWrite bs = (\<lambda>l.
     (io_result (next_io (faults l)),
      l\<lparr>tmps := (tmpContent l @ io_stored (next_io (faults l)) bs) # tl (tmps l),
        faults := tl (faults l)\<rparr>))"

text \<open>\<^verbatim>\<open>_ = os.Remove(tmpFile.Name())\<close>: the error is ignored.\<close>

definition removeTmp :: "unit logA" where
  "removeTmp = (\<lambda>l. (Inr (),
     (if next_io (faults l) = IoOk then l\<lparr>tmps := tl (tmps l)\<rparr> else l)\<lparr>faults := tl (faults l)\<rparr>))"

definition osRename :: "unit logA" where
  "osRename = bindA syscall (\<lambda>_. modifyA (\<lambda>l. l\<lparr>disk := Some (tmpContent l), tmps := tl (tmps l)\<rparr>))"

definition osOpen :: "unit logA" where
  "osOpen = bindA syscall (\<lambda>_. bindA getA (\<lambda>l.
     if disk l = None then raiseA (Error ErrNotExist)
     else modifyA (\<lambda>l. l\<lparr>lfile := OpenFile 0\<rparr>)))"

definition osOpenCreate :: "unit logA" where
  "osOpenCreate = bindA syscall (\<lambda>_.
     modifyA (\<lambda>l. l\<lparr>disk := Some (content l), lfile := OpenFile 0\<rparr>))"

section \<open>Operations of persistentLog\<close>

text \<open>
  \<^verbatim>\<open>NewLog\<close> on the directory that \<open>l\<close> left on disk: temporary files are removed, nothing is
  open and nothing is in memory.
\<close>

definition NewLog :: "unit logA" where
  "NewLog =
     bindA (wrapA ''could not make directories for log file'' syscall) (\<lambda>_.
     bindA (wrapA ''could not remove temporary files'' syscall) (\<lambda>_.
     modifyA (\<lambda>l. l\<lparr>tmps := [], entries := [], lfile := NilFile\<rparr>)))"

definition Log_Open :: "unit logA" where
  "Log_Open =
     bindA (wrapA ''could not open or create log file'' osOpenCreate) (\<lambda>_.
     modifyA (\<lambda>l. l\<lparr>entries := []\<rparr>))"

text \<open>The decoding loop of \<^verbatim>\<open>Replay\<close>: entries are appended until the end of the file.\<close>

function replayLoop :: "pb_LogEntry unmarshal \<Rightarrow> bytes \<Rightarrow> LogEntry list \<Rightarrow> (exn + unit) \<times> LogEntry list" where
  "replayLoop unmar r acc =
     (case decodeLogEntry unmar r of
        (Inr e, r') \<Rightarrow> replayLoop unmar r' (acc @ [e])
      | (Inl (Error x), _) \<Rightarrow>
          (if errors_Is x EOF then Inr () else Inl (Error (Wrapf ''could not decode log entry'' x)), acc)
      | (Inl x, _) \<Rightarrow> (Inl x, acc))"
  by pat_completeness auto

lemma decodeLogEntry_consumes: "decodeLogEntry unmar r = (Inr e, r') \<Longrightarrow> length r' < length r"
  by (auto simp: decodeLogEntry_def bindA_eq_Inr makeBuf_def
           dest!: readInt32_length ReadFull_length split: option.splits if_splits)

termination replayLoop
  by (relation "measure (\<lambda>(unmar, r, acc). length r)")
     (auto dest!: decodeLogEntry_consumes[OF sym])

declare replayLoop.simps [simp del]

text \<open>The buffered reader consumes the whole file, so the cursor ends behind its last byte.\<close>

definition Replay :: "pb_LogEntry marshal \<Rightarrow> pb_LogEntry unmarshal \<Rightarrow> unit logA" where
  "Replay mar unmar = withFile (\<lambda>pos.
     bindA (wrapA ''could not decode log entry'' syscall) (\<lambda>_.
     bindA (\<lambda>l. case replayLoop unmar (drop pos (content l)) (entries l) of
              (res, es) \<Rightarrow> (res, l\<lparr>entries := es, lfile := OpenFile (max pos (length (content l)))\<rparr>)) (\<lambda>_.
     bindA getA (\<lambda>l.
     whenA (entries l = [])
       (bindA (wrapA ''could not encode log entry'' (encodeLogEntry mar fileWrite emptyEntry)) (\<lambda>_.
        bindA (wrapA ''could not sync log file'' fileSync) (\<lambda>_.
        modifyA (\<lambda>l. l\<lparr>entries := [emptyEntry]\<rparr>))))))))"

definition Log_Close :: "unit logA" where
  "Log_Close = bindA getA (\<lambda>l.
     if lfile l = NilFile then returnA ()
     else bindA (wrapA ''could not close log file'' fileClose) (\<lambda>_.
          modifyA (\<lambda>l. l\<lparr>entries := [], lfile := NilFile\<rparr>)))"

definition Contains :: "u64 \<Rightarrow> persistentLog \<Rightarrow> exn + bool" where
  "Contains index l =
     (case entries l of
        [] \<Rightarrow> Inl (Panic ''index out of range'')
      | e0 # _ \<Rightarrow>
          let logIndex = index - Index e0
          in Inr (\<not> (logIndex \<le> 0 \<or> logIndex \<ge> of_nat (length (entries l)))))"

text \<open>\<^verbatim>\<open>index - l.entries[0].Index\<close> as a position of the slice.\<close>

definition logIndexOf :: "u64 \<Rightarrow> persistentLog \<Rightarrow> nat" where
  "logIndexOf index l = unat (index - Index (hd (entries l)))"

definition GetEntry :: "u64 \<Rightarrow> persistentLog \<Rightarrow> exn + LogEntry" where
  "GetEntry index l =
     (if lfile l = NilFile then Inl (Error (ErrNew ''could not get entry: log not open''))
      else case Contains index l of
        Inl x \<Rightarrow> Inl x
      | Inr b \<Rightarrow>
          if \<not> b then Inl (Error (ErrNew ''could not get entry: index does not exist''))
          else Inr (entries l ! logIndexOf index l))"

fun writeEntries :: "pb_LogEntry marshal \<Rightarrow> LogEntry list \<Rightarrow> LogEntry list logA" where
  "writeEntries mar [] = returnA []"
| "writeEntries mar (entry # es) =
     bindA (wrapA ''could not seek log file'' fileSeekCurrent) (\<lambda>offset.
     bindA (wrapA ''could not encode log entry'' (encodeLogEntry mar fileWrite (entry\<lparr>Offset := offset\<rparr>))) (\<lambda>_.
     bindA (writeEntries mar es) (\<lambda>es'.
     returnA (entry\<lparr>Offset := offset\<rparr> # es'))))"

definition Log_AppendEntries :: "pb_LogEntry marshal \<Rightarrow> LogEntry list \<Rightarrow> unit logA" where
  "Log_AppendEntries mar es = bindA getA (\<lambda>l.
     if lfile l = NilFile then raiseA (Error (ErrNew ''could not append entries: log not open''))
     else
       bindA (writeEntries mar es) (\<lambda>es'.
       bindA (wrapA ''could not sync log file'' fileSync) (\<lambda>_.
       modifyA (\<lambda>l. l\<lparr>entries := entries l @ es'\<rparr>))))"

definition AppendEntry :: "pb_LogEntry marshal \<Rightarrow> LogEntry \<Rightarrow> unit logA" where
  "AppendEntry mar entry = Log_AppendEntries mar [entry]"

text \<open>The guard shared by \<^verbatim>\<open>Truncate\<close> and \<^verbatim>\<open>Compact\<close>.\<close>

definition checkIndex :: "string \<Rightarrow> u64 \<Rightarrow> nat logA" where
  "checkIndex what index = bindA getA (\<lambda>l.
     if lfile l = NilFile then raiseA (Error (ErrNew (what @ '': log not open'')))
     else bindA (readA (Contains index)) (\<lambda>b.
       if \<not> b then raiseA (Error (ErrNew (what @ '': index does not exist'')))
       else returnA (logIndexOf index l)))"

definition Truncate :: "u64 \<Rightarrow> unit logA" where
  "Truncate index =
     bindA (checkIndex ''could not truncate log'' index) (\<lambda>logIndex.
     bindA getA (\<lambda>l.
     let sz = Offset (entries l ! logIndex) in
     bindA (wrapA ''could not truncate log file'' (fileTruncate sz)) (\<lambda>_.
     bindA (wrapA ''could not sync log file'' fileSync) (\<lambda>_.
     bindA (wrapA ''could not seek log file'' (fileSeekStart sz)) (\<lambda>_.
     modifyA (\<lambda>l. l\<lparr>entries := take logIndex (entries l)\<rparr>))))))"

text \<open>
  \<^verbatim>\<open>rename\<close> replaces \<^verbatim>\<open>log.bin\<close> by the temporary file. Up to the rename a failure removes the
  temporary file; afterwards the log file is opened again.
\<close>

definition renameReplace :: "unit logA" where
  "renameReplace =
     bindA (wrapA ''could not sync file'' syscall) (\<lambda>_.
     bindA (wrapA ''could not close file'' syscall) (\<lambda>_.
     bindA (wrapA ''could not sync file'' fileSync) (\<lambda>_.
     bindA (wrapA ''could not close file'' fileClose) (\<lambda>_.
     wrapA ''could not perform rename'' osRename))))"

definition renameReopen :: "unit logA" where
  "renameReopen =
     bindA (wrapA ''could not open file'' osOpen) (\<lambda>_.
     wrapA ''could not seek file'' fileSeekEnd)"

definition rename :: "unit logA" where
  "rename = bindA (tryA renameReplace) (\<lambda>res.
     case res of
       Inl e \<Rightarrow> bindA removeTmp (\<lambda>_. raiseA (Error e))
     | Inr _ \<Rightarrow> renameReopen)"

text \<open>
  \<^verbatim>\<open>Compact\<close> copies pointers, so the new offsets are written into the entries that \<open>l\<close> still
  holds: the loop updates them in place, entry by entry.
\<close>

fun compactLoop :: "pb_LogEntry marshal \<Rightarrow> nat \<Rightarrow> nat \<Rightarrow> unit logA" where
  "compactLoop mar k 0 = returnA ()"
| "compactLoop mar k (Suc n) =
     bindA (wrapA ''could not seek temporary file'' tmpSeekCurrent) (\<lambda>offset.
     bindA (modifyA (\<lambda>l. l\<lparr>entries := (entries l)[k := (entries l ! k)\<lparr>Offset := offset\<rparr>]\<rparr>)) (\<lambda>_.
     bindA getA (\<lambda>l.
     bindA (wrapA ''could not encode log entry'' (encodeLogEntry mar tmpWrite (entries l ! k))) (\<lambda>_.
     compactLoop mar (Suc k) n))))"

definition Compact :: "pb_LogEntry marshal \<Rightarrow> u64 \<Rightarrow> unit logA" where
  "Compact mar index =
     bindA (checkIndex ''could not compact log'' index) (\<lambda>logIndex.
     bindA (wrapA ''could not create temporary file'' createTemp) (\<lambda>_.
     bindA getA (\<lambda>l.
     bindA (compactLoop mar logIndex (length (entries l) - logIndex)) (\<lambda>_.
     bindA (wrapA ''could not rename temporary file'' rename) (\<lambda>_.
     modifyA (\<lambda>l. l\<lparr>entries := drop logIndex (entries l)\<rparr>))))))"

definition DiscardEntries :: "pb_LogEntry marshal \<Rightarrow> u64 \<Rightarrow> u64 \<Rightarrow> unit logA" where
  "DiscardEntries mar index trm = bindA getA (\<lambda>l.
     if lfile l = NilFile then raiseA (Error (ErrNew ''could not discard log: log not open''))
     else
       bindA (wrapA ''could not create temporary file'' createTemp) (\<lambda>_.
       let entry = emptyEntry\<lparr>Index := index, Term := trm\<rparr> in
       bindA (wrapA ''could not encode log entry'' (encodeLogEntry mar tmpWrite entry)) (\<lambda>_.
       bindA (wrapA ''could not rename temporary file'' rename) (\<lambda>_.
       modifyA (\<lambda>l. l\<lparr>entries := [entry]\<rparr>)))))"

definition lastEntry :: "persistentLog \<Rightarrow> exn + LogEntry" where
  "lastEntry l = (if entries l = [] then Inl (Panic ''index out of range'') else Inr (last (entries l)))"

definition LastTerm :: "persistentLog \<Rightarrow> exn + u64" where
  "LastTerm l = map_sum id Term (lastEntry l)"

definition LastIndex :: "persistentLog \<Rightarrow> exn + u64" where
  "LastIndex l = map_sum id Index (lastEntry l)"

definition NextIndex :: "persistentLog \<Rightarrow> exn + u64" where
  "NextIndex l = map_sum id (\<lambda>e. Index e + 1) (lastEntry l)"

definition Size :: "persistentLog \<Rightarrow> int" where
  "Size l = int (length (entries l)) - 1"

end
