(* ===== verification/LogSpec.thy ===== *)
theory LogSpec
  imports LogStore
begin

text \<open>
  Correctness of \<^verbatim>\<open>persistentLog\<close>. \<open>wf_log\<close> is the invariant that ties the slice in memory to the
  bytes of \<^verbatim>\<open>log.bin\<close>: indices are consecutive, every entry records the byte offset of its
  frame, the file is exactly the frames one after another, and the cursor is at its end.
  The locale \<open>log_store\<close> is the contract of the interface \<^verbatim>\<open>Log\<close> seen through the list of
  stored entries (offsets forgotten); it is interpreted on \<^verbatim>\<open>persistentLog\<close>.
\<close>

section \<open>Consecutive indices\<close>

fun contiguous :: "u64 \<Rightarrow> LogEntry list \<Rightarrow> bool" where
  "contiguous i [] = True"
| "contiguous i (e # es) = (Index e = i \<and> contiguous (i + 1) es)"

definition wf_entries :: "LogEntry list \<Rightarrow> bool" where
  "wf_entries es \<longleftrightarrow> es \<noteq> [] \<and> contiguous (Index (hd es)) es \<and> unat (Index (hd es)) + length es < 2 ^ 64"

definition strip :: "LogEntry \<Rightarrow> LogEntry" where
  "strip e = e\<lparr>Offset := 0\<rparr>"

lemma strip_simps [simp]:
  "Index (strip e) = Index e" "Term (strip e) = Term e" "Data (strip e) = Data e"
  "EntryType (strip e) = EntryType e" "strip (strip e) = strip e" "strip (e\<lparr>Offset := n\<rparr>) = strip e"
  by (simp_all add: strip_def)

lemma contiguous_append:
  "contiguous i (xs @ ys) \<longleftrightarrow> contiguous i xs \<and> contiguous (i + of_nat (length xs)) ys"
  by (induction xs arbitrary: i) (auto simp: algebra_simps)

lemma contiguous_nth: "contiguous i es \<Longrightarrow> k < length es \<Longrightarrow> Index (es ! k) = i + of_nat k"
proof (induction es arbitrary: i k)
  case (Cons e es)
  then show ?case by (cases k) (auto simp: algebra_simps)
qed simp

lemma contiguous_take: "contiguous i es \<Longrightarrow> contiguous i (take n es)"
  by (metis append_take_drop_id contiguous_append)

lemma contiguous_drop: "contiguous i es \<Longrightarrow> contiguous (i + of_nat (min n (length es))) (drop n es)"
  by (metis append_take_drop_id contiguous_append length_take min.commute)

lemma contiguous_map_strip [simp]: "contiguous i (map strip es) = contiguous i es"
  by (induction es arbitrary: i) auto

lemma wf_entries_map_strip [simp]: "wf_entries (map strip es) = wf_entries es"
  by (auto simp: wf_entries_def hd_map)

lemma wf_entries_nth:
  assumes "wf_entries es" "k < length es"
  shows "Index (es ! k) = Index (hd es) + of_nat k" "unat (Index (es ! k)) = unat (Index (hd es)) + k"
proof -
  from assms have "Index (es ! k) = Index (hd es) + of_nat k"
    by (auto simp: wf_entries_def contiguous_nth)
  moreover have "unat (Index (hd es)) + k < 2 ^ 64"
    using assms by (auto simp: wf_entries_def)
  ultimately show "Index (es ! k) = Index (hd es) + of_nat k"
    "unat (Index (es ! k)) = unat (Index (hd es)) + k"
    by (simp_all add: unat_add_of_nat)
qed

lemma wf_entries_last:
  assumes "wf_entries es"
  shows "Index (last es) = Index (hd es) + of_nat (length es - 1)"
    "unat (Index (last es)) = unat (Index (hd es)) + length es - 1"
  using assms wf_entries_nth[of es "length es - 1"]
  by (auto simp: wf_entries_def last_conv_nth Suc_le_eq)

lemma wf_entries_hd_le: "wf_entries es \<Longrightarrow> Index (hd es) \<le> Index (last es)"
  using wf_entries_last(2)[of es] by (cases es) (auto simp: word_le_nat_alt wf_entries_def)

lemma wf_entries_next:
  assumes "wf_entries es"
  shows "Index (last es) + 1 = Index (hd es) + of_nat (length es)"
    "unat (Index (last es) + 1) = unat (Index (hd es)) + length es"
proof -
  have ne: "length es \<ge> 1" and b: "unat (Index (hd es)) + length es < 2 ^ 64"
    using assms by (auto simp: wf_entries_def Suc_le_eq)
  have "of_nat (length es - 1) + 1 = (of_nat (length es) :: u64)"
    using ne by (metis Suc_diff_1 add.commute less_le_trans of_nat_Suc zero_less_one)
  then show *: "Index (last es) + 1 = Index (hd es) + of_nat (length es)"
    by (simp add: wf_entries_last(1)[OF assms] add.assoc)
  show "unat (Index (last es) + 1) = unat (Index (hd es)) + length es"
    unfolding * by (rule unat_add_of_nat[OF b])
qed

text \<open>Positions of the slice and indices correspond, although the subtraction may wrap.\<close>

lemma position_iff:
  assumes "wf_entries es"
  shows "(\<not> (i - Index (hd es) \<le> 0 \<or> i - Index (hd es) \<ge> of_nat (length es)))
           \<longleftrightarrow> Index (hd es) < i \<and> i \<le> Index (last es)"
proof -
  let ?b = "Index (hd es)" and ?n = "length es"
  have b: "unat ?b + ?n < 2 ^ 64" and ne: "?n \<ge> 1"
    using assms by (auto simp: wf_entries_def Suc_le_eq)
  have n: "unat (of_nat ?n :: u64) = ?n" using b by (intro unat_of_nat_u64) simp
  have l: "unat (Index (last es)) = unat ?b + ?n - 1" by (rule wf_entries_last[OF assms])
  show ?thesis
  proof (cases "?b \<le> i")
    case True
    then have "unat (i - ?b) = unat i - unat ?b" by (rule unat_diff_le)
    with True n l ne show ?thesis by (auto simp: word_le_nat_alt word_less_nat_alt)
  next
    case False
    then have "i < ?b" by simp
    then have "unat (i - ?b) = 2 ^ 64 - (unat ?b - unat i)" by (rule unat_diff_wrap)
    with False n b show ?thesis by (auto simp: word_le_nat_alt word_less_nat_alt)
  qed
qed

lemma position_of:
  assumes "wf_entries es" "Index (hd es) \<le> i" "i \<le> Index (last es)"
  shows "unat (i - Index (hd es)) < length es" "Index (es ! unat (i - Index (hd es))) = i"
proof -
  have d: "unat (i - Index (hd es)) = unat i - unat (Index (hd es))"
    using assms(2) by (rule unat_diff_le)
  have le: "unat (Index (hd es)) \<le> unat i" using assms(2) by (simp add: word_le_nat_alt)
  show lt: "unat (i - Index (hd es)) < length es"
  proof -
    have "unat i \<le> unat (Index (hd es)) + length es - 1"
      using assms(3) wf_entries_last(2)[OF assms(1)] by (simp add: word_le_nat_alt)
    moreover have "0 < length es" using assms(1) by (simp add: wf_entries_def)
    ultimately show ?thesis unfolding d by linarith
  qed
  have "unat (Index (es ! unat (i - Index (hd es)))) = unat i"
    using wf_entries_nth(2)[OF assms(1) lt] le by (simp add: d)
  then show "Index (es ! unat (i - Index (hd es))) = i" by (simp only: word_unat_eq_iff)
qed

lemma wf_entries_take: "wf_entries es \<Longrightarrow> 0 < n \<Longrightarrow> wf_entries (take n es)"
  by (auto simp: wf_entries_def contiguous_take hd_take)

lemma wf_entries_drop:
  assumes "wf_entries es" "n < length es"
  shows "wf_entries (drop n es)"
proof -
  have h: "Index (hd (drop n es)) = Index (hd es) + of_nat n"
    using assms by (simp add: hd_drop_conv_nth wf_entries_nth)
  have u: "unat (Index (hd (drop n es))) = unat (Index (hd es)) + n"
    using wf_entries_nth(2)[OF assms] assms(2) by (simp only: hd_drop_conv_nth)
  have "contiguous (Index (hd es) + of_nat (min n (length es))) (drop n es)"
    using assms(1) by (intro contiguous_drop) (simp add: wf_entries_def)
  then show ?thesis using assms u h by (auto simp: wf_entries_def min_def)
qed

lemma wf_entries_append:
  assumes "wf_entries es" "contiguous (Index (last es) + 1) xs"
    "unat (Index (last es)) + length xs + 1 < 2 ^ 64"
  shows "wf_entries (es @ xs)"
proof -
  have ne: "es \<noteq> []" using assms(1) by (simp add: wf_entries_def)
  have "contiguous (Index (hd es)) (es @ xs)"
    using assms by (simp add: contiguous_append wf_entries_def wf_entries_next(1)[OF assms(1)])
  moreover have "unat (Index (hd es)) + length (es @ xs) < 2 ^ 64"
    using assms(3) wf_entries_last(2)[OF assms(1)] ne by simp
  ultimately show ?thesis using ne by (simp add: wf_entries_def)
qed

section \<open>Layout of the log file\<close>

definition frame :: "pb_LogEntry marshal \<Rightarrow> LogEntry \<Rightarrow> bytes" where
  "frame mar e = (case mar (toPb e) of None \<Rightarrow> [] | Some buf \<Rightarrow> be32 (of_nat (length buf)) @ buf)"

definition encodable :: "pb_LogEntry marshal \<Rightarrow> LogEntry \<Rightarrow> bool" where
  "encodable mar e = (mar (toPb e) \<noteq> None)"

definition frames :: "pb_LogEntry marshal \<Rightarrow> LogEntry list \<Rightarrow> bytes" where
  "frames mar es = concat (map (frame mar) es)"

fun laid_out :: "pb_LogEntry marshal \<Rightarrow> nat \<Rightarrow> LogEntry list \<Rightarrow> bool" where
  "laid_out mar off [] = True"
| "laid_out mar off (e # es) =
     (encodable mar e \<and> Offset e = int off \<and> laid_out mar (off + length (frame mar e)) es)"

definition wf_log :: "pb_LogEntry marshal \<Rightarrow> persistentLog \<Rightarrow> bool" where
  "wf_log mar l \<longleftrightarrow> wf_entries (entries l) \<and> laid_out mar 0 (entries l)
     \<and> disk l = Some (frames mar (entries l))
     \<and> lfile l = OpenFile (length (frames mar (entries l)))"

definition view :: "persistentLog \<Rightarrow> LogEntry list" where
  "view l = map strip (entries l)"

lemma frames_simps [simp]:
  "frames mar [] = []" "frames mar (e # es) = frame mar e @ frames mar es"
  "frames mar (xs @ ys) = frames mar xs @ frames mar ys"
  by (simp_all add: frames_def)

lemma laid_out_append:
  "laid_out mar off (xs @ ys) \<longleftrightarrow> laid_out mar off xs \<and> laid_out mar (off + length (frames mar xs)) ys"
  by (induction xs arbitrary: off) (auto simp: algebra_simps)

lemma laid_out_take: "laid_out mar off es \<Longrightarrow> laid_out mar off (take n es)"
  by (metis append_take_drop_id laid_out_append)

lemma laid_out_nth:
  assumes "laid_out mar off es" "k < length es"
  shows "Offset (es ! k) = int (off + length (frames mar (take k es)))"
proof -
  have "laid_out mar off (take k es @ es ! k # drop (Suc k) es)"
    using assms by (simp add: id_take_nth_drop[symmetric])
  then show ?thesis by (simp add: laid_out_append)
qed

lemma fromPb_toPb [simp]: "fromPb (toPb e) = e"
  by (simp add: fromPb_def toPb_def)

text \<open>A frame is read back as the entry it was written from.\<close>

lemma decode_frame:
  assumes "proto_codec mar unmar" "encodable mar e"
  shows "decodeLogEntry unmar (frame mar e @ r) = (Inr e, r)"
proof -
  from assms(2) obtain buf where m: "mar (toPb e) = Some buf" by (auto simp: encodable_def)
  from proto_codecD[OF assms(1) m] show ?thesis
    by (simp add: decodeLogEntry_def frame_def m bindA_def wrapA_def)
qed

lemma decode_empty:
  "decodeLogEntry unmar [] = (Inl (Error (Wrapf ''could not read length of protobuf message'' EOF)), [])"
  by (simp add: decodeLogEntry_def bindA_def wrapA_def)

lemma replayLoop_frames:
  assumes "proto_codec mar unmar"
  shows "laid_out mar off es \<Longrightarrow> replayLoop unmar (frames mar es) acc = (Inr (), acc @ es)"
proof (induction es arbitrary: off acc)
  case Nil
  show ?case by (subst replayLoop.simps) (simp add: decode_empty)
next
  case (Cons e es)
  then have "replayLoop unmar (frames mar es) (acc @ [e]) = (Inr (), (acc @ [e]) @ es)"
    by (intro Cons.IH) auto
  with Cons.prems show ?case
    by (subst replayLoop.simps) (simp add: decode_frame[OF assms])
qed

section \<open>Successful file operations\<close>

named_theorems file_ok \<open>what a successful call on the log file did\<close>

lemma syscall_ok [file_ok]:
  "syscall l = (Inr u, l') \<longleftrightarrow> next_io (faults l) = IoOk \<and> l' = l\<lparr>faults := tl (faults l)\<rparr>"
  by (auto simp: syscall_def)

lemma withFile_ok [file_ok]:
  "withFile f l = (Inr x, l') \<longleftrightarrow> (\<exists>pos. lfile l = OpenFile pos \<and> f pos l = (Inr x, l'))"
  by (auto simp: withFile_def split: logFile.splits)

lemma fileWrite_ok [file_ok]:
  "fileWrite bs l = (Inr u, l') \<longleftrightarrow> (\<exists>pos. lfile l = OpenFile pos \<and> next_io (faults l) = IoOk \<and>
     l' = l\<lparr>disk := Some (writeAt pos bs (content l)), lfile := OpenFile (pos + length bs),
            faults := tl (faults l)\<rparr>)"
  by (auto simp: fileWrite_def withFile_ok Let_def)

lemma fileClose_ok [file_ok]:
  "fileClose l = (Inr u, l') \<longleftrightarrow> (\<exists>pos. lfile l = OpenFile pos \<and> next_io (faults l) = IoOk \<and>
     l' = l\<lparr>faults := tl (faults l), lfile := ClosedFile\<rparr>)"
  by (auto simp: fileClose_def withFile_ok syscall_def split: prod.splits)

lemma tmpWrite_ok [file_ok]:
  "tmpWrite bs l = (Inr u, l') \<longleftrightarrow> next_io (faults l) = IoOk \<and>
     l' = l\<lparr>tmps := (tmpContent l @ bs) # tl (tmps l), faults := tl (faults l)\<rparr>"
  by (auto simp: tmpWrite_def)

lemmas file_op_defs = fileSeekCurrent_def fileSeekStart_def fileSeekEnd_def fileSync_def
  fileTruncate_def createTemp_def tmpSeekCurrent_def osRename_def osOpen_def osOpenCreate_def

lemma writeAt_end [simp]: "writeAt (length c) bs c = c @ bs"
  by (simp add: writeAt_def)

lemma content_Some [simp]: "disk l = Some c \<Longrightarrow> content l = c"
  by (simp add: content_def)

lemma content_upd [simp]: "content (l\<lparr>disk := Some c\<rparr>) = c"
  by (simp add: content_def)

lemma encode_file_ok:
  assumes "encodeLogEntry mar fileWrite e l = (Inr u, l')"
    and "disk l = Some c" "lfile l = OpenFile (length c)"
  shows "encodable mar e \<and> (\<exists>fs. l' = l\<lparr>disk := Some (c @ frame mar e),
           lfile := OpenFile (length (c @ frame mar e)), faults := fs\<rparr>)"
proof -
  from assms(1) obtain buf where m: "mar (toPb e) = Some buf"
    by (auto simp: encodeLogEntry_def split: option.splits)
  let ?w = "be32 (of_nat (length buf))"
  let ?l1 = "l\<lparr>disk := Some (c @ ?w), lfile := OpenFile (length (c @ ?w)), faults := tl (faults l)\<rparr>"
  have "fileWrite buf ?l1 = (Inr u, l')"
    using assms by (auto simp: encodeLogEntry_def m bindA_eq_Inr fileWrite_ok)
  then have "l' = ?l1\<lparr>disk := Some ((c @ ?w) @ buf), lfile := OpenFile (length ((c @ ?w) @ buf)),
                      faults := tl (faults ?l1)\<rparr>"
    by (auto simp: fileWrite_ok content_def writeAt_end[of "c @ ?w", simplified])
  then show ?thesis by (auto simp: frame_def m encodable_def intro!: exI[of _ "tl (faults ?l1)"])
qed

lemma writeEntries_ok:
  assumes "writeEntries mar es l = (Inr es', l')"
    and "disk l = Some c" "lfile l = OpenFile (length c)"
  shows "map strip es' = map strip es \<and> laid_out mar (length c) es' \<and>
    (\<exists>fs. l' = l\<lparr>disk := Some (c @ frames mar es'), lfile := OpenFile (length (c @ frames mar es')),
                  faults := fs\<rparr>)"
  using assms
proof (induction es arbitrary: l c es')
  case Nil
  then show ?case by (auto intro!: exI[of _ "faults l"])
next
  case (Cons e es)
  let ?e = "e\<lparr>Offset := int (length c)\<rparr>" and ?l1 = "l\<lparr>faults := tl (faults l)\<rparr>"
  from Cons.prems obtain l2 es2 where
    enc: "encodeLogEntry mar fileWrite ?e ?l1 = (Inr (), l2)"
    and rest: "writeEntries mar es l2 = (Inr es2, l')" and es': "es' = ?e # es2"
    by (auto simp: bindA_eq_Inr fileSeekCurrent_def file_ok)
  from encode_file_ok[OF enc] Cons.prems obtain fs where ec: "encodable mar ?e"
    and l2: "l2 = ?l1\<lparr>disk := Some (c @ frame mar ?e), lfile := OpenFile (length (c @ frame mar ?e)), faults := fs\<rparr>"
    by auto
  from Cons.IH[OF rest, of "c @ frame mar ?e"] l2 obtain fs' where
    "map strip es2 = map strip es" "laid_out mar (length (c @ frame mar ?e)) es2"
    "l' = l2\<lparr>disk := Some ((c @ frame mar ?e) @ frames mar es2),
              lfile := OpenFile (length ((c @ frame mar ?e) @ frames mar es2)), faults := fs'\<rparr>"
    by auto
  then show ?case using ec l2 by (auto simp: es' intro!: exI[of _ fs'])
qed

lemma checkIndex_ok:
  "checkIndex what i l = (Inr n, l') \<longleftrightarrow>
     lfile l \<noteq> NilFile \<and> Contains i l = Inr True \<and> n = logIndexOf i l \<and> l' = l"
  by (auto simp: checkIndex_def bindA_def split: sum.splits if_splits)

lemma rename_ok:
  assumes "rename l = (Inr u, l')"
  shows "\<exists>fs. l' = l\<lparr>disk := Some (tmpContent l), tmps := tl (tmps l),
                      faults := fs, lfile := OpenFile (length (tmpContent l))\<rparr>"
proof -
  from assms obtain l1 where r: "renameReplace l = (Inr (), l1)" and o: "renameReopen l1 = (Inr u, l')"
    by (auto simp: rename_def bindA_eq_Inr tryA_eq_Inr)
  from r obtain fs where "l1 = l\<lparr>lfile := ClosedFile, faults := fs, disk := Some (tmpContent l),
                                  tmps := tl (tmps l)\<rparr>"
    by (auto simp: renameReplace_def bindA_eq_Inr file_op_defs file_ok tmpContent_def)
  with o show ?thesis
    by (auto simp: renameReopen_def bindA_eq_Inr file_op_defs file_ok content_def split: if_splits)
qed

lemma encode_tmp_ok:
  assumes "encodeLogEntry mar tmpWrite e l = (Inr u, l')" and "tmps l = t # ts"
  shows "encodable mar e \<and> (\<exists>fs. l' = l\<lparr>tmps := (t @ frame mar e) # ts, faults := fs\<rparr>)"
  using assms
  by (auto simp: encodeLogEntry_def bindA_eq_Inr tmpWrite_ok tmpContent_def frame_def encodable_def
           split: option.splits)

lemma compactLoop_ok:
  assumes "compactLoop mar k n l = (Inr u, l')" and "tmps l = t # ts"
    and "length (entries l) = k + n"
  shows "\<exists>es' fs. map strip es' = map strip (drop k (entries l)) \<and> laid_out mar (length t) es' \<and>
     l' = l\<lparr>entries := take k (entries l) @ es', tmps := (t @ frames mar es') # ts, faults := fs\<rparr>"
  using assms
proof (induction n arbitrary: k l t)
  case 0
  then show ?case by (auto intro!: exI[of _ "faults l"])
next
  case (Suc n)
  let ?e = "(entries l ! k)\<lparr>Offset := int (length t)\<rparr>"
  let ?l1 = "l\<lparr>faults := tl (faults l), entries := (entries l)[k := ?e]\<rparr>"
  have k: "k < length (entries l)" using Suc.prems by simp
  from Suc.prems k obtain l2 where
    enc: "encodeLogEntry mar tmpWrite ?e ?l1 = (Inr (), l2)"
    and rest: "compactLoop mar (Suc k) n l2 = (Inr u, l')"
    by (auto simp: bindA_eq_Inr tmpSeekCurrent_def file_ok tmpContent_def)
  from encode_tmp_ok[OF enc, of t ts] Suc.prems obtain fs where ec: "encodable mar ?e"
    and l2: "l2 = ?l1\<lparr>tmps := (t @ frame mar ?e) # ts, faults := fs\<rparr>"
    by auto
  from Suc.IH[OF rest, of "t @ frame mar ?e"] l2 Suc.prems obtain es' fs' where
    es': "map strip es' = map strip (drop (Suc k) (entries l))"
      "laid_out mar (length (t @ frame mar ?e)) es'"
    and l': "l' = l2\<lparr>entries := take (Suc k) (entries l2) @ es',
                    tmps := ((t @ frame mar ?e) @ frames mar es') # ts, faults := fs'\<rparr>"
    by auto
  have tk: "take (Suc k) ((entries l)[k := ?e]) = take k (entries l) @ [?e]"
    using k by (simp add: take_Suc_conv_app_nth)
  have dk: "drop k (entries l) = entries l ! k # drop (Suc k) (entries l)"
    using k by (rule Cons_nth_drop_Suc[symmetric])
  show ?case
    using es' ec l' l2 tk by (intro exI[of _ "?e # es'"] exI[of _ fs']) (auto simp: dk)
qed

section \<open>Every operation keeps the invariant\<close>

lemma wf_logD:
  assumes "wf_log mar l"
  shows "wf_entries (entries l)" "entries l \<noteq> []" "laid_out mar 0 (entries l)"
    "disk l = Some (frames mar (entries l))" "lfile l = OpenFile (length (frames mar (entries l)))"
  using assms by (auto simp: wf_log_def wf_entries_def)

lemma view_nonempty: "wf_log mar l \<Longrightarrow> view l \<noteq> []"
  by (auto simp: view_def dest: wf_logD)

lemma hd_view: "wf_log mar l \<Longrightarrow> Index (hd (view l)) = Index (hd (entries l))"
  by (auto simp: view_def hd_map dest: wf_logD)

lemma last_view: "wf_log mar l \<Longrightarrow> last (view l) = strip (last (entries l))"
  by (auto simp: view_def last_map dest: wf_logD)

lemma Contains_eq:
  assumes "wf_log mar l"
  shows "Contains i l = Inr (Index (hd (view l)) < i \<and> i \<le> Index (last (view l)))"
proof -
  obtain e0 es where e: "entries l = e0 # es" using wf_logD(2)[OF assms] by (cases "entries l") auto
  show ?thesis
    using position_iff[OF wf_logD(1)[OF assms], of i]
    by (simp add: Contains_def e Let_def hd_view[OF assms] last_view[OF assms])
qed

lemma append_ok:
  assumes "wf_log mar l" "Log_AppendEntries mar es l = (Inr u, l')"
    and "contiguous (Index (last (view l)) + 1) es"
    and "unat (Index (last (view l))) + length es + 1 < 2 ^ 64"
  shows "wf_log mar l'" "view l' = view l @ map strip es" "tmps l' = tmps l"
proof -
  note wf = wf_logD[OF assms(1)]
  from assms(2) wf(5) obtain es' l1 where
    w: "writeEntries mar es l = (Inr es', l1)"
    and l': "l' = (l1\<lparr>faults := tl (faults l1)\<rparr>)\<lparr>entries := entries l1 @ es'\<rparr>"
    by (auto simp: Log_AppendEntries_def bindA_eq_Inr fileSync_def file_ok)
  from writeEntries_ok[OF w wf(4)] wf(5) obtain fs where
    es': "map strip es' = map strip es" "laid_out mar (length (frames mar (entries l))) es'"
    and l1: "l1 = l\<lparr>disk := Some (frames mar (entries l) @ frames mar es'),
       lfile := OpenFile (length (frames mar (entries l) @ frames mar es')), faults := fs\<rparr>"
    by auto
  have "contiguous (Index (last (view l)) + 1) es'"
    using assms(3) es'(1) by (metis contiguous_map_strip)
  moreover have "length es' = length es" using es'(1) by (rule map_eq_imp_length_eq)
  ultimately have "wf_entries (entries l @ es')"
    using assms(4) last_view[OF assms(1)] by (intro wf_entries_append[OF wf(1)]) auto
  then show "wf_log mar l'" using wf(3) es'(2) l' l1 by (simp add: wf_log_def laid_out_append)
  show "view l' = view l @ map strip es" using es'(1) l' l1 by (simp add: view_def)
  show "tmps l' = tmps l" using l' l1 by simp
qed

lemma truncate_ok:
  assumes "wf_log mar l" "Truncate i l = (Inr u, l')"
  shows "wf_log mar l'" "view l' = take (unat (i - Index (hd (view l)))) (view l)"
    "Index (hd (view l)) < i" "i \<le> Index (last (view l))" "tmps l' = tmps l"
proof -
  note wf = wf_logD[OF assms(1)]
  let ?k = "logIndexOf i l"
  have kv: "?k = unat (i - Index (hd (view l)))" by (simp add: logIndexOf_def hd_view[OF assms(1)])
  from assms(2) have c: "Contains i l = Inr True"
    by (auto simp: Truncate_def bindA_eq_Inr checkIndex_ok)
  with Contains_eq[OF assms(1)] show r: "Index (hd (view l)) < i" "i \<le> Index (last (view l))" by auto
  have k: "?k < length (entries l)"
    using position_of(1)[OF wf(1), of i] r by (simp add: logIndexOf_def hd_view[OF assms(1)] last_view[OF assms(1)])
  have "0 < unat (i - Index (hd (view l)))"
    using r(1) by (simp add: unat_gt_0)
  then have k0: "0 < ?k" by (simp add: kv)
  have off: "Offset (entries l ! ?k) = int (length (frames mar (take ?k (entries l))))"
    using laid_out_nth[OF wf(3) k] by simp
  have tf: "take (length (frames mar (take n es))) (frames mar es) = frames mar (take n es)" for n es
    by (metis append_eq_conv_conj append_take_drop_id frames_simps(3))
  have le: "length (frames mar (take n es)) \<le> length (frames mar es)" for n es
    by (metis append_take_drop_id frames_simps(3) length_append le_add1)
  from assms(2) wf(4,5) off obtain fs where
    l': "l' = l\<lparr>disk := Some (frames mar (take ?k (entries l))), faults := fs,
       lfile := OpenFile (length (frames mar (take ?k (entries l)))),
       entries := take ?k (entries l)\<rparr>"
    by (auto simp: Truncate_def bindA_eq_Inr checkIndex_ok file_op_defs file_ok Let_def tf le split: if_splits)
  then show "wf_log mar l'"
    using wf(3) wf_entries_take[OF wf(1) k0] by (simp add: wf_log_def laid_out_take)
  show "view l' = take (unat (i - Index (hd (view l)))) (view l)"
    unfolding kv[symmetric] using l' by (simp add: view_def take_map)
  show "tmps l' = tmps l" using l' by simp
qed

lemma compact_ok:
  assumes "wf_log mar l" "Compact mar i l = (Inr u, l')"
  shows "wf_log mar l'" "view l' = drop (unat (i - Index (hd (view l)))) (view l)"
    "Index (hd (view l)) < i" "i \<le> Index (last (view l))" "tmps l' = tmps l"
proof -
  note wf = wf_logD[OF assms(1)]
  let ?k = "logIndexOf i l"
  have kv: "?k = unat (i - Index (hd (view l)))" by (simp add: logIndexOf_def hd_view[OF assms(1)])
  from assms(2) have c: "Contains i l = Inr True"
    by (auto simp: Compact_def bindA_eq_Inr checkIndex_ok)
  with Contains_eq[OF assms(1)] show r: "Index (hd (view l)) < i" "i \<le> Index (last (view l))" by auto
  have k: "?k < length (entries l)"
    using position_of(1)[OF wf(1), of i] r by (simp add: logIndexOf_def hd_view[OF assms(1)] last_view[OF assms(1)])
  let ?l1 = "l\<lparr>faults := tl (faults l), tmps := [] # tmps l\<rparr>"
  from assms(2) obtain l2 l3 where
    loop: "compactLoop mar ?k (length (entries l) - ?k) ?l1 = (Inr (), l2)"
    and ren: "rename l2 = (Inr (), l3)" and l': "l' = l3\<lparr>entries := drop ?k (entries l3)\<rparr>"
    by (auto simp: Compact_def bindA_eq_Inr checkIndex_ok createTemp_def file_ok)
  from compactLoop_ok[OF loop, of "[]" "tmps l"] k obtain es' fs where
    es': "map strip es' = map strip (drop ?k (entries l))" "laid_out mar 0 es'"
    and l2: "l2 = ?l1\<lparr>entries := take ?k (entries l) @ es', tmps := frames mar es' # tmps l, faults := fs\<rparr>"
    by auto
  from rename_ok[OF ren] l2 l' k obtain fs' where
    L: "l' = l\<lparr>disk := Some (frames mar es'), faults := fs',
               lfile := OpenFile (length (frames mar es')), entries := es'\<rparr>"
    by (auto simp: tmpContent_def)
  have "wf_entries es'"
    using wf_entries_drop[OF wf(1) k] es'(1) by (metis wf_entries_map_strip)
  then show "wf_log mar l'" using es'(2) L by (simp add: wf_log_def)
  show "view l' = drop (unat (i - Index (hd (view l)))) (view l)"
    unfolding kv[symmetric] using es'(1) L by (simp add: view_def drop_map)
  show "tmps l' = tmps l" using L by simp
qed

definition placeholder :: "u64 \<Rightarrow> u64 \<Rightarrow> LogEntry" where
  "placeholder i t = emptyEntry\<lparr>Index := i, Term := t\<rparr>"

lemma placeholder_simps [simp]:
  "Index (placeholder i t) = i" "Term (placeholder i t) = t" "Offset (placeholder i t) = 0"
  "strip (placeholder i t) = placeholder i t"
  by (simp_all add: placeholder_def emptyEntry_def strip_def)

lemma wf_entries_single: "wf_entries [e] \<longleftrightarrow> unat (Index e) + 1 < 2 ^ 64"
  by (simp add: wf_entries_def)

lemma discard_ok:
  assumes "DiscardEntries mar i t l = (Inr u, l')" and "unat i + 1 < 2 ^ 64"
  shows "wf_log mar l'" "view l' = [placeholder i t]" "tmps l' = tmps l"
proof -
  from assms(1) obtain l2 l3 where
    enc: "encodeLogEntry mar tmpWrite (placeholder i t) (l\<lparr>faults := tl (faults l), tmps := [] # tmps l\<rparr>) = (Inr (), l2)"
    and ren: "rename l2 = (Inr (), l3)" and l': "l' = l3\<lparr>entries := [placeholder i t]\<rparr>"
    by (auto simp: DiscardEntries_def bindA_eq_Inr createTemp_def file_ok Let_def placeholder_def split: if_splits)
  from encode_tmp_ok[OF enc, of "[]" "tmps l"] obtain fs where "encodable mar (placeholder i t)"
    and "l2 = l\<lparr>faults := tl (faults l), tmps := frame mar (placeholder i t) # tmps l, faults := fs\<rparr>"
    by auto
  moreover from rename_ok[OF ren] obtain fs' where
    "l3 = l2\<lparr>disk := Some (tmpContent l2), tmps := tl (tmps l2), faults := fs',
              lfile := OpenFile (length (tmpContent l2))\<rparr>" by auto
  ultimately show "wf_log mar l'" "view l' = [placeholder i t]" "tmps l' = tmps l"
    using l' assms(2) by (simp_all add: wf_log_def tmpContent_def wf_entries_single view_def)
qed

text \<open>Opening a log file that holds the frames of a list of entries brings the list back.\<close>

lemma open_replay_ok:
  assumes "proto_codec mar unmar" "es \<noteq> []" "laid_out mar 0 es" "disk l = Some (frames mar es)"
    and "bindA Log_Open (\<lambda>_. Replay mar unmar) l = (Inr u, l')"
  shows "entries l' = es" "disk l' = disk l" "lfile l' = OpenFile (length (frames mar es))" "tmps l' = tmps l"
  using assms(2-)
  by (auto simp: bindA_eq_Inr Log_Open_def Replay_def file_op_defs file_ok whenA_eq_Inr content_def
                 replayLoop_frames[OF assms(1,3)])

lemma open_replay_empty_ok:
  assumes "content l = []"
    and "bindA Log_Open (\<lambda>_. Replay mar unmar) l = (Inr u, l')"
  shows "wf_log mar l'" "entries l' = [emptyEntry]"
proof -
  have r: "replayLoop unmar [] [] = (Inr (), [])" by (subst replayLoop.simps) (simp add: decode_empty)
  obtain l1 l2 where enc: "encodeLogEntry mar fileWrite emptyEntry l1 = (Inr (), l2)"
    and "disk l1 = Some []" "lfile l1 = OpenFile 0"
    and l': "l' = l2\<lparr>faults := tl (faults l2), entries := [emptyEntry]\<rparr>"
    using assms by (auto simp: bindA_eq_Inr Log_Open_def Replay_def file_op_defs file_ok content_def r)
  with encode_file_ok[OF enc, of "[]"] show "wf_log mar l'" "entries l' = [emptyEntry]"
    by (auto simp: wf_log_def wf_entries_single emptyEntry_def)
qed

section \<open>Lookup by index\<close>

definition lookup :: "LogEntry list \<Rightarrow> u64 \<Rightarrow> LogEntry option" where
  "lookup es i =
     (if Index (hd es) < i \<and> i \<le> Index (last es) then Some (es ! unat (i - Index (hd es))) else None)"

lemma lookup_Some_iff:
  assumes "wf_entries es"
  shows "lookup es i = Some e \<longleftrightarrow> (\<exists>k. 0 < k \<and> k < length es \<and> es ! k = e \<and> i = Index (hd es) + of_nat k)"
proof
  assume l: "lookup es i = Some e"
  then have r: "Index (hd es) < i" "i \<le> Index (last es)" and e: "e = es ! unat (i - Index (hd es))"
    by (auto simp: lookup_def split: if_splits)
  have "unat (i - Index (hd es)) < length es"
    using r by (intro position_of(1)[OF assms]) auto
  moreover have "0 < unat (i - Index (hd es))" using r(1) by (simp add: unat_gt_0)
  ultimately show "\<exists>k. 0 < k \<and> k < length es \<and> es ! k = e \<and> i = Index (hd es) + of_nat k"
    using e by (intro exI[of _ "unat (i - Index (hd es))"]) simp
next
  assume "\<exists>k. 0 < k \<and> k < length es \<and> es ! k = e \<and> i = Index (hd es) + of_nat k"
  then obtain k where k: "0 < k" "k < length es" "es ! k = e" "i = Index (hd es) + of_nat k" by auto
  have b: "unat (Index (hd es)) + k < 2 ^ 64" using assms k(2) by (simp add: wf_entries_def)
  have ui: "unat i = unat (Index (hd es)) + k" unfolding k(4) by (rule unat_add_of_nat[OF b])
  have "Index (hd es) < i" using ui k(1) by (simp add: word_less_nat_alt)
  moreover have "i \<le> Index (last es)"
    using ui k(2) wf_entries_last(2)[OF assms] by (simp add: word_le_nat_alt)
  moreover have "unat (i - Index (hd es)) = k"
    using unat_diff_le[of "Index (hd es)" i] ui by (simp add: word_le_nat_alt)
  ultimately show "lookup es i = Some e" using k(3) by (simp add: lookup_def)
qed

lemma lookup_Index: "wf_entries es \<Longrightarrow> lookup es i = Some e \<Longrightarrow> Index e = i"
  by (auto simp: lookup_Some_iff wf_entries_nth)

lemma lookup_None_iff: "lookup es i = None \<longleftrightarrow> \<not> (Index (hd es) < i \<and> i \<le> Index (last es))"
  by (simp add: lookup_def)

lemma lookup_append:
  assumes "wf_entries es" "wf_entries (es @ xs)"
  shows "lookup (es @ xs) i =
    (if i \<le> Index (last es) then lookup es i
     else if i \<le> Index (last (es @ xs)) then Some (xs ! unat (i - Index (last es) - 1)) else None)"
proof -
  have ne: "es \<noteq> []" using assms(1) by (simp add: wf_entries_def)
  have lst: "unat (Index (last es)) = unat (Index (hd es)) + length es - 1" by (rule wf_entries_last[OF assms(1)])
  have hl: "Index (hd es) \<le> Index (last es)" by (rule wf_entries_hd_le[OF assms(1)])
  have ll: "Index (last es) \<le> Index (last (es @ xs))"
    using lst wf_entries_last(2)[OF assms(2)] ne by (auto simp: word_le_nat_alt)
  show ?thesis
  proof (cases "i \<le> Index (last es)")
    case True
    show ?thesis
    proof (cases "Index (hd es) < i")
      case lo: True
      then have "unat (i - Index (hd es)) < length es" using True by (intro position_of(1)[OF assms(1)]) auto
      with True lo ll ne show ?thesis by (auto simp: lookup_def nth_append)
    qed (use True ne in \<open>auto simp: lookup_def\<close>)
  next
    case False
    then have gt: "Index (last es) < i" by simp
    have "unat (i - Index (hd es)) = unat i - unat (Index (hd es))"
      using gt hl by (intro unat_diff_le) simp
    moreover have "unat (i - Index (last es) - 1) = unat i - unat (Index (last es)) - 1"
    proof -
      have "(1 :: u64) \<le> i - Index (last es)"
        using gt by (simp add: word_le_nat_alt unat_diff_le unat_gt_0 word_less_nat_alt Suc_le_eq)
      then show ?thesis using gt by (simp add: unat_diff_le)
    qed
    ultimately have "(es @ xs) ! unat (i - Index (hd es)) = xs ! unat (i - Index (last es) - 1)"
      using gt lst ne by (auto simp: nth_append word_less_nat_alt intro!: arg_cong[of _ _ "nth xs"])
    with False gt hl ne show ?thesis by (auto simp: lookup_def)
  qed
qed

lemma lookup_take:
  assumes "wf_entries es" "Index (hd es) < i" "i \<le> Index (last es)"
  shows "lookup (take (unat (i - Index (hd es))) es) j = (if j < i then lookup es j else None)"
proof -
  let ?n = "unat (i - Index (hd es))"
  have "Index (hd es) \<le> i" using assms(2) by simp
  then have n: "0 < ?n" "?n < length es" "unat (Index (hd es)) + ?n = unat i"
    using assms position_of(1)[OF assms(1), of i] unat_diff_le[of "Index (hd es)" i]
    by (auto simp: word_less_nat_alt word_le_nat_alt)
  have wt: "wf_entries (take ?n es)" using assms(1) n(1) by (rule wf_entries_take)
  have h: "hd (take ?n es) = hd es" using n by (simp add: hd_take)
  have key: "Index (hd es) + of_nat k < i \<longleftrightarrow> k < ?n" if "k < length es" for k
  proof -
    have "unat (Index (hd es) + of_nat k) = unat (Index (hd es)) + k"
      using assms(1) that by (intro unat_add_of_nat) (simp add: wf_entries_def)
    with n(3) show ?thesis by (auto simp: word_less_nat_alt)
  qed
  have "lookup (take ?n es) j = Some e \<longleftrightarrow> j < i \<and> lookup es j = Some e" for e
    unfolding lookup_Some_iff[OF wt] lookup_Some_iff[OF assms(1)] h
    using key n(2) by auto
  then show ?thesis by (metis not_None_eq)
qed

lemma lookup_drop:
  assumes "wf_entries es" "Index (hd es) < i" "i \<le> Index (last es)"
  shows "lookup (drop (unat (i - Index (hd es))) es) j = (if i < j then lookup es j else None)"
proof -
  let ?n = "unat (i - Index (hd es))"
  have n: "?n < length es" using assms by (intro position_of(1)) auto
  have hi: "Index (hd (drop ?n es)) = i"
    using n position_of(2)[OF assms(1), of i] assms by (simp add: hd_drop_conv_nth)
  have la: "last (drop ?n es) = last es" using n by (simp add: last_drop)
  show ?thesis
  proof (cases "i < j \<and> j \<le> Index (last es)")
    case True
    then have "unat (j - Index (hd es)) = ?n + unat (j - i)"
      using assms by (simp add: unat_diff_le word_less_nat_alt word_le_nat_alt)
    moreover have "Index (hd es) < j" using assms True by (simp add: word_less_nat_alt)
    ultimately show ?thesis using True n by (simp add: lookup_def hi la add.commute)
  qed (auto simp: lookup_def hi la)
qed

end
