(* ===== verification/LogIface.thy ===== *)
theory LogIface
  imports LogSpec
begin

text \<open>
  The interface \<^verbatim>\<open>Log\<close> of log.go as a locale: a client sees the stored entries through
  \<open>ents\<close> (placeholder first, offsets forgotten), every operation is described by what it does
  to that list, and the lemmas a client uses (what \<^verbatim>\<open>GetEntry\<close> returns after an append, a
  truncation, a compaction) are proved once. The interpretation on \<^verbatim>\<open>persistentLog\<close>
  discharges the laws; its facts are the \<open>plog\<close> lemmas.
\<close>

locale log_store =
  fixes inv :: "'l \<Rightarrow> bool"
    and ents :: "'l \<Rightarrow> LogEntry list"
    and getEntry :: "u64 \<Rightarrow> 'l \<Rightarrow> exn + LogEntry"
    and contains :: "u64 \<Rightarrow> 'l \<Rightarrow> exn + bool"
    and lastIndex :: "'l \<Rightarrow> exn + u64"
    and lastTerm :: "'l \<Rightarrow> exn + u64"
    and nextIndex :: "'l \<Rightarrow> exn + u64"
    and append :: "LogEntry list \<Rightarrow> ('l, unit) action"
    and truncate :: "u64 \<Rightarrow> ('l, unit) action"
    and compact :: "u64 \<Rightarrow> ('l, unit) action"
    and discard :: "u64 \<Rightarrow> u64 \<Rightarrow> ('l, unit) action"
  assumes inv_wf: "inv l \<Longrightarrow> wf_entries (ents l)"
    and get_law: "inv l \<Longrightarrow> getEntry i l = Inr e \<Longrightarrow> lookup (ents l) i = Some (strip e)"
    and get_total: "inv l \<Longrightarrow> lookup (ents l) i = Some e' \<Longrightarrow> \<exists>e. getEntry i l = Inr e"
    and get_missing: "inv l \<Longrightarrow> lookup (ents l) i = None \<Longrightarrow> \<exists>x. getEntry i l = Inl (Error x)"
    and contains_law: "inv l \<Longrightarrow> contains i l = Inr (lookup (ents l) i \<noteq> None)"
    and last_laws: "inv l \<Longrightarrow> lastIndex l = Inr (Index (last (ents l)))"
      "inv l \<Longrightarrow> lastTerm l = Inr (Term (last (ents l)))"
      "inv l \<Longrightarrow> nextIndex l = Inr (Index (last (ents l)) + 1)"
    and append_law: "inv l \<Longrightarrow> contiguous (Index (last (ents l)) + 1) es \<Longrightarrow>
        unat (Index (last (ents l))) + length es + 1 < 2 ^ 64 \<Longrightarrow>
        append es l = (Inr u, l') \<Longrightarrow> inv l' \<and> ents l' = ents l @ map strip es"
    and truncate_law: "inv l \<Longrightarrow> truncate i l = (Inr u, l') \<Longrightarrow>
        inv l' \<and> lookup (ents l) i \<noteq> None \<and> ents l' = take (unat (i - Index (hd (ents l)))) (ents l)"
    and compact_law: "inv l \<Longrightarrow> compact i l = (Inr u, l') \<Longrightarrow>
        inv l' \<and> lookup (ents l) i \<noteq> None \<and> ents l' = drop (unat (i - Index (hd (ents l)))) (ents l)"
    and discard_law: "unat i + 1 < 2 ^ 64 \<Longrightarrow> discard i t l = (Inr u, l') \<Longrightarrow>
        inv l' \<and> ents l' = [placeholder i t]"
begin

lemma get_iff: "inv l \<Longrightarrow> (\<exists>e. getEntry i l = Inr e \<and> strip e = e') \<longleftrightarrow> lookup (ents l) i = Some e'"
  using get_law get_total by fastforce

lemma get_term:
  assumes "inv l" "getEntry i l = Inr e"
  shows "Index e = i" "lookup (ents l) i = Some (strip e)" "Index (hd (ents l)) < i" "i \<le> Index (last (ents l))"
proof -
  show l: "lookup (ents l) i = Some (strip e)" by (rule get_law[OF assms])
  show "Index e = i" using lookup_Index[OF inv_wf[OF assms(1)] l] by simp
  show "Index (hd (ents l)) < i" "i \<le> Index (last (ents l))"
    using l by (auto simp: lookup_def split: if_splits)
qed

text \<open>An append leaves the old entries alone and makes the new ones readable.\<close>

lemma append_lookup:
  assumes "inv l" "contiguous (Index (last (ents l)) + 1) es"
    "unat (Index (last (ents l))) + length es + 1 < 2 ^ 64" "append es l = (Inr u, l')"
  shows "lookup (ents l') i =
    (if i \<le> Index (last (ents l)) then lookup (ents l) i
     else if i \<le> Index (last (ents l')) then Some (strip (es ! unat (i - Index (last (ents l)) - 1)))
     else None)"
proof -
  have l': "inv l'" "ents l' = ents l @ map strip es" using append_law[OF assms] by auto
  have wf: "wf_entries (ents l)" "wf_entries (ents l @ map strip es)"
    using inv_wf[OF assms(1)] inv_wf[OF l'(1)] l'(2) by auto
  have "unat (i - Index (last (ents l)) - 1) < length es"
    if "\<not> i \<le> Index (last (ents l))" "i \<le> Index (last (ents l'))"
  proof -
    have "unat (Index (last (ents l'))) = unat (Index (last (ents l))) + length es"
      using wf_entries_last(2)[OF wf(2)] wf_entries_last(2)[OF wf(1)] wf(1)
      by (cases "ents l") (auto simp: l'(2) wf_entries_def)
    then show ?thesis
      using that unat_diff_le[of "Index (last (ents l))" i] unat_diff_le[of 1 "i - Index (last (ents l))"]
      by (cases "i - Index (last (ents l)) = 0")
         (auto simp: word_le_nat_alt word_less_nat_alt unat_eq_zero unat_gt_0 Suc_le_eq)
  qed
  then show ?thesis
    unfolding l'(2) using lookup_append[OF wf, of i] by (auto simp: l'(2))
qed

lemma truncate_lookup:
  assumes "inv l" "truncate i l = (Inr u, l')"
  shows "lookup (ents l') j = (if j < i then lookup (ents l) j else None)"
    "Index (last (ents l')) = i - 1" "hd (ents l') = hd (ents l)"
proof -
  have l': "inv l'" "ents l' = take (unat (i - Index (hd (ents l)))) (ents l)"
    and r: "Index (hd (ents l)) < i" "i \<le> Index (last (ents l))"
    using truncate_law[OF assms] by (auto simp: lookup_None_iff)
  note wf = inv_wf[OF assms(1)]
  show "lookup (ents l') j = (if j < i then lookup (ents l) j else None)"
    unfolding l'(2) by (rule lookup_take[OF wf r])
  have n: "0 < unat (i - Index (hd (ents l)))" "unat (i - Index (hd (ents l))) < length (ents l)"
    using r position_of(1)[OF wf, of i] by (auto simp: unat_gt_0)
  show h: "hd (ents l') = hd (ents l)" using n by (simp add: l'(2) hd_take)
  have "Index (last (ents l')) + 1 = Index (hd (ents l)) + of_nat (length (ents l'))"
    using wf_entries_next(1)[OF inv_wf[OF l'(1)]] by (simp add: h)
  moreover have "length (ents l') = unat (i - Index (hd (ents l)))" using n by (simp add: l'(2))
  ultimately show "Index (last (ents l')) = i - 1"
    by (simp add: algebra_simps)
qed

lemma compact_lookup:
  assumes "inv l" "compact i l = (Inr u, l')"
  shows "lookup (ents l') j = (if i < j then lookup (ents l) j else None)"
    "Index (hd (ents l')) = i" "lookup (ents l) i = Some (hd (ents l'))" "last (ents l') = last (ents l)"
proof -
  have l': "inv l'" "ents l' = drop (unat (i - Index (hd (ents l)))) (ents l)"
    and r: "Index (hd (ents l)) < i" "i \<le> Index (last (ents l))"
    using compact_law[OF assms] by (auto simp: lookup_None_iff)
  note wf = inv_wf[OF assms(1)]
  show "lookup (ents l') j = (if i < j then lookup (ents l) j else None)"
    unfolding l'(2) by (rule lookup_drop[OF wf r])
  have n: "unat (i - Index (hd (ents l))) < length (ents l)" "Index (ents l ! unat (i - Index (hd (ents l)))) = i"
    using r position_of[OF wf, of i] by auto
  show "Index (hd (ents l')) = i" "lookup (ents l) i = Some (hd (ents l'))" "last (ents l') = last (ents l)"
    using n r by (simp_all add: l'(2) hd_drop_conv_nth lookup_def last_drop)
qed

text \<open>Truncating at a conflict and appending: the follower's log after a conflicting request.\<close>

lemma replace_suffix:
  assumes "inv l" "truncate i l = (Inr u, l1)" "append es l1 = (Inr u', l')"
    and "contiguous i es" "unat i + length es < 2 ^ 64"
  shows "inv l'" "j < i \<Longrightarrow> lookup (ents l') j = lookup (ents l) j"
    "ents l' = take (unat (i - Index (hd (ents l)))) (ents l) @ map strip es"
proof -
  have l1: "inv l1" "ents l1 = take (unat (i - Index (hd (ents l)))) (ents l)"
    using truncate_law[OF assms(1,2)] by auto
  have la: "Index (last (ents l1)) = i - 1" by (rule truncate_lookup(2)[OF assms(1,2)])
  have "0 < i" using truncate_law[OF assms(1,2)] by (auto simp: lookup_None_iff word_gt_0)
  then have ui: "unat (i - 1) + 1 = unat i" by (simp add: unat_diff_le word_less_nat_alt unat_gt_0 Suc_le_eq word_le_nat_alt)
  have ap: "inv l' \<and> ents l' = ents l1 @ map strip es"
    using assms(3,4,5) ui by (intro append_law[OF l1(1)]) (auto simp: la)
  then show "inv l'" "ents l' = take (unat (i - Index (hd (ents l)))) (ents l) @ map strip es"
    using l1(2) by auto
  assume j: "j < i"
  then have "j \<le> i - 1" using ui by (simp add: word_less_nat_alt word_le_nat_alt)
  then have "lookup (ents l') j = lookup (ents l1) j"
    using assms(3,4,5) ui by (subst append_lookup[OF l1(1), of es _ l']) (auto simp: la)
  then show "lookup (ents l') j = lookup (ents l) j"
    using truncate_lookup(1)[OF assms(1,2), of j] j by simp
qed

end

lemma GetEntry_eq:
  assumes "wf_log mar l"
  shows "GetEntry i l =
    (if lookup (view l) i = None then Inl (Error (ErrNew ''could not get entry: index does not exist''))
     else Inr (entries l ! logIndexOf i l))"
  using wf_logD(5)[OF assms] by (auto simp: GetEntry_def Contains_eq[OF assms] lookup_None_iff)

lemma lookup_view:
  assumes "wf_log mar l" "lookup (view l) i = Some e"
  shows "strip (entries l ! logIndexOf i l) = e"
proof -
  have "logIndexOf i l < length (entries l)"
    using assms(2) position_of(1)[OF wf_logD(1)[OF assms(1)], of i]
    by (auto simp: lookup_def logIndexOf_def hd_view[OF assms(1)] last_view[OF assms(1)] split: if_splits)
  then have "view l ! logIndexOf i l = strip (entries l ! logIndexOf i l)" by (simp add: view_def)
  with assms(2) show ?thesis
    by (auto simp: lookup_def logIndexOf_def hd_view[OF assms(1)] split: if_splits)
qed

lemma last_ops:
  assumes "wf_log mar l"
  shows "LastIndex l = Inr (Index (last (view l)))" "LastTerm l = Inr (Term (last (view l)))"
    "NextIndex l = Inr (Index (last (view l)) + 1)"
  using wf_logD(2)[OF assms]
  by (simp_all add: LastIndex_def LastTerm_def NextIndex_def lastEntry_def last_view[OF assms])

interpretation plog: log_store "wf_log mar" view GetEntry Contains LastIndex LastTerm NextIndex
  "Log_AppendEntries mar" Truncate "Compact mar" "DiscardEntries mar" for mar
proof unfold_locales
  fix l i e
  assume wf: "wf_log mar l" and g: "GetEntry i l = Inr e"
  then obtain e' where "lookup (view l) i = Some e'" and "e = entries l ! logIndexOf i l"
    by (auto simp: GetEntry_eq[OF wf] split: if_splits)
  with lookup_view[OF wf] show "lookup (view l) i = Some (strip e)" by auto
qed (auto simp: GetEntry_eq Contains_eq last_ops lookup_None_iff view_def wf_logD
          intro: append_ok[unfolded view_def] truncate_ok[unfolded view_def] compact_ok[unfolded view_def] discard_ok[unfolded view_def])

end
