(* ===== verification/StateStore.thy ===== *)
theory StateStore
  imports Framing Protobuf
begin

text \<open>
  state_storage.go: \<^verbatim>\<open>persistentStateStorage\<close> keeps the term and the vote in \<^verbatim>\<open>state.bin\<close>,
  replaced as a whole by renaming a temporary file. The record holds the cached state, the
  contents of \<^verbatim>\<open>state.bin\<close>, the temporary files of the directory and the outcomes of the system
  calls to come. \<open>state_store\<close> is the contract of the interface \<^verbatim>\<open>StateStorage\<close>.
\<close>

record persistentState =
  ps_term :: u64
  ps_votedFor :: string

record persistentStateStorage =
  st_state :: "persistentState option"
  st_disk :: "bytes option"
  st_tmps :: "bytes list"
  st_faults :: "io list"

type_synonym 'a stateA = "(persistentStateStorage, 'a) action"
type_synonym state_marshal = "pb_StorageState marshal"
type_synonym state_unmarshal = "pb_StorageState unmarshal"

definition encodePersistentState :: "state_marshal \<Rightarrow> (bytes \<Rightarrow> ('s, unit) action) \<Rightarrow> persistentState \<Rightarrow> ('s, unit) action" where
  "encodePersistentState mar w state =
     (case mar \<lparr>pbs_Term = ps_term state, pbs_VotedFor = ps_votedFor state\<rparr> of
        None \<Rightarrow> raiseA (Error (Wrapf ''could not marshal protobuf message'' SysErr))
      | Some buf \<Rightarrow>
          bindA (wrapA ''could not write length of protobuf message''
                  (w (be32 (of_nat (length buf))))) (\<lambda>_.
          wrapA ''could not write protobuf message'' (w buf)))"

definition decodePersistentState :: "state_unmarshal \<Rightarrow> (bytes, persistentState) action" where
  "decodePersistentState unmar =
     bindA (wrapA ''could not read length of protobuf message'' readInt32) (\<lambda>sz.
     bindA (makeBuf sz) (\<lambda>n.
     bindA (wrapA ''could not read protobuf message'' (ReadFull n)) (\<lambda>buf.
     case unmar buf of
       None \<Rightarrow> raiseA (Error (Wrapf ''could not unmarshal protobuf message'' SysErr))
     | Some p \<Rightarrow> returnA \<lparr>ps_term = pbs_Term p, ps_votedFor = pbs_VotedFor p\<rparr>)))"

definition st_syscall :: "unit stateA" where
  "st_syscall = (\<lambda>p. (io_result (next_io (st_faults p)), p\<lparr>st_faults := tl (st_faults p)\<rparr>))"

definition st_tmp :: "persistentStateStorage \<Rightarrow> bytes" where
  "st_tmp p = (case st_tmps p of [] \<Rightarrow> [] | t # _ \<Rightarrow> t)"

definition st_tmpWrite :: "bytes \<Rightarrow> unit stateA" where
  "st_tmpWrite bs = (\<lambda>p.
     (io_result (next_io (st_faults p)),
      p\<lparr>st_tmps := (st_tmp p @ io_stored (next_io (st_faults p)) bs) # tl (st_tmps p),
        st_faults := tl (st_faults p)\<rparr>))"

definition st_removeTmp :: "unit stateA" where
  "st_removeTmp = (\<lambda>p. (Inr (),
     (if next_io (st_faults p) = IoOk then p\<lparr>st_tmps := tl (st_tmps p)\<rparr> else p)\<lparr>st_faults := tl (st_faults p)\<rparr>))"

text \<open>\<^verbatim>\<open>NewStateStorage\<close> on the directory that \<open>p\<close> left on disk.\<close>

definition NewStateStorage :: "unit stateA" where
  "NewStateStorage =
     bindA (wrapA ''could not create state directory'' st_syscall) (\<lambda>_.
     bindA (wrapA ''could not remove temporary files'' st_syscall) (\<lambda>_.
     modifyA (\<lambda>p. p\<lparr>st_tmps := [], st_state := None\<rparr>)))"

text \<open>
  The part of \<^verbatim>\<open>SetState\<close> after the temporary file exists; the deferred function removes the
  file when it fails.
\<close>

definition writeState :: "state_marshal \<Rightarrow> persistentState \<Rightarrow> unit stateA" where
  "writeState mar s =
     bindA (wrapA ''could not encode state'' (encodePersistentState mar st_tmpWrite s)) (\<lambda>_.
     wrapA ''could not rename temporary file''
       (bindA st_syscall (\<lambda>_. modifyA (\<lambda>p. p\<lparr>st_disk := Some (st_tmp p), st_tmps := tl (st_tmps p)\<rparr>))))"

definition SetState :: "state_marshal \<Rightarrow> u64 \<Rightarrow> string \<Rightarrow> unit stateA" where
  "SetState mar trm votedFor =
     bindA (wrapA ''could not create temporary file''
       (bindA st_syscall (\<lambda>_. modifyA (\<lambda>p. p\<lparr>st_tmps := [] # st_tmps p\<rparr>)))) (\<lambda>_.
     let s = \<lparr>ps_term = trm, ps_votedFor = votedFor\<rparr> in
     bindA (modifyA (\<lambda>p. p\<lparr>st_state := Some s\<rparr>)) (\<lambda>_.
     bindA (tryA (writeState mar s)) (\<lambda>res.
     case res of
       Inl e \<Rightarrow> bindA st_removeTmp (\<lambda>_. raiseA (Error e))
     | Inr _ \<Rightarrow> returnA ())))"

text \<open>Reading back the file when nothing is cached; \<open>None\<close>: there is no file.\<close>

definition loadState :: "state_unmarshal \<Rightarrow> persistentState option stateA" where
  "loadState unmar = bindA getA (\<lambda>p.
     case st_disk p of
       None \<Rightarrow> returnA None
     | Some bs \<Rightarrow>
         bindA (wrapA ''could not stat state file'' st_syscall) (\<lambda>_.
         bindA (wrapA ''could not read state file'' st_syscall) (\<lambda>_.
         case fst (decodePersistentState unmar bs) of
           Inr s \<Rightarrow> bindA (modifyA (\<lambda>p. p\<lparr>st_state := Some s\<rparr>)) (\<lambda>_. returnA (Some s))
         | Inl (Error e) \<Rightarrow>
             if e \<noteq> EOF then raiseA (Error (Wrapf ''could not decode state'' e))
             else bindA (modifyA (\<lambda>p. p\<lparr>st_state := Some \<lparr>ps_term = 0, ps_votedFor = ''''\<rparr>\<rparr>)) (\<lambda>_.
                  returnA (Some \<lparr>ps_term = 0, ps_votedFor = ''''\<rparr>))
         | Inl x \<Rightarrow> raiseA x)))"

definition StateOf :: "state_unmarshal \<Rightarrow> (u64 \<times> string) stateA" where
  "StateOf unmar = bindA getA (\<lambda>p.
     case st_state p of
       Some s \<Rightarrow> returnA (ps_term s, ps_votedFor s)
     | None \<Rightarrow>
         bindA (loadState unmar) (\<lambda>res.
         case res of
           None \<Rightarrow> returnA (0, '''')
         | Some s \<Rightarrow> returnA (ps_term s, ps_votedFor s)))"

section \<open>Correctness\<close>

definition state_frame :: "state_marshal \<Rightarrow> u64 \<Rightarrow> string \<Rightarrow> bytes option" where
  "state_frame mar t v = map_option (\<lambda>buf. be32 (of_nat (length buf)) @ buf) (mar \<lparr>pbs_Term = t, pbs_VotedFor = v\<rparr>)"

text \<open>The term and vote that survive a restart: what \<^verbatim>\<open>state.bin\<close> decodes to.\<close>

definition durable :: "state_unmarshal \<Rightarrow> persistentStateStorage \<Rightarrow> u64 \<times> string" where
  "durable unmar p = (case st_disk p of
     None \<Rightarrow> (0, '''')
   | Some bs \<Rightarrow> (case fst (decodePersistentState unmar bs) of
       Inr s \<Rightarrow> (ps_term s, ps_votedFor s) | Inl _ \<Rightarrow> (0, '''')))"

definition file_ok_state :: "state_marshal \<Rightarrow> persistentStateStorage \<Rightarrow> bool" where
  "file_ok_state mar p \<longleftrightarrow> (st_disk p = None \<or> (\<exists>t v. st_disk p = state_frame mar t v \<and> state_frame mar t v \<noteq> None))"

definition wf_state :: "state_marshal \<Rightarrow> state_unmarshal \<Rightarrow> persistentStateStorage \<Rightarrow> bool" where
  "wf_state mar unmar p \<longleftrightarrow> file_ok_state mar p \<and>
     (\<forall>s. st_state p = Some s \<longrightarrow> (ps_term s, ps_votedFor s) = durable unmar p)"

lemma decode_state_frame:
  assumes "proto_codec mar unmar" "state_frame mar t v = Some bs"
  shows "decodePersistentState unmar (bs @ r) = (Inr \<lparr>ps_term = t, ps_votedFor = v\<rparr>, r)"
proof -
  from assms(2) obtain buf where m: "mar \<lparr>pbs_Term = t, pbs_VotedFor = v\<rparr> = Some buf"
    and bs: "bs = be32 (of_nat (length buf)) @ buf" by (auto simp: state_frame_def)
  from proto_codecD[OF assms(1) m] show ?thesis
    by (simp add: decodePersistentState_def bs bindA_def wrapA_def)
qed

lemma durable_frame:
  assumes "proto_codec mar unmar" "st_disk p = state_frame mar t v" "state_frame mar t v \<noteq> None"
  shows "durable unmar p = (t, v)"
proof -
  from assms(3) obtain bs where bs: "state_frame mar t v = Some bs" by auto
  show ?thesis using decode_state_frame[OF assms(1) bs, of "[]"] assms(2) bs
    by (simp add: durable_def)
qed

lemma st_syscall_ok: "st_syscall p = (Inr u, p') \<longleftrightarrow>
  next_io (st_faults p) = IoOk \<and> p' = p\<lparr>st_faults := tl (st_faults p)\<rparr>"
  by (auto simp: st_syscall_def)

lemma st_tmpWrite_ok: "st_tmpWrite bs p = (Inr u, p') \<longleftrightarrow> next_io (st_faults p) = IoOk \<and>
  p' = p\<lparr>st_tmps := (st_tmp p @ bs) # tl (st_tmps p), st_faults := tl (st_faults p)\<rparr>"
  by (auto simp: st_tmpWrite_def)

lemma writeState_ok:
  assumes "writeState mar s p = (Inr u, p')" "st_tmps p = [] # ts"
  shows "\<exists>bs. state_frame mar (ps_term s) (ps_votedFor s) = Some bs \<and> st_disk p' = Some bs \<and>
    st_state p' = st_state p \<and> st_tmps p' = ts"
  using assms
  by (auto simp: writeState_def encodePersistentState_def act_inv st_syscall_ok st_tmpWrite_ok
                 state_frame_def st_tmp_def split: option.splits)

lemma SetState_ok:
  assumes "SetState mar t v p = (Inr u, p')"
  shows "\<exists>bs. state_frame mar t v = Some bs \<and> st_disk p' = Some bs"
    "st_state p' = Some \<lparr>ps_term = t, ps_votedFor = v\<rparr>" "st_tmps p' = st_tmps p"
proof -
  let ?s = "\<lparr>ps_term = t, ps_votedFor = v\<rparr>"
  from assms have "writeState mar ?s (p\<lparr>st_faults := tl (st_faults p), st_tmps := [] # st_tmps p, st_state := Some ?s\<rparr>)
      = (Inr (), p')"
    by (auto simp: SetState_def act_inv tryA_eq_Inr st_syscall_ok Let_def)
  from writeState_ok[OF this, of "st_tmps p"] show "\<exists>bs. state_frame mar t v = Some bs \<and> st_disk p' = Some bs"
    "st_state p' = Some ?s" "st_tmps p' = st_tmps p" by auto
qed

text \<open>A failed \<^verbatim>\<open>SetState\<close> leaves the file as it was, whatever call failed.\<close>

lemma keeps_disk_parts:
  "keepsA st_disk st_syscall" "keepsA st_disk (st_tmpWrite bs)" "keepsA st_disk st_removeTmp"
  by (auto intro!: relAI simp: st_syscall_def st_tmpWrite_def st_removeTmp_def)

lemma encode_keeps_disk: "keepsA st_disk (encodePersistentState mar st_tmpWrite s)"
  by (auto simp: encodePersistentState_def intro!: keeps.intros keeps_disk_parts split: option.split)

lemma writeState_fail:
  assumes "writeState mar s p = (Inl x, p')"
  shows "st_disk p' = st_disk p"
  using assms relAD[OF encode_keeps_disk]
  by (auto simp: writeState_def act_fail st_syscall_def)

lemma SetState_fail:
  assumes "SetState mar t v p = (Inl x, p')"
  shows "st_disk p' = st_disk p"
proof -
  let ?s = "\<lparr>ps_term = t, ps_votedFor = v\<rparr>"
  let ?p = "p\<lparr>st_faults := tl (st_faults p), st_tmps := [] # st_tmps p, st_state := Some ?s\<rparr>"
  obtain r1 p1 where w: "writeState mar ?s ?p = (r1, p1)" by (cases "writeState mar ?s ?p")
  have "st_disk p' = st_disk p \<or> (\<exists>y. r1 = Inl y \<and> st_disk p' = st_disk p1)"
    using assms w relAD[OF keeps_disk_parts(3)]
    by (auto simp: SetState_def act_fail st_syscall_def Let_def)
  then show ?thesis using writeState_fail w by fastforce
qed

text \<open>
  The contract of \<^verbatim>\<open>StateStorage\<close>: \<open>finv\<close> says that the file is intact, \<open>sinv\<close> that the cache
  agrees with it. A failed write keeps \<open>finv\<close> but not \<open>sinv\<close>.
\<close>

locale state_store =
  fixes finv :: "'p \<Rightarrow> bool"
    and sinv :: "'p \<Rightarrow> bool"
    and stored :: "'p \<Rightarrow> u64 \<times> string"
    and set_state :: "u64 \<Rightarrow> string \<Rightarrow> ('p, unit) action"
    and get_state :: "('p, u64 \<times> string) action"
    and reopen :: "('p, unit) action"
  assumes sinv_finv: "sinv p \<Longrightarrow> finv p"
    and set_law: "finv p \<Longrightarrow> set_state t v p = (Inr u, p') \<Longrightarrow> sinv p' \<and> stored p' = (t, v)"
    and set_fail_law: "finv p \<Longrightarrow> set_state t v p = (Inl x, p') \<Longrightarrow> finv p' \<and> stored p' = stored p"
    and get_law: "sinv p \<Longrightarrow> get_state p = (Inr r, p') \<Longrightarrow> r = stored p \<and> sinv p' \<and> stored p' = stored p"
    and reopen_law: "finv p \<Longrightarrow> reopen p = (Inr u, p') \<Longrightarrow> sinv p' \<and> stored p' = stored p"
begin

lemma set_get: "finv p \<Longrightarrow> set_state t v p = (Inr u, p1) \<Longrightarrow> get_state p1 = (Inr r, p2) \<Longrightarrow> r = (t, v)"
  using set_law get_law by metis

text \<open>What was set last is what a restarted node reads.\<close>

lemma set_reopen_get:
  assumes "finv p" "set_state t v p = (Inr u, p1)" "reopen p1 = (Inr u', p2)" "get_state p2 = (Inr r, p3)"
  shows "r = (t, v)"
  using set_law[OF assms(1,2)] reopen_law[OF sinv_finv assms(3)] get_law[OF _ assms(4)] by auto

text \<open>After any sequence of attempts, failed ones included, a restart reads one of the states set.\<close>

lemma attempts_stored:
  "finv p \<Longrightarrow> finv (fold (\<lambda>(t, v) p. snd (set_state t v p)) ws p) \<and>
     stored (fold (\<lambda>(t, v) p. snd (set_state t v p)) ws p) \<in> insert (stored p) (set ws)"
proof (induction ws arbitrary: p)
  case (Cons w ws)
  obtain t v where w: "w = (t, v)" by (cases w)
  obtain r p1 where s: "set_state t v p = (r, p1)" by (cases "set_state t v p")
  have "finv p1 \<and> stored p1 \<in> {stored p, (t, v)}"
    using set_law[OF Cons.prems, of t v] set_fail_law[OF Cons.prems, of t v] s sinv_finv by (cases r) auto
  with Cons.IH[of p1] show ?case by (auto simp: w s)
qed simp

lemma recover:
  assumes "finv p" "reopen (fold (\<lambda>(t, v) p. snd (set_state t v p)) ws p) = (Inr u, p2)"
    and "get_state p2 = (Inr r, p3)"
  shows "r \<in> insert (stored p) (set ws)"
  using attempts_stored[OF assms(1), of ws] reopen_law[OF _ assms(2)] get_law[OF _ assms(3)] by auto

end

lemma StateOf_ok:
  assumes "proto_codec mar unmar" "wf_state mar unmar p" "StateOf unmar p = (Inr r, p')"
  shows "r = durable unmar p \<and> wf_state mar unmar p' \<and> durable unmar p' = durable unmar p"
proof (cases "st_state p")
  case (Some s)
  with assms show ?thesis by (auto simp: StateOf_def wf_state_def)
next
  case None
  show ?thesis
  proof (cases "st_disk p")
    case d: None
    with None assms show ?thesis by (auto simp: StateOf_def loadState_def act_inv durable_def)
  next
    case (Some bs)
    then obtain t v where f: "state_frame mar t v = Some bs"
      using assms(2) by (auto simp: wf_state_def file_ok_state_def)
    from decode_state_frame[OF assms(1) f, of "[]"] None Some assms(3)
    have "r = (t, v)" and p': "st_disk p' = st_disk p" "st_state p' = Some \<lparr>ps_term = t, ps_votedFor = v\<rparr>"
      by (auto simp: StateOf_def loadState_def act_inv st_syscall_ok)
    moreover have "durable unmar p = (t, v)" "durable unmar p' = (t, v)"
      using durable_frame[OF assms(1), of _ t v] Some f p' by auto
    ultimately show ?thesis
      using p' f Some unfolding wf_state_def file_ok_state_def
      by (metis fst_conv option.distinct(1) option.inject persistentState.select_convs(1,2) snd_conv)
  qed
qed

lemma SetState_law:
  assumes "proto_codec mar unmar" "SetState mar t v p = (Inr u, p')"
  shows "wf_state mar unmar p' \<and> durable unmar p' = (t, v)"
proof -
  from SetState_ok[OF assms(2)] obtain bs where f: "state_frame mar t v = Some bs" "st_disk p' = Some bs"
    and st: "st_state p' = Some \<lparr>ps_term = t, ps_votedFor = v\<rparr>" by auto
  have "durable unmar p' = (t, v)" using f by (intro durable_frame[OF assms(1)]) auto
  moreover have "file_ok_state mar p'" using f by (auto simp: file_ok_state_def intro!: exI[of _ t] exI[of _ v])
  ultimately show ?thesis using st by (simp add: wf_state_def)
qed

lemma NewStateStorage_law:
  assumes "file_ok_state mar p" "NewStateStorage p = (Inr u, p')"
  shows "wf_state mar unmar p' \<and> durable unmar p' = durable unmar p"
proof -
  from assms(2) have "st_disk p' = st_disk p" "st_state p' = None"
    by (auto simp: NewStateStorage_def act_inv st_syscall_ok)
  with assms(1) show ?thesis by (simp add: wf_state_def file_ok_state_def durable_def)
qed

interpretation pstate: state_store "\<lambda>p. proto_codec mar unmar \<and> file_ok_state mar p"
  "\<lambda>p. proto_codec mar unmar \<and> wf_state mar unmar p" "durable unmar" "SetState mar" "StateOf unmar"
  NewStateStorage for mar unmar
proof (unfold_locales, goal_cases)
  case (3 p t v x p')
  then show ?case using SetState_fail[of mar t v p x p'] by (simp add: durable_def file_ok_state_def)
next
  case (4 p r p')
  then show ?case using StateOf_ok[of mar unmar p r p'] by blast
next
  case (5 p u p')
  then show ?case using NewStateStorage_law[of mar p u p' unmar] by blast
next
  case (2 p t v u p')
  then show ?case using SetState_law[of mar unmar t v p u p'] by blast
qed (simp add: wf_state_def)

end
