(* ===== verification/FileUtil.thy ===== *)
theory FileUtil
  imports Prelude
begin

text \<open>
  internal/fileutil, internal/numeric: \<^verbatim>\<open>RemoveTmpFiles\<close> over a directory tree, with the traversal of
  \<^verbatim>\<open>filepath.Walk\<close>: the names of a directory are read before the callback runs on it, and every
  name is looked up with \<^verbatim>\<open>lstat\<close> afterwards; a name that has disappeared is reported to the
  callback as an error, which ends the walk. Also \<^verbatim>\<open>Min\<close> and \<^verbatim>\<open>Max\<close>.
\<close>

definition Min :: "'a::linorder \<Rightarrow> 'a \<Rightarrow> 'a" where
  "Min a b = (if a < b then a else b)"

definition Max :: "'a::linorder \<Rightarrow> 'a \<Rightarrow> 'a" where
  "Max a b = (if a > b then a else b)"

lemma Min_min [simp]: "Min a b = min a b"
  by (auto simp: Min_def min_def)

lemma Max_max [simp]: "Max a b = max a b"
  by (auto simp: Max_def max_def)

datatype tree = TFile | TDir "(string \<times> tree) list"

definition hasTmpPrefix :: "string \<Rightarrow> bool" where
  "hasTmpPrefix name \<longleftrightarrow> take 3 name = ''tmp''"

text \<open>One node of the walk: its outcome and what is left of it (\<open>None\<close>: removed).\<close>

fun walkTmp :: "string \<Rightarrow> tree \<Rightarrow> (err + unit) \<times> tree option"
  and walkTmps :: "(string \<times> tree) list \<Rightarrow> (err + unit) \<times> (string \<times> tree) list" where
  "walkTmp name TFile = (if hasTmpPrefix name then (Inr (), None) else (Inr (), Some TFile))"
| "walkTmp name (TDir cs) =
     (if hasTmpPrefix name then (if cs = [] then (Inr (), None) else (Inl ErrNotExist, None))
      else case walkTmps cs of (r, cs') \<Rightarrow> (r, Some (TDir cs')))"
| "walkTmps [] = (Inr (), [])"
| "walkTmps ((name, t) # cs) =
     (case walkTmp name t of
        (r, t') \<Rightarrow>
          let keep = (case t' of None \<Rightarrow> [] | Some u \<Rightarrow> [(name, u)]) in
          (case r of
             Inl e \<Rightarrow> (Inl e, keep @ cs)
           | Inr _ \<Rightarrow> (case walkTmps cs of (r2, cs') \<Rightarrow> (r2, keep @ cs'))))"

text \<open>\<^verbatim>\<open>RemoveTmpFiles(rootDir)\<close> on the children of the root, in name order.\<close>

definition RemoveTmpFiles :: "(string \<times> tree) list \<Rightarrow> (err + unit) \<times> (string \<times> tree) list" where
  "RemoveTmpFiles cs = walkTmps cs"

section \<open>Properties\<close>

text \<open>No temporary directory has entries, at any depth.\<close>

fun tmp_dirs_empty :: "string \<Rightarrow> tree \<Rightarrow> bool" where
  "tmp_dirs_empty name TFile = True"
| "tmp_dirs_empty name (TDir cs) =
     (if hasTmpPrefix name then cs = [] else (\<forall>(n, t) \<in> set cs. tmp_dirs_empty n t))"

text \<open>The tree with every temporary file and directory left out.\<close>

fun prune :: "tree \<Rightarrow> tree" where
  "prune TFile = TFile"
| "prune (TDir cs) = TDir (map (\<lambda>(n, t). (n, prune t)) (filter (\<lambda>(n, t). \<not> hasTmpPrefix n) cs))"

lemma walk_prunes:
  "tmp_dirs_empty name t \<Longrightarrow> walkTmp name t = (Inr (), if hasTmpPrefix name then None else Some (prune t))"
  "\<forall>(n, t) \<in> set cs. tmp_dirs_empty n t \<Longrightarrow>
     walkTmps cs = (Inr (), map (\<lambda>(n, t). (n, prune t)) (filter (\<lambda>(n, t). \<not> hasTmpPrefix n) cs))"
  by (induction name t and cs rule: walkTmp_walkTmps.induct) auto

text \<open>The walk stops with an error at a temporary directory that has an entry.\<close>

lemma walk_tmp_dir_error:
  "hasTmpPrefix n \<Longrightarrow> cs \<noteq> [] \<Longrightarrow> walkTmps ((n, TDir cs) # rest) = (Inl ErrNotExist, rest)"
  by simp

end
