(* ===== verification/Json.thy ===== *)
theory Json
  imports Prelude
begin

text \<open>
  What \<^verbatim>\<open>snapshot_storage.go\<close> uses of \<^verbatim>\<open>encoding/json\<close>: the text of an object with numbers and a byte slice
  (base64, as \<^verbatim>\<open>json.Marshal\<close> writes it), and the reader of \<^verbatim>\<open>json.Unmarshal\<close>: a lexer for the tokens of
  JSON and a parser for all of its values. Characters outside ASCII occur in strings only and are kept as
  codes; they equal no field name and no base64 digit. The parser has fuel for twice the number of tokens: a
  nested value costs two calls and consumes a bracket, an element or a member one call and at least its own token. The limit of 10000 nested values of the Go
  implementation is not modelled.
\<close>

section \<open>Text and bytes\<close>

definition textBytes :: "string \<Rightarrow> bytes" where
  "textBytes s = map of_char s"

definition bytesText :: "bytes \<Rightarrow> string" where
  "bytesText bs = map (\<lambda>b. char_of (unat b)) bs"

lemma bytesText_textBytes [simp]: "bytesText (textBytes s) = s"
proof -
  have "char_of (unat (of_char c :: byte)) = c" for c
  proof -
    have "unat (of_char c :: byte) = of_char c"
      by (simp add: of_char_def unat_of_nat)
    then show ?thesis by simp
  qed
  then show ?thesis by (simp add: bytesText_def textBytes_def map_idI)
qed

section \<open>Base64\<close>

text \<open>The digits of \<^verbatim>\<open>base64.StdEncoding\<close>, by their character codes.\<close>

definition b64code :: "int \<Rightarrow> nat" where
  "b64code n = (if n < 26 then 65 + nat n else if n < 52 then 71 + nat n else if n < 62 then nat (n - 4) else if n = 62 then 43 else 47)"

definition b64val :: "nat \<Rightarrow> int option" where
  "b64val c = (if 65 \<le> c \<and> c \<le> 90 then Some (int c - 65) else if 97 \<le> c \<and> c \<le> 122 then Some (int c - 71)
     else if 48 \<le> c \<and> c \<le> 57 then Some (int c + 4) else if c = 43 then Some 62 else if c = 47 then Some 63 else None)"

lemma b64val_code [simp]: "0 \<le> n \<Longrightarrow> n < 64 \<Longrightarrow> b64val (b64code n) = Some n"
proof -
  assume "0 \<le> n" "n < 64"
  then consider "0 \<le> n \<and> n < 26" | "26 \<le> n \<and> n < 52" | "52 \<le> n \<and> n < 62" | "n = 62" | "n = 63" by linarith
  then show "b64val (b64code n) = Some n"
    by cases (auto simp: b64val_def b64code_def nat_le_iff le_nat_iff)
qed

text \<open>\<open>61\<close> is the padding \<^verbatim>\<open>=\<close>.\<close>

fun b64encode :: "bytes \<Rightarrow> nat list" where
  "b64encode [] = []"
| "b64encode [a] = (let n = uint a * 16 in [b64code (n div 64), b64code (n mod 64), 61, 61])"
| "b64encode [a, b] = (let n = uint a * 1024 + uint b * 4 in
     [b64code (n div 4096), b64code (n div 64 mod 64), b64code (n mod 64), 61])"
| "b64encode (a # b # c # bs) = (let n = uint a * 65536 + uint b * 256 + uint c in
     [b64code (n div 262144), b64code (n div 4096 mod 64), b64code (n div 64 mod 64), b64code (n mod 64)] @ b64encode bs)"

text \<open>Decoding, after the line breaks are dropped: the bits left over before the padding are not checked.\<close>

fun b64quads :: "nat list \<Rightarrow> bytes option" where
  "b64quads [] = Some []"
| "b64quads (p # q # r # s # cs) =
     (case (b64val p, b64val q) of
        (Some w, Some x) \<Rightarrow>
          (case (b64val r, b64val s) of
             (Some y, Some z) \<Rightarrow>
               let n = w * 262144 + x * 4096 + y * 64 + z in
               map_option (\<lambda>bs. word_of_int (n div 65536) # word_of_int (n div 256 mod 256) # word_of_int (n mod 256) # bs) (b64quads cs)
           | (Some y, None) \<Rightarrow>
               let n = w * 4096 + x * 64 + y in
               if s = 61 \<and> cs = [] then Some [word_of_int (n div 1024), word_of_int (n div 4 mod 256)] else None
           | (None, _) \<Rightarrow>
               let n = w * 64 + x in
               if r = 61 \<and> s = 61 \<and> cs = [] then Some [word_of_int (n div 16)] else None)
      | _ \<Rightarrow> None)"
| "b64quads _ = None"

definition b64decode :: "nat list \<Rightarrow> bytes option" where
  "b64decode cs = b64quads (filter (\<lambda>c. c \<noteq> 10 \<and> c \<noteq> 13) cs)"

section \<open>Tokens\<close>

datatype tok = TLBrace | TRBrace | TLBrack | TRBrack | TColon | TComma | TNull | TBool bool | TNum string | TStr "nat list"

definition hexVal :: "char \<Rightarrow> nat option" where
  "hexVal c = (let n = of_char c in
     if 48 \<le> n \<and> n \<le> 57 then Some (n - 48) else if 97 \<le> n \<and> n \<le> 102 then Some (n - 87)
     else if 65 \<le> n \<and> n \<le> 70 then Some (n - 55) else None)"

definition hex4 :: "char \<Rightarrow> char \<Rightarrow> char \<Rightarrow> char \<Rightarrow> nat option" where
  "hex4 a b c d = (case (hexVal a, hexVal b, hexVal c, hexVal d) of
     (Some w, Some x, Some y, Some z) \<Rightarrow> Some (((w * 16 + x) * 16 + y) * 16 + z) | _ \<Rightarrow> None)"

definition escapeCode :: "char \<Rightarrow> nat option" where
  "escapeCode c = map_of [(CHR 0x22, 0x22), (CHR 0x5C, 0x5C), (CHR ''/'', 0x2F), (CHR ''b'', 8), (CHR ''f'', 12),
     (CHR ''n'', 10), (CHR ''r'', 13), (CHR ''t'', 9)] c"

text \<open>The rest of a string after its opening quote.\<close>

fun lexStr :: "string \<Rightarrow> (nat list \<times> string) option" where
  "lexStr [] = None"
| "lexStr (c # s) =
     (if c = CHR 0x22 then Some ([], s)
      else if c = CHR 0x5C then
        (case s of
           [] \<Rightarrow> None
         | e # s1 \<Rightarrow>
             if e = CHR ''u'' then
               (case s1 of
                  h1 # h2 # h3 # h4 # s2 \<Rightarrow>
                    (case hex4 h1 h2 h3 h4 of None \<Rightarrow> None | Some n \<Rightarrow> map_option (apfst (Cons n)) (lexStr s2))
                | _ \<Rightarrow> None)
             else case escapeCode e of None \<Rightarrow> None | Some n \<Rightarrow> map_option (apfst (Cons n)) (lexStr s1))
      else if (of_char c :: nat) < 32 then None
      else map_option (apfst (Cons (of_char c))) (lexStr s))"

lemma lexStr_shorter: "lexStr s = Some (cs, r) \<Longrightarrow> length r < length s"
  by (induction s arbitrary: cs r rule: lexStr.induct) (fastforce split: if_splits list.splits option.splits)+

definition isDigit :: "char \<Rightarrow> bool" where
  "isDigit c \<longleftrightarrow> 48 \<le> (of_char c :: nat) \<and> (of_char c :: nat) \<le> 57"

text \<open>A number: sign, integer part without leading zeros, fraction and exponent. The literal is kept.\<close>

definition lexDigits :: "string \<Rightarrow> (string \<times> string) option" where
  "lexDigits s = (if takeWhile isDigit s = [] then None else Some (takeWhile isDigit s, dropWhile isDigit s))"

definition lexInt :: "string \<Rightarrow> (string \<times> string) option" where
  "lexInt s = (case s of [] \<Rightarrow> None | c # s' \<Rightarrow> if c = CHR ''0'' then Some ([c], s') else lexDigits s)"

definition lexFrac :: "string \<Rightarrow> (string \<times> string) option" where
  "lexFrac s = (case s of
     [] \<Rightarrow> Some ([], [])
   | c # s' \<Rightarrow> if c = CHR ''.'' then map_option (apfst (Cons c)) (lexDigits s') else Some ([], s))"

definition lexExp :: "string \<Rightarrow> (string \<times> string) option" where
  "lexExp s = (case s of
     [] \<Rightarrow> Some ([], [])
   | c # s' \<Rightarrow>
       if c = CHR ''e'' \<or> c = CHR ''E'' then
         (case s' of
            [] \<Rightarrow> None
          | g # s2 \<Rightarrow> if g = CHR ''+'' \<or> g = CHR ''-'' then map_option (apfst (\<lambda>d. c # g # d)) (lexDigits s2)
              else map_option (apfst (Cons c)) (lexDigits s'))
       else Some ([], s))"

definition lexNum :: "string \<Rightarrow> (string \<times> string) option" where
  "lexNum s =
     (let (sign, s0) = (if take 1 s = ''-'' then (''-'', drop 1 s) else ('''', s)) in
      case lexInt s0 of None \<Rightarrow> None | Some (i, s1) \<Rightarrow>
      case lexFrac s1 of None \<Rightarrow> None | Some (f, s2) \<Rightarrow>
      case lexExp s2 of None \<Rightarrow> None | Some (e, s3) \<Rightarrow> Some (sign @ i @ f @ e, s3))"

lemma lexDigits_length: "lexDigits s = Some (d, r) \<Longrightarrow> length s = length d + length r \<and> d \<noteq> []"
  using length_append[of "takeWhile isDigit s" "dropWhile isDigit s"] by (auto simp: lexDigits_def split: if_splits)

lemma lexInt_shorter: "lexInt s = Some (d, r) \<Longrightarrow> length r < length s"
  by (auto simp: lexInt_def dest!: lexDigits_length split: list.splits if_splits)

lemma lexFrac_shorter: "lexFrac s = Some (d, r) \<Longrightarrow> length r \<le> length s"
  by (auto simp: lexFrac_def dest!: lexDigits_length split: list.splits if_splits)

lemma lexExp_shorter: "lexExp s = Some (d, r) \<Longrightarrow> length r \<le> length s"
  by (auto simp: lexExp_def dest!: lexDigits_length split: list.splits if_splits)

lemma lexNum_shorter: "lexNum s = Some (d, r) \<Longrightarrow> length r < length s"
  by (auto simp: lexNum_def Let_def dest!: lexInt_shorter lexFrac_shorter lexExp_shorter split: if_splits option.splits) arith

definition isSpaceChar :: "char \<Rightarrow> bool" where
  "isSpaceChar c \<longleftrightarrow> c = CHR '' '' \<or> c = CHR 0x09 \<or> c = CHR 0x0A \<or> c = CHR 0x0D"

definition punctTok :: "char \<Rightarrow> tok option" where
  "punctTok c = map_of [(CHR ''{'', TLBrace), (CHR ''}'', TRBrace), (CHR ''['', TLBrack), (CHR '']'', TRBrack),
     (CHR '':'', TColon), (CHR '','', TComma)] c"

function lexJson :: "string \<Rightarrow> tok list option" where
  "lexJson s =
     (case s of
        [] \<Rightarrow> Some []
      | c # s' \<Rightarrow>
          if isSpaceChar c then lexJson s'
          else case punctTok c of
            Some t \<Rightarrow> map_option (Cons t) (lexJson s')
          | None \<Rightarrow>
              if c = CHR 0x22 then
                (case lexStr s' of None \<Rightarrow> None | Some (cs, r) \<Rightarrow> map_option (Cons (TStr cs)) (lexJson r))
              else if take 4 s = ''null'' then map_option (Cons TNull) (lexJson (drop 4 s))
              else if take 4 s = ''true'' then map_option (Cons (TBool True)) (lexJson (drop 4 s))
              else if take 5 s = ''false'' then map_option (Cons (TBool False)) (lexJson (drop 5 s))
              else case lexNum s of None \<Rightarrow> None | Some (d, r) \<Rightarrow> map_option (Cons (TNum d)) (lexJson r))"
  by auto
termination
  by (relation "measure length") (auto dest: lexStr_shorter lexNum_shorter)

declare lexJson.simps [simp del]

section \<open>Values\<close>

datatype json = JNull | JBool bool | JNum string | JStr "nat list" | JArr "json list" | JObj "(nat list \<times> json) list"

fun parseVal :: "nat \<Rightarrow> tok list \<Rightarrow> (json \<times> tok list) option"
  and parseElems :: "nat \<Rightarrow> tok list \<Rightarrow> (json list \<times> tok list) option"
  and parseMembers :: "nat \<Rightarrow> tok list \<Rightarrow> ((nat list \<times> json) list \<times> tok list) option" where
  "parseVal 0 ts = None"
| "parseVal (Suc n) ts =
     (case ts of
        TNull # r \<Rightarrow> Some (JNull, r)
      | TBool b # r \<Rightarrow> Some (JBool b, r)
      | TNum d # r \<Rightarrow> Some (JNum d, r)
      | TStr s # r \<Rightarrow> Some (JStr s, r)
      | TLBrack # TRBrack # r \<Rightarrow> Some (JArr [], r)
      | TLBrack # r \<Rightarrow> map_option (apfst JArr) (parseElems n r)
      | TLBrace # TRBrace # r \<Rightarrow> Some (JObj [], r)
      | TLBrace # r \<Rightarrow> map_option (apfst JObj) (parseMembers n r)
      | _ \<Rightarrow> None)"
| "parseElems 0 ts = None"
| "parseElems (Suc n) ts =
     (case parseVal n ts of
        Some (v, TRBrack # r) \<Rightarrow> Some ([v], r)
      | Some (v, TComma # r) \<Rightarrow> map_option (apfst (Cons v)) (parseElems n r)
      | _ \<Rightarrow> None)"
| "parseMembers 0 ts = None"
| "parseMembers (Suc n) ts =
     (case ts of
        TStr k # TColon # r \<Rightarrow>
          (case parseVal n r of
             Some (v, TRBrace # r') \<Rightarrow> Some ([(k, v)], r')
           | Some (v, TComma # r') \<Rightarrow> map_option (apfst (Cons (k, v))) (parseMembers n r')
           | _ \<Rightarrow> None)
      | _ \<Rightarrow> None)"

text \<open>One value and nothing after it.\<close>

definition parseJson :: "string \<Rightarrow> json option" where
  "parseJson s = (case lexJson s of None \<Rightarrow> None | Some ts \<Rightarrow>
     (case parseVal (2 * length ts) ts of Some (v, []) \<Rightarrow> Some v | _ \<Rightarrow> None))"

section \<open>Storing values in Go variables\<close>

definition digitsVal :: "string \<Rightarrow> int" where
  "digitsVal s = foldl (\<lambda>n c. 10 * n + (of_char c - 48)) 0 s"

text \<open>\<^verbatim>\<open>strconv.ParseUint(literal, 10, w)\<close>; \<^verbatim>\<open>null\<close> leaves the variable as it is.\<close>

definition parseUint :: "nat \<Rightarrow> string \<Rightarrow> int option" where
  "parseUint w d = (if d \<noteq> [] \<and> list_all isDigit d \<and> digitsVal d < 2 ^ w then Some (digitsVal d) else None)"

fun storeUint64 :: "u64 \<Rightarrow> json \<Rightarrow> u64 option" where
  "storeUint64 old JNull = Some old"
| "storeUint64 old (JNum d) = map_option word_of_int (parseUint 64 d)"
| "storeUint64 old _ = None"

fun storeByte :: "json \<Rightarrow> byte option" where
  "storeByte JNull = Some 0"
| "storeByte (JNum d) = map_option word_of_int (parseUint 8 d)"
| "storeByte _ = None"

text \<open>A byte slice is a base64 string, or an array of numbers.\<close>

fun storeBytes :: "json \<Rightarrow> bytes option" where
  "storeBytes JNull = Some []"
| "storeBytes (JStr cs) = b64decode cs"
| "storeBytes (JArr vs) = those (map storeByte vs)"
| "storeBytes _ = None"

text \<open>Field names are compared without regard to (ASCII) case.\<close>

definition foldCase :: "nat \<Rightarrow> nat" where
  "foldCase c = (if 65 \<le> c \<and> c \<le> 90 then c + 32 else c)"

definition sameName :: "nat list \<Rightarrow> string \<Rightarrow> bool" where
  "sameName k name \<longleftrightarrow> map foldCase k = map of_char name"


section \<open>Reading what was written\<close>

text \<open>The digits to base 64, put together again.\<close>

lemma base64_digits:
  fixes n :: int
  shows "n div 64 * 64 + n mod 64 = n" "n div 4096 * 4096 + (n div 64 mod 64) * 64 + n mod 64 = n"
    "n div 262144 * 262144 + (n div 4096 mod 64) * 4096 + (n div 64 mod 64) * 64 + n mod 64 = n"
proof -
  have d: "n div 4096 = n div 64 div 64" "n div 262144 = n div 64 div 64 div 64" by (simp_all add: zdiv_zmult2_eq[symmetric])
  show "n div 64 * 64 + n mod 64 = n" by (rule div_mult_mod_eq)
  then show "n div 4096 * 4096 + (n div 64 mod 64) * 64 + n mod 64 = n"
    using div_mult_mod_eq[of "n div 64" 64] unfolding d by linarith
  then show "n div 262144 * 262144 + (n div 4096 mod 64) * 4096 + (n div 64 mod 64) * 64 + n mod 64 = n"
    using div_mult_mod_eq[of "n div 64 div 64" 64] unfolding d by linarith
qed

lemma byte_below: "uint (a :: byte) < 256" "0 \<le> uint a"
  using unsigned_less[of a] by simp_all

lemma low_byte: "r < 256 \<Longrightarrow> 0 \<le> r \<Longrightarrow> (m * 256 + r) mod 256 = r" "r < 256 \<Longrightarrow> 0 \<le> r \<Longrightarrow> (m * 256 + r) div 256 = (m :: int)"
  by (simp_all only: mod_mult_self3 mod_pos_pos_trivial div_mult_self3 div_pos_pos_trivial add_0_right)

text \<open>The groups of digits of a number \<open>n\<close>.\<close>

lemma b64quads_groups:
  "0 \<le> n \<Longrightarrow> n < 4096 \<Longrightarrow> b64quads [b64code (n div 64), b64code (n mod 64), 61, 61] = Some [word_of_int (n div 16)]"
  "0 \<le> n \<Longrightarrow> n < 262144 \<Longrightarrow> b64quads [b64code (n div 4096), b64code (n div 64 mod 64), b64code (n mod 64), 61] =
     Some [word_of_int (n div 1024), word_of_int (n div 4 mod 256)]"
  "0 \<le> n \<Longrightarrow> n < 16777216 \<Longrightarrow>
     b64quads (b64code (n div 262144) # b64code (n div 4096 mod 64) # b64code (n div 64 mod 64) # b64code (n mod 64) # cs) =
     map_option (\<lambda>bs. word_of_int (n div 65536) # word_of_int (n div 256 mod 256) # word_of_int (n mod 256) # bs) (b64quads cs)"
  by (simp_all add: pos_imp_zdiv_nonneg_iff base64_digits b64val_def[of 61])

lemma b64quads_encode: "b64quads (b64encode bs) = Some bs"
proof (induction bs rule: b64encode.induct)
  case (2 a)
  then show ?case using b64quads_groups(1)[of "uint a * 16"] byte_below[of a] by (simp add: Let_def del: b64quads.simps)
next
  case (3 a b)
  let ?n = "uint a * 1024 + uint b * 4"
  have "?n = (uint a * 256 + uint b) * 4" by simp
  then have "?n div 4 = uint a * 256 + uint b" by (metis nonzero_mult_div_cancel_right zero_neq_numeral)
  moreover have "?n div 1024 = ?n div 4 div 256" by (simp add: zdiv_zmult2_eq[symmetric])
  ultimately have "?n div 1024 = uint a" "?n div 4 mod 256 = uint b" using low_byte[of "uint b" "uint a"] byte_below[of b] by simp_all
  moreover have "0 \<le> ?n" "?n < 262144" using byte_below[of a] byte_below[of b] by auto
  ultimately show ?case using b64quads_groups(2)[of ?n] by (simp only: b64encode.simps Let_def word_of_int_uint)
next
  case (4 a b c bs)
  let ?n = "uint a * 65536 + uint b * 256 + uint c"
  have n: "?n = (uint a * 256 + uint b) * 256 + uint c" by simp
  have "?n mod 256 = uint c" "?n div 256 = uint a * 256 + uint b" unfolding n by (rule low_byte byte_below)+
  moreover have "?n div 65536 = ?n div 256 div 256" by (simp add: zdiv_zmult2_eq[symmetric])
  ultimately have "?n div 65536 = uint a" "?n div 256 mod 256 = uint b" "?n mod 256 = uint c"
    using low_byte[of "uint b" "uint a"] byte_below[of b] by simp_all
  moreover have "0 \<le> ?n" "?n < 16777216" using byte_below[of a] byte_below[of b] byte_below[of c] by auto
  ultimately show ?case using b64quads_groups(3)[of ?n] 4
    by (simp only: b64encode.simps Let_def word_of_int_uint append.simps option.map)
qed simp

lemma b64code_range: "43 \<le> b64code n" "b64code n < 123" "b64code n \<noteq> 92"
  by (auto simp: b64code_def)

lemma b64encode_range: "list_all (\<lambda>c. 43 \<le> c \<and> c < 123 \<and> c \<noteq> 92) (b64encode bs)"
  by (induction bs rule: b64encode.induct) (simp_all add: Let_def b64code_range)

lemma b64decode_encode [simp]: "b64decode (b64encode bs) = Some bs"
proof -
  have "filter (\<lambda>c. c \<noteq> 10 \<and> c \<noteq> 13) (b64encode bs) = b64encode bs"
    using b64encode_range[of bs] by (intro filter_True) (auto simp: list_all_iff)
  then show ?thesis by (simp add: b64decode_def b64quads_encode)
qed

text \<open>A string of printable characters without quotes and backslashes is read as it is.\<close>

lemma lexStr_plain:
  "(\<And>c. c \<in> set cs \<Longrightarrow> 32 \<le> c \<and> c < 256 \<and> c \<noteq> 34 \<and> c \<noteq> 92) \<Longrightarrow>
   lexStr (map char_of cs @ CHR 0x22 # r) = Some (cs, r)"
proof (induction cs)
  case (Cons c cs)
  have "(of_char (char_of c :: char) :: nat) = c" using Cons.prems[of c] by (simp add: of_char_of)
  moreover have "char_of c \<noteq> CHR 0x22" "char_of c \<noteq> CHR 0x5C"
    using Cons.prems[of c] by (auto dest!: arg_cong[where f = "of_char :: char \<Rightarrow> nat"] simp: of_char_of)
  moreover have "\<not> c < 32" using Cons.prems[of c] by (simp add: not_less)
  moreover have "lexStr (map char_of cs @ CHR 0x22 # r) = Some (cs, r)" using Cons by simp
  ultimately show ?case by simp
qed simp

lemma lexStr_base64: "lexStr (map char_of (b64encode bs) @ CHR 0x22 # r) = Some (b64encode bs, r)"
  using b64encode_range[of bs] by (intro lexStr_plain) (auto simp: list_all_iff)

lemma of_char_digit: "d < 10 \<Longrightarrow> of_char (digit d) = 48 + d"
  by (simp add: digit_def of_char_of)

lemma of_char_int: "(of_char c :: int) = int (of_char c)"
  by (simp add: of_char_def)

lemma decimal_digits: "list_all isDigit (decimal n) \<and> decimal n \<noteq> []"
proof (induction n rule: decimal.induct)
  case (1 n)
  then show ?case by (cases "n < 10") (simp_all add: decimal.simps[of n] isDigit_def of_char_digit)
qed

lemma digitsVal_decimal: "digitsVal (decimal n) = int n"
proof (induction n rule: decimal.induct)
  case (1 n)
  then show ?case by (cases "n < 10") (simp_all add: decimal.simps[of n] digitsVal_def of_char_int of_char_digit zdiv_int zmod_int)
qed

lemma decimal_inj: "decimal j = decimal k \<longleftrightarrow> j = k"
  by (metis digitsVal_decimal of_nat_eq_iff)

lemma decimal_leading_zero: "hd (decimal n) = CHR ''0'' \<Longrightarrow> decimal n = ''0''"
proof -
  have z: "d = 0" if "digit d = CHR ''0''" "d < 10" for d
    using arg_cong[OF that(1), of "of_char :: char \<Rightarrow> nat"] that(2) by (simp add: of_char_digit)
  have "hd (decimal n) = CHR ''0'' \<Longrightarrow> n = 0"
  proof (induction n rule: decimal.induct)
    case (1 n)
    then show ?case using z decimal_digits[of "n div 10"]
      by (cases "n < 10") (auto simp: decimal.simps[of n] hd_append)
  qed
  then show "hd (decimal n) = CHR ''0'' \<Longrightarrow> decimal n = ''0''" by (simp add: decimal.simps[of 0] digit_def)
qed

lemma parseUint_decimal: "int n < 2 ^ w \<Longrightarrow> parseUint w (decimal n) = Some (int n)"
  using decimal_digits[of n] by (simp add: parseUint_def digitsVal_decimal)

text \<open>A decimal number is read to its end, at a character that continues no number.\<close>

lemma lexInt_decimal:
  assumes "\<not> isDigit c"
  shows "lexInt (decimal n @ c # r) = Some (decimal n, c # r)"
proof -
  obtain d ds where d: "decimal n = d # ds" using decimal_digits[of n] by (cases "decimal n") auto
  have all: "\<forall>x \<in> set (decimal n). isDigit x" using decimal_digits[of n] by (simp add: list_all_iff)
  have "lexDigits (decimal n @ c # r) = Some (decimal n, c # r)"
    using all assms d by (simp add: lexDigits_def takeWhile_append dropWhile_append)
  then show ?thesis using decimal_leading_zero[of n] d by (auto simp: lexInt_def)
qed

lemma lexNum_decimal:
  assumes "\<not> isDigit c" "c \<notin> {CHR ''.'', CHR ''e'', CHR ''E''}"
  shows "lexNum (decimal n @ c # r) = Some (decimal n, c # r)"
proof -
  obtain d ds where d: "decimal n = d # ds" "isDigit d" using decimal_digits[of n] by (cases "decimal n") auto
  then have "take 1 (decimal n @ c # r) \<noteq> ''-''" by (auto simp: isDigit_def)
  then show ?thesis using assms by (simp add: lexNum_def lexInt_decimal lexFrac_def lexExp_def)
qed


end
