(* ===== verification/SnapshotStore.thy ===== *)
theory SnapshotStore
  imports FileUtil Framing Json "HOL-Library.List_Lexorder" "HOL-Library.Char_ord"
begin

text \<open>
  snapshot_storage.go: snapshots live in directories below \<^verbatim>\<open>snapshotDir\<close>, written under a
  temporary name and renamed to \<^verbatim>\<open>snapshot-<nanoseconds>\<close> when they are closed. The storage is a
  finite map from directory names to directories, each with the contents of the files that it has
  (\<^verbatim>\<open>snapshot.bin\<close> and \<^verbatim>\<open>metadata.json\<close>); a \<^verbatim>\<open>snapshotFile\<close> holds the directory its file was opened
  in and the cursor. Every system call may fail, and leaves behind what was done before it.
\<close>

record SnapshotMetadata =
  md_LastIncludedIndex :: u64
  md_LastIncludedTerm :: u64
  md_Configuration :: bytes

text \<open>\<^verbatim>\<open>None\<close>: the file does not exist.\<close>

record snapDir =
  sd_data :: "bytes option"
  sd_meta :: "bytes option"

record persistentSnapshotStorage =
  snapshotDir :: string
  ss_dirs :: "(string, snapDir) fmap"
  ss_tmpCount :: nat
  ss_faults :: "io list"

record snapshotFile =
  sf_dir :: string
  sf_tmpDir :: string
  sf_file :: "(string \<times> nat) option"
  sf_metadata :: SnapshotMetadata

type_synonym 'a snapA = "(persistentSnapshotStorage, 'a) action"

definition ss_syscall :: "unit snapA" where
  "ss_syscall = (\<lambda>s. (io_result (next_io (ss_faults s)), s\<lparr>ss_faults := tl (ss_faults s)\<rparr>))"

text \<open>A change of one directory.\<close>

definition updDir :: "string \<Rightarrow> (snapDir \<Rightarrow> snapDir) \<Rightarrow> persistentSnapshotStorage \<Rightarrow> persistentSnapshotStorage" where
  "updDir d g s = (case fmlookup (ss_dirs s) d of None \<Rightarrow> s | Some c \<Rightarrow> s\<lparr>ss_dirs := fmupd d (g c) (ss_dirs s)\<rparr>)"

section \<open>Metadata\<close>

definition quoted :: "string \<Rightarrow> string" where
  "quoted s = CHR 0x22 # s @ [CHR 0x22]"

text \<open>The text of \<^verbatim>\<open>json.Marshal(metadata)\<close>, by the tags of the struct.\<close>

definition marshalMetadata :: "SnapshotMetadata \<Rightarrow> string" where
  "marshalMetadata m =
     ''{'' @ quoted ''last_included_index'' @ '':'' @ decimal (unat (md_LastIncludedIndex m)) @
     '','' @ quoted ''last_included_term'' @ '':'' @ decimal (unat (md_LastIncludedTerm m)) @
     '','' @ quoted ''configuration'' @ '':'' @ quoted (map char_of (b64encode (md_Configuration m))) @ ''}''"

definition storeField :: "SnapshotMetadata option \<Rightarrow> nat list \<times> json \<Rightarrow> SnapshotMetadata option" where
  "storeField acc kv = (case acc of None \<Rightarrow> None | Some m \<Rightarrow> (case kv of (k, v) \<Rightarrow>
     if sameName k ''last_included_index'' then
       map_option (\<lambda>x. m\<lparr>md_LastIncludedIndex := x\<rparr>) (storeUint64 (md_LastIncludedIndex m) v)
     else if sameName k ''last_included_term'' then
       map_option (\<lambda>x. m\<lparr>md_LastIncludedTerm := x\<rparr>) (storeUint64 (md_LastIncludedTerm m) v)
     else if sameName k ''configuration'' then
       map_option (\<lambda>x. m\<lparr>md_Configuration := x\<rparr>) (storeBytes v)
     else Some m))"

text \<open>\<^verbatim>\<open>json.Unmarshal(data, &metadata)\<close>, from the zero value of the struct; \<^verbatim>\<open>None\<close> is an error.\<close>

definition unmarshalMetadata :: "string \<Rightarrow> SnapshotMetadata option" where
  "unmarshalMetadata txt =
     (let zero = \<lparr>md_LastIncludedIndex = 0, md_LastIncludedTerm = 0, md_Configuration = []\<rparr> in
      case parseJson txt of
        Some JNull \<Rightarrow> Some zero
      | Some (JObj kvs) \<Rightarrow> foldl storeField (Some zero) kvs
      | _ \<Rightarrow> None)"

text \<open>\<^verbatim>\<open>encodeMetadata\<close> writes the new file \<^verbatim>\<open>metadata.json\<close> of a directory, possibly only in part.\<close>

definition encodeMetadata :: "string \<Rightarrow> SnapshotMetadata \<Rightarrow> unit snapA" where
  "encodeMetadata d metadata = wrapA ''could not write metadata'' (\<lambda>s.
     let io = next_io (ss_faults s) in
     (io_result io,
      (updDir d (\<lambda>c. c\<lparr>sd_meta := Some (io_stored io (textBytes (marshalMetadata metadata)))\<rparr>) s)
        \<lparr>ss_faults := tl (ss_faults s)\<rparr>))"

definition decodeMetadata :: "bytes \<Rightarrow> SnapshotMetadata snapA" where
  "decodeMetadata contents =
     bindA (wrapA ''could not read metadata'' ss_syscall) (\<lambda>_.
     case unmarshalMetadata (bytesText contents) of
       None \<Rightarrow> raiseA (Error (Wrapf ''could not unmarshal metadata'' (ErrNew ''json'')))
     | Some m \<Rightarrow> returnA m)"

section \<open>Names\<close>

text \<open>\<^verbatim>\<open>buildDirectoryBase\<close> at the time \<open>now\<close>.\<close>

definition buildDirectoryBase :: "time \<Rightarrow> string" where
  "buildDirectoryBase now = ''snapshot-'' @ decimal (nat now)"

text \<open>A match of the regular expression \<^verbatim>\<open>snapshot-(\d+)$\<close>, which is not anchored on the left.\<close>

definition matchesPattern :: "string \<Rightarrow> bool" where
  "matchesPattern name \<longleftrightarrow>
     list_ex (\<lambda>k. let s = drop k name in
       take 9 s = ''snapshot-'' \<and> drop 9 s \<noteq> [] \<and> list_all isDigit (drop 9 s)) [0..<length name]"

text \<open>
  \<^verbatim>\<open>fmt.Sscanf(path, "snapshot-%d", &timestamp)\<close>: the literal must match at the start of the
  input, else the timestamp keeps its zero value.
\<close>

definition sscanfTimestamp :: "string \<Rightarrow> int" where
  "sscanfTimestamp path = (if take 9 path = ''snapshot-'' then digitsVal (takeWhile isDigit (drop 9 path)) else 0)"

definition joinPath :: "string \<Rightarrow> string \<Rightarrow> string" where
  "joinPath d n = d @ ''/'' @ n"

section \<open>Snapshot files\<close>

text \<open>The contents of \<^verbatim>\<open>snapshot.bin\<close> and \<^verbatim>\<open>metadata.json\<close> of a directory, if it and the file exist.\<close>

definition dataOf :: "persistentSnapshotStorage \<Rightarrow> string \<Rightarrow> bytes option" where
  "dataOf s d = Option.bind (fmlookup (ss_dirs s) d) sd_data"

definition metaOfDir :: "persistentSnapshotStorage \<Rightarrow> string \<Rightarrow> bytes option" where
  "metaOfDir s d = Option.bind (fmlookup (ss_dirs s) d) sd_meta"

definition SF_inTmpDir :: "snapshotFile \<Rightarrow> bool" where
  "SF_inTmpDir f = (case sf_file f of None \<Rightarrow> False | Some (d, _) \<Rightarrow> d = sf_tmpDir f)"

text \<open>\<^verbatim>\<open>os.Rename(s.tmpDir, s.dir)\<close>: renaming onto an existing snapshot fails.\<close>

definition renameDir :: "string \<Rightarrow> string \<Rightarrow> unit snapA" where
  "renameDir d d' = bindA ss_syscall (\<lambda>_. bindA getA (\<lambda>s.
     case fmlookup (ss_dirs s) d of
       None \<Rightarrow> raiseA (Error ErrNotExist)
     | Some c \<Rightarrow>
         if fmlookup (ss_dirs s) d' \<noteq> None then raiseA (Error SysErr)
         else modifyA (\<lambda>s. s\<lparr>ss_dirs := fmupd d' c (fmdrop d (ss_dirs s))\<rparr>)))"

definition removeAllDir :: "string \<Rightarrow> unit snapA" where
  "removeAllDir d = modifyA (\<lambda>s. s\<lparr>ss_dirs := fmdrop d (ss_dirs s)\<rparr>)"

definition SF_Close :: "snapshotFile \<Rightarrow> snapshotFile snapA" where
  "SF_Close f =
     (if sf_file f = None then returnA f
      else
        bindA (tryA
          (bindA (wrapA ''could not sync file'' ss_syscall) (\<lambda>_.
           bindA (wrapA ''could not close file'' ss_syscall) (\<lambda>_.
           whenA (SF_inTmpDir f) (wrapA ''could not perform rename'' (renameDir (sf_tmpDir f) (sf_dir f))))))) (\<lambda>res.
        case res of
          Inl e \<Rightarrow> bindA (whenA (SF_inTmpDir f) (removeAllDir (sf_tmpDir f))) (\<lambda>_. raiseA (Error e))
        | Inr _ \<Rightarrow> returnA (f\<lparr>sf_file := None\<rparr>)))"

definition SF_Discard :: "snapshotFile \<Rightarrow> snapshotFile snapA" where
  "SF_Discard f =
     (if \<not> SF_inTmpDir f then returnA f
      else
        bindA (wrapA ''could not close file'' ss_syscall) (\<lambda>_.
        bindA ss_syscall (\<lambda>_.
        bindA (removeAllDir (sf_tmpDir f)) (\<lambda>_.
        returnA (f\<lparr>sf_file := None\<rparr>)))))"

definition SF_Metadata :: "snapshotFile \<Rightarrow> SnapshotMetadata" where
  "SF_Metadata f = sf_metadata f"

text \<open>\<^verbatim>\<open>Seek(0, io.SeekCurrent)\<close>, \<^verbatim>\<open>Seek(n, io.SeekStart)\<close>, \<^verbatim>\<open>io.Copy\<close> to and from the file.\<close>

definition SF_SeekCurrent :: "snapshotFile \<Rightarrow> int snapA" where
  "SF_SeekCurrent f =
     (case sf_file f of
        None \<Rightarrow> raiseA (Error SysErr)
      | Some (_, pos) \<Rightarrow> bindA ss_syscall (\<lambda>_. returnA (int pos)))"

definition SF_SeekStart :: "int \<Rightarrow> snapshotFile \<Rightarrow> snapshotFile snapA" where
  "SF_SeekStart n f =
     (case sf_file f of
        None \<Rightarrow> raiseA (Error SysErr)
      | Some (d, _) \<Rightarrow> bindA ss_syscall (\<lambda>_.
          if n < 0 then raiseA (Error SysErr) else returnA (f\<lparr>sf_file := Some (d, nat n)\<rparr>)))"

text \<open>A file that \<^verbatim>\<open>os.Open\<close> returned, outside a temporary directory, is not open for writing.\<close>

definition SF_Write :: "bytes \<Rightarrow> snapshotFile \<Rightarrow> snapshotFile snapA" where
  "SF_Write bs f =
     (if bs = [] then returnA f
      else if \<not> SF_inTmpDir f then raiseA (Error SysErr)
      else case sf_file f of
        None \<Rightarrow> raiseA (Error SysErr)
      | Some (d, pos) \<Rightarrow> (\<lambda>s.
          case dataOf s d of
            None \<Rightarrow> (Inl (Error SysErr), s)
          | Some old \<Rightarrow>
              let io = next_io (ss_faults s); stored = io_stored io bs;
                  dat = take pos (old @ replicate (pos - length old) 0) @ stored @ drop (pos + length stored) old
              in (case io_result io of Inl x \<Rightarrow> Inl x | Inr _ \<Rightarrow> Inr (f\<lparr>sf_file := Some (d, pos + length bs)\<rparr>),
                  (updDir d (\<lambda>c. c\<lparr>sd_data := Some dat\<rparr>) s)\<lparr>ss_faults := tl (ss_faults s)\<rparr>)))"

definition SF_ReadAll :: "snapshotFile \<Rightarrow> (bytes \<times> snapshotFile) snapA" where
  "SF_ReadAll f =
     (case sf_file f of
        None \<Rightarrow> raiseA (Error SysErr)
      | Some (d, pos) \<Rightarrow> bindA ss_syscall (\<lambda>_. bindA getA (\<lambda>s.
          case dataOf s d of
            None \<Rightarrow> raiseA (Error SysErr)
          | Some dat \<Rightarrow> returnA (drop pos dat, f\<lparr>sf_file := Some (d, max pos (length dat))\<rparr>))))"

section \<open>Storage\<close>

text \<open>The directory tree that \<^verbatim>\<open>RemoveTmpFiles\<close> walks.\<close>

definition snapDirTree :: "snapDir \<Rightarrow> tree" where
  "snapDirTree c = TDir ((if sd_meta c = None then [] else [(''metadata.json'', TFile)]) @
     (if sd_data c = None then [] else [(''snapshot.bin'', TFile)]))"

definition storageTree :: "persistentSnapshotStorage \<Rightarrow> (string \<times> tree) list" where
  "storageTree s = map (\<lambda>n. (n, snapDirTree (the (fmlookup (ss_dirs s) n)))) (sorted_list_of_fset (fmdom (ss_dirs s)))"

definition NewSnapshotStorage :: "unit snapA" where
  "NewSnapshotStorage =
     bindA (wrapA ''could not create snapshot directory for snapshot storage'' ss_syscall) (\<lambda>_.
     bindA getA (\<lambda>s.
     case RemoveTmpFiles (storageTree s) of
       (r, left) \<Rightarrow>
         bindA (modifyA (\<lambda>s. s\<lparr>ss_dirs := fmfilter (\<lambda>n. n \<in> set (map fst left)) (ss_dirs s)\<rparr>)) (\<lambda>_.
         case r of
           Inl e \<Rightarrow> raiseA (Error (Wrapf ''could not remove temporary files'' e))
         | Inr _ \<Rightarrow> returnA ())))"

definition NewSnapshotFile :: "time \<Rightarrow> u64 \<Rightarrow> u64 \<Rightarrow> bytes \<Rightarrow> snapshotFile snapA" where
  "NewSnapshotFile now lastIncludedIndex lastIncludedTerm configuration =
     bindA (wrapA ''could not  directory for snapshot'' ss_syscall) (\<lambda>_.
     bindA getA (\<lambda>s.
     let tmpDir = ''tmp-snapshot'' @ decimal (ss_tmpCount s);
         metadata = \<lparr>md_LastIncludedIndex = lastIncludedIndex, md_LastIncludedTerm = lastIncludedTerm,
                     md_Configuration = configuration\<rparr> in
     bindA (modifyA (\<lambda>s. s\<lparr>ss_tmpCount := Suc (ss_tmpCount s),
       ss_dirs := fmupd tmpDir \<lparr>sd_data = None, sd_meta = None\<rparr> (ss_dirs s)\<rparr>)) (\<lambda>_.
     bindA (wrapA ''could not create file for snapshot data'' ss_syscall) (\<lambda>_.
     bindA (modifyA (updDir tmpDir (\<lambda>c. c\<lparr>sd_data := Some []\<rparr>))) (\<lambda>_.
     bindA (wrapA ''could not create file for snapshot metadata'' ss_syscall) (\<lambda>_.
     bindA (modifyA (updDir tmpDir (\<lambda>c. c\<lparr>sd_meta := Some []\<rparr>))) (\<lambda>_.
     bindA (wrapA ''could not encode snapshot metadata'' (encodeMetadata tmpDir metadata)) (\<lambda>_.
     bindA (wrapA ''could not sync snapshot metadata file'' ss_syscall) (\<lambda>_.
     bindA (wrapA ''could not close snapshot metadata file'' ss_syscall) (\<lambda>_.
     returnA \<lparr>sf_dir = buildDirectoryBase now, sf_tmpDir = tmpDir, sf_file = Some (tmpDir, 0),
              sf_metadata = metadata\<rparr>))))))))))"

text \<open>
  \<^verbatim>\<open>directories\<close>: \<^verbatim>\<open>os.ReadDir\<close> lists the names in order, the regular expression filters them, and
  \<^verbatim>\<open>sort.Slice\<close> compares the timestamps scanned from the joined paths.
\<close>

definition directories :: "string list snapA" where
  "directories =
     bindA (wrapA ''could not read snapshot directory entries'' ss_syscall) (\<lambda>_.
     bindA getA (\<lambda>s.
     returnA (sort_key sscanfTimestamp (map (joinPath (snapshotDir s))
       (filter matchesPattern (sorted_list_of_fset (fmdom (ss_dirs s))))))))"

definition baseName :: "string \<Rightarrow> string \<Rightarrow> string" where
  "baseName d path = drop (length d + 1) path"

text \<open>\<^verbatim>\<open>os.Open\<close> of a file whose contents, if it exists, are \<open>content s\<close>.\<close>

definition openFile :: "(persistentSnapshotStorage \<Rightarrow> bytes option) \<Rightarrow> bytes snapA" where
  "openFile content = bindA ss_syscall (\<lambda>_. bindA getA (\<lambda>s.
     case content s of None \<Rightarrow> raiseA (Error ErrNotExist) | Some bs \<Rightarrow> returnA bs))"

definition SnapshotFile :: "snapshotFile option snapA" where
  "SnapshotFile =
     bindA directories (\<lambda>dirNames.
     if dirNames = [] then returnA None
     else bindA getA (\<lambda>s.
       let name = baseName (snapshotDir s) (last dirNames) in
       bindA (wrapA ''could not open snapshot data file'' (openFile (\<lambda>s. dataOf s name))) (\<lambda>_.
       bindA (wrapA ''could not open snapshot metadata file'' (openFile (\<lambda>s. metaOfDir s name))) (\<lambda>contents.
       bindA (wrapA ''could not decode snapshot metadata'' (decodeMetadata contents)) (\<lambda>metadata.
       returnA (Some \<lparr>sf_dir = [], sf_tmpDir = [], sf_file = Some (name, 0), sf_metadata = metadata\<rparr>))))))"

section \<open>Metadata is read as it was written\<close>

lemma lexJson_steps [simp]:
  "lexJson [] = Some []"
  "lexJson (CHR ''{'' # s) = map_option (Cons TLBrace) (lexJson s)"
  "lexJson (CHR ''}'' # s) = map_option (Cons TRBrace) (lexJson s)"
  "lexJson (CHR '':'' # s) = map_option (Cons TColon) (lexJson s)"
  "lexJson (CHR '','' # s) = map_option (Cons TComma) (lexJson s)"
  by (simp_all add: lexJson.simps[of "_ # _"] lexJson.simps[of "[]"] isSpaceChar_def punctTok_def)

lemma lexJson_quote: "lexStr s = Some (cs, r) \<Longrightarrow> lexJson (CHR 0x22 # s) = map_option (Cons (TStr cs)) (lexJson r)"
  by (simp add: lexJson.simps[of "_ # _"] isSpaceChar_def punctTok_def)

lemma lexJson_name:
  assumes "list_all (\<lambda>c. 32 \<le> (of_char c :: nat) \<and> c \<noteq> CHR 0x22 \<and> c \<noteq> CHR 0x5C) name"
  shows "lexJson (quoted name @ r) = map_option (Cons (TStr (map of_char name))) (lexJson r)"
proof -
  have "lexStr (map char_of (map of_char name :: nat list) @ CHR 0x22 # r) = Some (map of_char name, r)"
  proof (rule lexStr_plain)
    fix c :: nat assume "c \<in> set (map of_char name)"
    then obtain x where x: "x \<in> set name" "c = of_char x" by auto
    have "of_char x = (of_char y :: nat) \<longleftrightarrow> x = y" for y by simp
    from this[of "CHR 0x22"] this[of "CHR 0x5C"] x assms show "32 \<le> c \<and> c < 256 \<and> c \<noteq> 34 \<and> c \<noteq> 92"
      by (auto simp: list_all_iff)
  qed
  then show ?thesis by (simp add: quoted_def lexJson_quote o_def)
qed

lemma lexJson_number:
  assumes "\<not> isDigit c" "c \<notin> {CHR ''.'', CHR ''e'', CHR ''E''}"
  shows "lexJson (decimal n @ c # r) = map_option (Cons (TNum (decimal n))) (lexJson (c # r))"
proof -
  obtain d ds where d: "decimal n = d # ds" "isDigit d" using decimal_digits[of n] by (cases "decimal n") auto
  have "\<not> isSpaceChar d" "punctTok d = None" "d \<noteq> CHR 0x22" "d \<noteq> CHR ''n''" "d \<noteq> CHR ''t''" "d \<noteq> CHR ''f''"
    using d(2) by (auto simp: isSpaceChar_def punctTok_def isDigit_def)
  then show ?thesis using lexNum_decimal[OF assms, of n r] d(1) by (subst lexJson.simps) simp
qed

lemma lexJson_metadata:
  "lexJson (marshalMetadata m) = Some
     [TLBrace, TStr (map of_char ''last_included_index''), TColon, TNum (decimal (unat (md_LastIncludedIndex m))), TComma,
      TStr (map of_char ''last_included_term''), TColon, TNum (decimal (unat (md_LastIncludedTerm m))), TComma,
      TStr (map of_char ''configuration''), TColon, TStr (b64encode (md_Configuration m)), TRBrace]"
proof -
  have b: "lexJson (quoted (map char_of (b64encode bs)) @ r) = map_option (Cons (TStr (b64encode bs))) (lexJson r)" for bs r
    by (simp add: quoted_def lexJson_quote lexStr_base64)
  show ?thesis unfolding marshalMetadata_def by (simp add: lexJson_name lexJson_number b isDigit_def)
qed

theorem unmarshal_marshal: "unmarshalMetadata (marshalMetadata m) = Some m"
proof -
  have "parseJson (marshalMetadata m) = Some (JObj
     [(map of_char ''last_included_index'', JNum (decimal (unat (md_LastIncludedIndex m)))),
      (map of_char ''last_included_term'', JNum (decimal (unat (md_LastIncludedTerm m)))),
      (map of_char ''configuration'', JStr (b64encode (md_Configuration m)))])"
    by (simp add: parseJson_def lexJson_metadata numeral_eq_Suc)
  moreover have "parseUint 64 (decimal (unat w)) = Some (int (unat w))" for w :: u64
    using unsigned_less[of w] by (intro parseUint_decimal) simp
  ultimately show ?thesis
    by (simp add: unmarshalMetadata_def storeField_def sameName_def foldCase_def)
qed


end
