(* ===== verification/Messages.thy ===== *)
theory Messages
  imports LogStore
begin

text \<open>
  requests.go: the RPC messages and their conversion to and from the protobuf types. A
  transport sends \<^verbatim>\<open>makeProto...\<close> of a message and hands \<^verbatim>\<open>make...\<close> of what arrived to the handler.
\<close>

record AppendEntriesRequest =
  ae_LeaderID :: string
  ae_Term :: u64
  ae_LeaderCommit :: u64
  ae_PrevLogIndex :: u64
  ae_PrevLogTerm :: u64
  ae_Entries :: "LogEntry list"

record AppendEntriesResponse =
  aer_Term :: u64
  aer_Success :: bool
  aer_Index :: u64

record RequestVoteRequest =
  rv_CandidateID :: string
  rv_Term :: u64
  rv_LastLogIndex :: u64
  rv_LastLogTerm :: u64
  rv_Prevote :: bool

record RequestVoteResponse =
  rvr_Term :: u64
  rvr_VoteGranted :: bool

record InstallSnapshotRequest =
  is_LeaderID :: string
  is_Term :: u64
  is_LastIncludedIndex :: u64
  is_LastIncludedTerm :: u64
  is_Configuration :: bytes
  is_Bytes :: bytes
  is_Offset :: int
  is_Done :: bool

record InstallSnapshotResponse =
  isr_Term :: u64
  isr_BytesWritten :: int

definition makeProtoEntries :: "LogEntry list \<Rightarrow> pb_LogEntry list" where
  "makeProtoEntries es = map (\<lambda>e. \<lparr>pb_Index = Index e, pb_Term = Term e, pb_Offset = 0,
                                 pb_Data = Data e, pb_EntryType = EntryType e\<rparr>) es"

definition makeEntries :: "pb_LogEntry list \<Rightarrow> LogEntry list" where
  "makeEntries ps = map (\<lambda>p. \<lparr>Index = pb_Index p, Term = pb_Term p, Offset = 0,
                              Data = pb_Data p, EntryType = pb_EntryType p\<rparr>) ps"

definition makeProtoRequestVoteRequest :: "RequestVoteRequest \<Rightarrow> pb_RequestVoteRequest" where
  "makeProtoRequestVoteRequest r =
     \<lparr>pbv_CandidateId = rv_CandidateID r, pbv_Term = rv_Term r, pbv_LastLogIndex = rv_LastLogIndex r,
      pbv_LastLogTerm = rv_LastLogTerm r, pbv_Prevote = rv_Prevote r\<rparr>"

definition makeRequestVoteRequest :: "pb_RequestVoteRequest \<Rightarrow> RequestVoteRequest" where
  "makeRequestVoteRequest p =
     \<lparr>rv_CandidateID = pbv_CandidateId p, rv_Term = pbv_Term p, rv_LastLogIndex = pbv_LastLogIndex p,
      rv_LastLogTerm = pbv_LastLogTerm p, rv_Prevote = pbv_Prevote p\<rparr>"

definition makeProtoRequestVoteResponse :: "RequestVoteResponse \<Rightarrow> pb_RequestVoteResponse" where
  "makeProtoRequestVoteResponse r = \<lparr>pbvr_Term = rvr_Term r, pbvr_VoteGranted = rvr_VoteGranted r\<rparr>"

definition makeRequestVoteResponse :: "pb_RequestVoteResponse \<Rightarrow> RequestVoteResponse" where
  "makeRequestVoteResponse p = \<lparr>rvr_Term = pbvr_Term p, rvr_VoteGranted = pbvr_VoteGranted p\<rparr>"

definition makeProtoAppendEntriesRequest :: "AppendEntriesRequest \<Rightarrow> pb_AppendEntriesRequest" where
  "makeProtoAppendEntriesRequest r =
     \<lparr>pba_LeaderId = ae_LeaderID r, pba_Term = ae_Term r, pba_LeaderCommit = ae_LeaderCommit r,
      pba_PrevLogIndex = ae_PrevLogIndex r, pba_PrevLogTerm = ae_PrevLogTerm r,
      pba_Entries = makeProtoEntries (ae_Entries r)\<rparr>"

definition makeAppendEntriesRequest :: "pb_AppendEntriesRequest \<Rightarrow> AppendEntriesRequest" where
  "makeAppendEntriesRequest p =
     \<lparr>ae_LeaderID = pba_LeaderId p, ae_Term = pba_Term p, ae_LeaderCommit = pba_LeaderCommit p,
      ae_PrevLogIndex = pba_PrevLogIndex p, ae_PrevLogTerm = pba_PrevLogTerm p,
      ae_Entries = makeEntries (pba_Entries p)\<rparr>"

definition makeProtoAppendEntriesResponse :: "AppendEntriesResponse \<Rightarrow> pb_AppendEntriesResponse" where
  "makeProtoAppendEntriesResponse r =
     \<lparr>pbar_Term = aer_Term r, pbar_Index = aer_Index r, pbar_Success = aer_Success r\<rparr>"

definition makeAppendEntriesResponse :: "pb_AppendEntriesResponse \<Rightarrow> AppendEntriesResponse" where
  "makeAppendEntriesResponse p =
     \<lparr>aer_Term = pbar_Term p, aer_Success = pbar_Success p, aer_Index = pbar_Index p\<rparr>"

definition makeProtoInstallSnapshotRequest :: "InstallSnapshotRequest \<Rightarrow> pb_InstallSnapshotRequest" where
  "makeProtoInstallSnapshotRequest r =
     \<lparr>pbi_Term = is_Term r, pbi_Leader = is_LeaderID r, pbi_LastIncludedIndex = is_LastIncludedIndex r,
      pbi_LastIncludedTerm = is_LastIncludedTerm r, pbi_Configuration = is_Configuration r,
      pbi_Offset = is_Offset r, pbi_Data = is_Bytes r, pbi_Done = is_Done r\<rparr>"

definition makeInstallSnapshotRequest :: "pb_InstallSnapshotRequest \<Rightarrow> InstallSnapshotRequest" where
  "makeInstallSnapshotRequest p =
     \<lparr>is_LeaderID = pbi_Leader p, is_Term = pbi_Term p, is_LastIncludedIndex = pbi_LastIncludedIndex p,
      is_LastIncludedTerm = pbi_LastIncludedTerm p, is_Configuration = pbi_Configuration p,
      is_Bytes = pbi_Data p, is_Offset = pbi_Offset p, is_Done = pbi_Done p\<rparr>"

definition makeProtoInstallSnapshotResponse :: "InstallSnapshotResponse \<Rightarrow> pb_InstallSnapshotResponse" where
  "makeProtoInstallSnapshotResponse r = \<lparr>pbir_Term = isr_Term r, pbir_BytesWritten = isr_BytesWritten r\<rparr>"

definition makeInstallSnapshotResponse :: "pb_InstallSnapshotResponse \<Rightarrow> InstallSnapshotResponse" where
  "makeInstallSnapshotResponse p = \<lparr>isr_Term = pbir_Term p, isr_BytesWritten = pbir_BytesWritten p\<rparr>"

lemmas message_defs =
  makeProtoEntries_def makeEntries_def makeProtoRequestVoteRequest_def makeRequestVoteRequest_def
  makeProtoRequestVoteResponse_def makeRequestVoteResponse_def makeProtoAppendEntriesRequest_def
  makeAppendEntriesRequest_def makeProtoAppendEntriesResponse_def makeAppendEntriesResponse_def
  makeProtoInstallSnapshotRequest_def makeInstallSnapshotRequest_def
  makeProtoInstallSnapshotResponse_def makeInstallSnapshotResponse_def

end
