(* ===== verification/Config.thy ===== *)
theory Config
  imports Protobuf "HOL-Library.List_Lexorder" "HOL-Library.Char_ord"
begin

text \<open>
  configuration.go: the members of the cluster, which of them vote, and the log index of the
  configuration. Go maps are finite maps; reading a missing key of \<^verbatim>\<open>map[string]bool\<close> gives
  \<^verbatim>\<open>false\<close>.
\<close>

record Configuration =
  Members :: "(string, string) fmap"
  IsVoter :: "(string, bool) fmap"
  cIndex :: u64

text \<open>The zero value \<^verbatim>\<open>Configuration{}\<close>.\<close>

definition emptyConfiguration :: Configuration where
  "emptyConfiguration = \<lparr>Members = fmempty, IsVoter = fmempty, cIndex = 0\<rparr>"

text \<open>\<^verbatim>\<open>c.IsVoter[id]\<close>\<close>

definition voterFlag :: "Configuration \<Rightarrow> string \<Rightarrow> bool" where
  "voterFlag c i = (fmlookup (IsVoter c) i = Some True)"

definition NewConfiguration :: "u64 \<Rightarrow> (string, string) fmap \<Rightarrow> Configuration" where
  "NewConfiguration index members =
     \<lparr>Members = members, IsVoter = fmmap (\<lambda>_. True) members, cIndex = index\<rparr>"

definition Clone :: "Configuration \<Rightarrow> Configuration" where
  "Clone c = \<lparr>Members = Members c, IsVoter = fmmap_keys (\<lambda>i _. voterFlag c i) (Members c), cIndex = cIndex c\<rparr>"

text \<open>
  \<^verbatim>\<open>String\<close>, for messages; the members in the order of their IDs, one of the orders a Go map may be
  iterated in.
\<close>

definition TrimSuffix :: "string \<Rightarrow> string \<Rightarrow> string" where
  "TrimSuffix s suffix =
     (if length suffix \<le> length s \<and> drop (length s - length suffix) s = suffix then take (length s - length suffix) s else s)"

definition Configuration_String :: "Configuration \<Rightarrow> string" where
  "Configuration_String c =
     (let header = ''logIndex: '' @ decimal (unat (cIndex c)) @ '' members: '';
          member = (\<lambda>nodeID. ''('' @ nodeID @ '', '' @ the (fmlookup (Members c) nodeID) @
            (if voterFlag c nodeID then '', voter),'' else '', non-voter),''))
      in ''{'' @ TrimSuffix (header @ concat (map member (sorted_list_of_fset (fmdom (Members c))))) '','' @ ''}'')"

definition encodeConfiguration :: "pb_Configuration marshal \<Rightarrow> Configuration \<Rightarrow> err + bytes" where
  "encodeConfiguration mar c =
     (case mar \<lparr>pbc_Members = Members c, pbc_IsVoter = IsVoter c, pbc_Index = cIndex c\<rparr> of
        None \<Rightarrow> Inl (Wrapf ''could not marshal protobuf message'' SysErr)
      | Some bs \<Rightarrow> Inr bs)"

definition decodeConfiguration :: "pb_Configuration unmarshal \<Rightarrow> bytes \<Rightarrow> err + Configuration" where
  "decodeConfiguration unmar bs =
     (case unmar bs of
        None \<Rightarrow> Inl (Wrapf ''could not unmarshal protobuf message'' SysErr)
      | Some p \<Rightarrow> Inr \<lparr>Members = pbc_Members p, IsVoter = pbc_IsVoter p, cIndex = pbc_Index p\<rparr>)"

section \<open>Voters and majorities\<close>

definition voters :: "Configuration \<Rightarrow> string fset" where
  "voters c = fmdom (fmfilter (\<lambda>i. voterFlag c i) (IsVoter c))"

text \<open>The count of \<^verbatim>\<open>hasQuorum\<close>: entries of \<^verbatim>\<open>IsVoter\<close> whose value is true.\<close>

definition numVoters :: "Configuration \<Rightarrow> nat" where
  "numVoters c = fcard (voters c)"

text \<open>Every voter is a member: kept by \<^verbatim>\<open>NewConfiguration\<close>, \<^verbatim>\<open>Clone\<close> and the membership changes.\<close>

definition wf_conf :: "Configuration \<Rightarrow> bool" where
  "wf_conf c \<longleftrightarrow> fmdom (IsVoter c) = fmdom (Members c)"

lemma voters_iff: "i |\<in>| voters c \<longleftrightarrow> voterFlag c i"
  by (auto simp: voters_def voterFlag_def fmlookup_dom_iff)

lemma voterFlag_Clone: "voterFlag (Clone c) i \<longleftrightarrow> voterFlag c i \<and> i |\<in>| fmdom (Members c)"
  by (auto simp: voterFlag_def Clone_def fmlookup_dom_iff split: option.splits)

lemma wf_conf_intros:
  "wf_conf (NewConfiguration i ms)" "wf_conf (Clone c)" "wf_conf emptyConfiguration"
  by (auto simp: wf_conf_def NewConfiguration_def Clone_def emptyConfiguration_def)

lemma Clone_members [simp]: "Members (Clone c) = Members c" "cIndex (Clone c) = cIndex c"
  by (simp_all add: Clone_def)

lemma voterFlag_dom: "voterFlag c i \<Longrightarrow> i |\<in>| fmdom (IsVoter c)"
  by (auto simp: voterFlag_def intro: fmdomI)

lemma voters_Clone: "wf_conf c \<Longrightarrow> voters (Clone c) = voters c"
  by (rule fset_eqI) (auto simp: voters_iff voterFlag_Clone wf_conf_def dest: voterFlag_dom)

lemma voters_NewConfiguration: "voters (NewConfiguration i ms) = fmdom ms"
  by (rule fset_eqI) (auto simp: voters_iff voterFlag_def NewConfiguration_def fmlookup_dom_iff)

lemma decode_encode_conf:
  assumes "proto_codec mar unmar" "encodeConfiguration mar c = Inr bs"
  shows "decodeConfiguration unmar bs = Inr c"
  using assms proto_codecD(1)[OF assms(1)]
  by (auto simp: encodeConfiguration_def decodeConfiguration_def split: option.splits)

text \<open>
  A set of voters is a quorum when \<open>count > voters / 2\<close>. The locale states what elections and
  commitment need of quorums; majorities of one configuration provide it, and so do majorities
  of two configurations that differ by one voter.
\<close>

locale quorum_pair =
  fixes quorum1 :: "'a fset \<Rightarrow> bool"
    and quorum2 :: "'a fset \<Rightarrow> bool"
  assumes meet: "quorum1 A \<Longrightarrow> quorum2 B \<Longrightarrow> \<exists>x. x |\<in>| A \<and> x |\<in>| B"
begin

text \<open>Two values each chosen by a quorum, with one choice per participant, are equal.\<close>

lemma agreement:
  assumes "quorum1 A" "quorum2 B" "\<And>x. x |\<in>| A \<Longrightarrow> vote x = a" "\<And>x. x |\<in>| B \<Longrightarrow> vote x = b"
  shows "a = b"
  using meet[OF assms(1,2)] assms(3,4) by blast

end

definition isQuorum :: "Configuration \<Rightarrow> string fset \<Rightarrow> bool" where
  "isQuorum c A \<longleftrightarrow> A |\<subseteq>| voters c \<and> fcard A > numVoters c div 2"

lemma fcard_overlap:
  assumes "A |\<subseteq>| V" "B |\<subseteq>| V" "fcard A + fcard B > fcard V"
  shows "\<exists>x. x |\<in>| A \<and> x |\<in>| B"
proof (rule ccontr)
  assume "\<not> ?thesis"
  then have "fset A \<inter> fset B = {}" by auto
  then have "card (fset A \<union> fset B) = card (fset A) + card (fset B)" by (intro card_Un_disjoint) auto
  moreover have "fset A \<union> fset B \<subseteq> fset V" using assms(1,2) by (auto simp: less_eq_fset.rep_eq)
  then have "card (fset A \<union> fset B) \<le> card (fset V)" by (intro card_mono) auto
  ultimately show False using assms(3) by (simp add: fcard.rep_eq)
qed

interpretation majority: quorum_pair "isQuorum c" "isQuorum c" for c
proof
  fix A B assume "isQuorum c A" "isQuorum c B"
  then show "\<exists>x. x |\<in>| A \<and> x |\<in>| B"
    by (intro fcard_overlap[of A "voters c" B]) (auto simp: isQuorum_def numVoters_def)
qed

end
