(* ===== verification/Transport.thy ===== *)
theory Transport
  imports Messages Config "HOL-Library.List_Lexorder" "HOL-Library.Char_ord"
begin

text \<open>
  transport.go: the connections to other nodes, the calls a node makes and the handlers it registers.
  gRPC is not part of the repository: \<open>dial\<close> stands for \<^verbatim>\<open>grpc.NewClient\<close>, a client for the connection
  it made, and \<open>call\<close> for the remote call, from a client and a protobuf request to the reply or an
  error. A handler is an action on the state \<open>'s\<close> of the node that registered it.
\<close>

section \<open>Connections\<close>

text \<open>\<open>cm_closed\<close> records the connections \<^verbatim>\<open>conn.Close()\<close> was called on.\<close>

record 'c connectionManager =
  connections :: "(string, 'c) fmap"
  clients :: "(string, 'c) fmap"
  cm_closed :: "'c list"

definition newConnectionManager :: "'c connectionManager" where
  "newConnectionManager = \<lparr>connections = fmempty, clients = fmempty, cm_closed = []\<rparr>"

definition getClient :: "(string \<Rightarrow> err + 'c) \<Rightarrow> string \<Rightarrow> ('c connectionManager, 'c) action" where
  "getClient dial addr =
     bindA getA (\<lambda>m.
     case fmlookup (clients m) addr of
       Some client \<Rightarrow> returnA client
     | None \<Rightarrow>
         (case dial addr of
            Inl e \<Rightarrow> raiseA (Error (Wrapf ''could not establish connection'' e))
          | Inr conn \<Rightarrow>
              bindA (modifyA (\<lambda>m. m\<lparr>connections := fmupd addr conn (connections m), clients := fmupd addr conn (clients m)\<rparr>)) (\<lambda>_.
              returnA conn)))"

definition closeOne :: "string \<Rightarrow> 'c connectionManager \<Rightarrow> 'c connectionManager" where
  "closeOne addr m =
     (case fmlookup (connections m) addr of
        None \<Rightarrow> m
      | Some conn \<Rightarrow> m\<lparr>cm_closed := cm_closed m @ [conn], connections := fmdrop addr (connections m), clients := fmdrop addr (clients m)\<rparr>)"

definition closeAll :: "'c connectionManager \<Rightarrow> 'c connectionManager" where
  "closeAll m = fold closeOne (sorted_list_of_fset (fmdom (connections m))) m"

section \<open>The transport\<close>

datatype rpcServer = Serving | Stopped

type_synonym ('s, 'q, 'a) handler = "'q \<Rightarrow> ('s, 'a) action"

record ('s, 'c) transport =
  running :: bool
  t_address :: string
  server :: "rpcServer option"
  appendEntriesHandler :: "('s, AppendEntriesRequest, AppendEntriesResponse) handler option"
  requestVoteHandler :: "('s, RequestVoteRequest, RequestVoteResponse) handler option"
  installSnapshotHandler :: "('s, InstallSnapshotRequest, InstallSnapshotResponse) handler option"
  connManager :: "'c connectionManager"

text \<open>\<open>resolve\<close> is \<^verbatim>\<open>net.ResolveTCPAddr\<close>.\<close>

definition NewTransport :: "(string \<Rightarrow> err + string) \<Rightarrow> string \<Rightarrow> err + ('s, 'c) transport" where
  "NewTransport resolve addr =
     (case resolve addr of
        Inl e \<Rightarrow> Inl (Wrapf ''could not resove tcp address'' e)
      | Inr a \<Rightarrow>
          Inr \<lparr>running = False, t_address = a, server = None, appendEntriesHandler = None, requestVoteHandler = None,
               installSnapshotHandler = None, connManager = newConnectionManager\<rparr>)"

text \<open>\<open>listening\<close> is the outcome of \<^verbatim>\<open>net.Listen\<close>.\<close>

definition Run :: "err option \<Rightarrow> (('s, 'c) transport, unit) action" where
  "Run listening =
     bindA getA (\<lambda>t.
     if running t then returnA ()
     else case listening of
       Some e \<Rightarrow> raiseA (Error (Wrapf ''could not create listener'' e))
     | None \<Rightarrow> modifyA (\<lambda>t. t\<lparr>server := Some Serving, running := True\<rparr>))"

text \<open>
  \<^verbatim>\<open>Shutdown\<close>: whether the graceful stop ends within the grace period or not, the server is stopped, and
  the deferred call closes the connections.
\<close>

definition Transport_Shutdown :: "(('s, 'c) transport, unit) action" where
  "Transport_Shutdown =
     bindA getA (\<lambda>t.
     if \<not> running t then returnA ()
     else
       bindA (modifyA (\<lambda>t. t\<lparr>running := False\<rparr>)) (\<lambda>_.
       modifyA (\<lambda>t. t\<lparr>server := Some Stopped, connManager := closeAll (connManager t)\<rparr>)))"

definition onConnections :: "('c connectionManager, 'a) action \<Rightarrow> (('s, 'c) transport, 'a) action" where
  "onConnections m = zoomA connManager (\<lambda>c t. t\<lparr>connManager := c\<rparr>) m"

definition SendAppendEntries :: "(string \<Rightarrow> err + 'c) \<Rightarrow> ('c \<Rightarrow> pb_AppendEntriesRequest \<Rightarrow> err + pb_AppendEntriesResponse) \<Rightarrow>
    string \<Rightarrow> AppendEntriesRequest \<Rightarrow> (('s, 'c) transport, AppendEntriesResponse) action" where
  "SendAppendEntries dial call addr request =
     bindA getA (\<lambda>t.
     if \<not> running t then raiseA (Error (ErrNew ''could not make AppendEntries RPC: transport is closed''))
     else
       bindA (wrapA ''could not get client connection'' (onConnections (getClient dial addr))) (\<lambda>client.
       case call client (makeProtoAppendEntriesRequest request) of
         Inl e \<Rightarrow> raiseA (Error (Wrapf ''could not make AppendEntries RPC'' e))
       | Inr pbResponse \<Rightarrow> returnA (makeAppendEntriesResponse pbResponse)))"

definition SendRequestVote :: "(string \<Rightarrow> err + 'c) \<Rightarrow> ('c \<Rightarrow> pb_RequestVoteRequest \<Rightarrow> err + pb_RequestVoteResponse) \<Rightarrow>
    string \<Rightarrow> RequestVoteRequest \<Rightarrow> (('s, 'c) transport, RequestVoteResponse) action" where
  "SendRequestVote dial call addr request =
     bindA getA (\<lambda>t.
     if \<not> running t then raiseA (Error (ErrNew ''could not make AppendEntries RPC: transport is closed''))
     else
       bindA (wrapA ''could not get client connection'' (onConnections (getClient dial addr))) (\<lambda>client.
       case call client (makeProtoRequestVoteRequest request) of
         Inl e \<Rightarrow> raiseA (Error (Wrapf ''could not make RequestVote RPC'' e))
       | Inr pbResponse \<Rightarrow> returnA (makeRequestVoteResponse pbResponse)))"

definition SendInstallSnapshot :: "(string \<Rightarrow> err + 'c) \<Rightarrow> ('c \<Rightarrow> pb_InstallSnapshotRequest \<Rightarrow> err + pb_InstallSnapshotResponse) \<Rightarrow>
    string \<Rightarrow> InstallSnapshotRequest \<Rightarrow> (('s, 'c) transport, InstallSnapshotResponse) action" where
  "SendInstallSnapshot dial call addr request =
     bindA getA (\<lambda>t.
     if \<not> running t then raiseA (Error (ErrNew ''could not make AppendEntries RPC: transport is closed''))
     else
       bindA (wrapA ''could not get client connection'' (onConnections (getClient dial addr))) (\<lambda>client.
       case call client (makeProtoInstallSnapshotRequest request) of
         Inl e \<Rightarrow> raiseA (Error (Wrapf ''could not make InstallSnapshot RPC'' e))
       | Inr pbResponse \<Rightarrow> returnA (makeInstallSnapshotResponse pbResponse)))"

definition RegisterAppendEntriesHandler :: "('s, AppendEntriesRequest, AppendEntriesResponse) handler \<Rightarrow> ('s, 'c) transport \<Rightarrow> ('s, 'c) transport" where
  "RegisterAppendEntriesHandler h t = t\<lparr>appendEntriesHandler := Some h\<rparr>"

definition RegisterRequestVoteHandler :: "('s, RequestVoteRequest, RequestVoteResponse) handler \<Rightarrow> ('s, 'c) transport \<Rightarrow> ('s, 'c) transport" where
  "RegisterRequestVoteHandler h t = t\<lparr>requestVoteHandler := Some h\<rparr>"

definition RegsiterInstallSnapshotHandler :: "('s, InstallSnapshotRequest, InstallSnapshotResponse) handler \<Rightarrow> ('s, 'c) transport \<Rightarrow> ('s, 'c) transport" where
  "RegsiterInstallSnapshotHandler h t = t\<lparr>installSnapshotHandler := Some h\<rparr>"

definition EncodeConfiguration :: "pb_Configuration marshal \<Rightarrow> Configuration \<Rightarrow> err + bytes" where
  "EncodeConfiguration mar c = map_sum (Wrapf ''could not encode configuration'') id (encodeConfiguration mar c)"

definition DecodeConfiguration :: "pb_Configuration unmarshal \<Rightarrow> bytes \<Rightarrow> err + Configuration" where
  "DecodeConfiguration unmar bs = map_sum (Wrapf ''could not decode configuration'') id (decodeConfiguration unmar bs)"

definition Address :: "('s, 'c) transport \<Rightarrow> string" where
  "Address t = t_address t"

section \<open>Serving\<close>

text \<open>
  The server's side of a call. The error of a handler becomes a status error of gRPC, whose text is all
  that is left of it; calling a handler that was never registered panics.
\<close>

fun errorText :: "err \<Rightarrow> string" where
  "errorText (ErrNew s) = s"
| "errorText (Wrapf m e) = m @ '': '' @ errorText e"
| "errorText EOF = ''EOF''"
| "errorText UnexpectedEOF = ''unexpected EOF''"
| "errorText ErrNotExist = ''file does not exist''"
| "errorText SysErr = ''system call failed''"

definition statusError :: "err \<Rightarrow> err" where
  "statusError e = ErrNew (''rpc error: code = Unavailable desc = '' @ errorText e)"

definition serve :: "('s, 'q, 'a) handler option \<Rightarrow> 'q \<Rightarrow> ('s, 'a) action" where
  "serve handler request =
     (case handler of
        None \<Rightarrow> raiseA (Panic ''nil pointer dereference'')
      | Some h \<Rightarrow> bindA (tryA (h request)) (\<lambda>res. case res of Inl e \<Rightarrow> raiseA (Error (statusError e)) | Inr a \<Rightarrow> returnA a))"

definition Transport_AppendEntries :: "('s, 'c) transport \<Rightarrow> pb_AppendEntriesRequest \<Rightarrow> ('s, pb_AppendEntriesResponse) action" where
  "Transport_AppendEntries t request =
     bindA (serve (appendEntriesHandler t) (makeAppendEntriesRequest request)) (\<lambda>response.
     returnA (makeProtoAppendEntriesResponse response))"

definition Transport_RequestVote :: "('s, 'c) transport \<Rightarrow> pb_RequestVoteRequest \<Rightarrow> ('s, pb_RequestVoteResponse) action" where
  "Transport_RequestVote t request =
     bindA (serve (requestVoteHandler t) (makeRequestVoteRequest request)) (\<lambda>response.
     returnA (makeProtoRequestVoteResponse response))"

definition Transport_InstallSnapshot :: "('s, 'c) transport \<Rightarrow> pb_InstallSnapshotRequest \<Rightarrow> ('s, pb_InstallSnapshotResponse) action" where
  "Transport_InstallSnapshot t request =
     bindA (serve (installSnapshotHandler t) (makeInstallSnapshotRequest request)) (\<lambda>response.
     returnA (makeProtoInstallSnapshotResponse response))"

end
