(* ===== verification/Ops.thy ===== *)
theory Ops
  imports Prelude
begin

text \<open>
  lease.go, future.go and operation.go: the leader's lease, one-shot futures over buffered
  channels, and the manager of operations that wait for a response. A channel of capacity one
  is an optional value under the channel's number; pointers to operations are numbers too, so
  that \<^verbatim>\<open>map[*Operation]chan\<close> is a finite map from pointers to the operation and its channel.
  The clock is an argument \<open>now\<close>.
\<close>

section \<open>Lease\<close>

record lease =
  expiration :: time
  ls_duration :: duration

definition newLease :: "time \<Rightarrow> duration \<Rightarrow> lease" where
  "newLease now d = \<lparr>expiration = now, ls_duration = d\<rparr>"

definition renew :: "time \<Rightarrow> lease \<Rightarrow> lease" where
  "renew now l = l\<lparr>expiration := now + ls_duration l\<rparr>"

definition isValid :: "time \<Rightarrow> lease \<Rightarrow> bool" where
  "isValid now l \<longleftrightarrow> now < expiration l"

section \<open>Futures\<close>

definition ErrTimeout :: err where
  "ErrTimeout = ErrNew ''a timeout occurred while waiting for the result - try submitting the operation again''"

record 'a result =
  res_success :: 'a
  res_err :: "err option"

type_synonym 'a chans = "nat \<Rightarrow> 'a result option"

record 'a future =
  responseCh :: nat
  fu_timeout :: duration
  fu_response :: "'a result option"

text \<open>The channel made by \<^verbatim>\<open>newFuture\<close> gets the number \<open>c\<close>.\<close>

definition newFuture :: "nat \<Rightarrow> duration \<Rightarrow> 'a future" where
  "newFuture c d = \<lparr>responseCh = c, fu_timeout = d, fu_response = None\<rparr>"

text \<open>
  \<^verbatim>\<open>respond\<close>: a send in a select with a default case. A nil channel (\<open>None\<close>) and a full one take the
  default.
\<close>

definition respond :: "nat option \<Rightarrow> 'a \<Rightarrow> err option \<Rightarrow> 'a chans \<Rightarrow> 'a chans" where
  "respond ch x e cs =
     (case ch of
        None \<Rightarrow> cs
      | Some c \<Rightarrow> if cs c = None then cs(c := Some \<lparr>res_success = x, res_err = e\<rparr>) else cs)"

text \<open>
  \<^verbatim>\<open>Await\<close>: \<open>timer\<close> says which ready case of the select is taken; receiving from an empty channel
  blocks (\<open>None\<close>). \<open>zero\<close> is the zero value of the response type.
\<close>

definition Await :: "'a \<Rightarrow> bool \<Rightarrow> 'a future \<Rightarrow> 'a chans \<Rightarrow> ('a result \<times> 'a future \<times> 'a chans) option" where
  "Await zero timer f cs =
     (case fu_response f of
        Some r \<Rightarrow> Some (r, f, cs)
      | None \<Rightarrow>
          if timer
          then let r = \<lparr>res_success = zero, res_err = Some ErrTimeout\<rparr>
               in Some (r, f\<lparr>fu_response := Some r\<rparr>, cs)
          else (case cs (responseCh f) of
                  None \<Rightarrow> None
                | Some r \<Rightarrow> Some (r, f\<lparr>fu_response := Some r\<rparr>, cs(responseCh f := None))))"

section \<open>Operations\<close>

datatype OperationType = Replicated | LinearizableReadOnly | LeaseBasedReadOnly | OtherOperation nat

definition OperationType_String :: "OperationType \<Rightarrow> exn + string" where
  "OperationType_String t =
     (case t of
        Replicated \<Rightarrow> Inr ''replicated''
      | LinearizableReadOnly \<Rightarrow> Inr ''linearizableReadOnly''
      | LeaseBasedReadOnly \<Rightarrow> Inr ''leaseBasedReadOnly''
      | OtherOperation _ \<Rightarrow> Inl (Panic ''invalid operation type''))"

record Operation =
  op_Bytes :: bytes
  op_Type :: OperationType
  op_LogIndex :: u64
  op_LogTerm :: u64
  op_quorumVerified :: bool
  op_readIndex :: u64

definition zeroOperation :: Operation where
  "zeroOperation = \<lparr>op_Bytes = [], op_Type = Replicated, op_LogIndex = 0, op_LogTerm = 0,
                    op_quorumVerified = False, op_readIndex = 0\<rparr>"

record 'r OperationResponse =
  or_Operation :: Operation
  or_ApplicationResponse :: "'r option"

definition zeroResponse :: "'r OperationResponse" where
  "zeroResponse = \<lparr>or_Operation = zeroOperation, or_ApplicationResponse = None\<rparr>"

record operationManager =
  pendingReadOnly :: "(nat, Operation \<times> nat) fmap"
  pendingReplicated :: "(u64, nat) fmap"
  shouldVerifyQuorum :: bool
  leaderLease :: lease

definition newOperationManager :: "time \<Rightarrow> duration \<Rightarrow> operationManager" where
  "newOperationManager now leaseDuration =
     \<lparr>pendingReadOnly = fmempty, pendingReplicated = fmempty, shouldVerifyQuorum = True,
      leaderLease = newLease now leaseDuration\<rparr>"

definition markAsVerified :: "operationManager \<Rightarrow> operationManager" where
  "markAsVerified m =
     m\<lparr>pendingReadOnly := fmmap (\<lambda>(oper, ch). (oper\<lparr>op_quorumVerified := True\<rparr>, ch)) (pendingReadOnly m),
       shouldVerifyQuorum := True\<rparr>"

definition appliable :: "u64 \<Rightarrow> Operation \<Rightarrow> bool" where
  "appliable applyIndex oper \<longleftrightarrow>
     (op_Type oper = LinearizableReadOnly \<and> op_quorumVerified oper \<and> op_readIndex oper \<le> applyIndex)
     \<or> (op_Type oper = LeaseBasedReadOnly \<and> op_readIndex oper \<le> applyIndex)"

definition isAppliable :: "u64 \<Rightarrow> operationManager \<Rightarrow> nat \<Rightarrow> bool" where
  "isAppliable applyIndex m p =
     (case fmlookup (pendingReadOnly m) p of None \<Rightarrow> False | Some (oper, _) \<Rightarrow> appliable applyIndex oper)"

definition appliableReadOnlyOperations ::
  "u64 \<Rightarrow> operationManager \<Rightarrow> (nat, Operation \<times> nat) fmap \<times> operationManager" where
  "appliableReadOnlyOperations applyIndex m =
     (fmfilter (isAppliable applyIndex m) (pendingReadOnly m),
      m\<lparr>pendingReadOnly := fmfilter (\<lambda>p. \<not> isAppliable applyIndex m p) (pendingReadOnly m)\<rparr>)"

definition ErrNotLeader :: err where
  "ErrNotLeader = ErrNew ''this node is not the leader''"

text \<open>
  \<^verbatim>\<open>respond\<close> to every channel of a set with the same result. The order of a Go map iteration is
  unspecified; \<open>respondAll_fold\<close> shows that it does not matter.
\<close>

definition respondAll :: "nat fset \<Rightarrow> 'a \<Rightarrow> err option \<Rightarrow> 'a chans \<Rightarrow> 'a chans" where
  "respondAll C x e cs =
     (\<lambda>c. if c |\<in>| C \<and> cs c = None then Some \<lparr>res_success = x, res_err = e\<rparr> else cs c)"

definition pendingChannels :: "operationManager \<Rightarrow> nat fset" where
  "pendingChannels m = (snd |`| fmran (pendingReadOnly m)) |\<union>| fmran (pendingReplicated m)"

definition notifyLostLeaderShip ::
  "operationManager \<Rightarrow> 'r OperationResponse chans \<Rightarrow> operationManager \<times> 'r OperationResponse chans" where
  "notifyLostLeaderShip m cs =
     (m\<lparr>pendingReadOnly := fmempty, pendingReplicated := fmempty\<rparr>,
      respondAll (pendingChannels m) zeroResponse (Some ErrNotLeader) cs)"

section \<open>Properties\<close>

lemma respondAll_step: "respondAll C x e (respond (Some c) x e cs) = respondAll (finsert c C) x e cs"
  by (auto simp: respondAll_def respond_def fun_eq_iff)

lemma respondAll_fold: "fold (\<lambda>c. respond (Some c) x e) cl cs = respondAll (fset_of_list cl) x e cs"
proof (induction cl arbitrary: cs)
  case Nil
  show ?case by (simp add: respondAll_def fun_eq_iff)
next
  case (Cons c cl)
  then show ?case by (simp add: respondAll_step)
qed

text \<open>The first response wins; a later one is dropped and nothing blocks.\<close>

lemma respond_first_wins: "respond (Some c) y e' (respond (Some c) x e cs) = respond (Some c) x e cs"
  by (auto simp: respond_def)

lemma respond_other: "c \<noteq> d \<Longrightarrow> respond (Some c) x e cs d = cs d"
  by (simp add: respond_def)

lemma appliable_partition:
  assumes "appliableReadOnlyOperations i m = (ready, m')"
  shows "fmlookup (pendingReadOnly m) p = (case fmlookup ready p of Some v \<Rightarrow> Some v | None \<Rightarrow> fmlookup (pendingReadOnly m') p)"
    "fmlookup ready p = None \<or> fmlookup (pendingReadOnly m') p = None"
  using assms by (auto simp: appliableReadOnlyOperations_def split: option.splits if_splits)

lemma appliable_ready:
  assumes "appliableReadOnlyOperations i m = (ready, m')" "fmlookup ready p = Some (oper, ch)"
  shows "appliable i oper" "fmlookup (pendingReadOnly m) p = Some (oper, ch)"
  using assms by (auto simp: appliableReadOnlyOperations_def isAppliable_def split: if_splits)

end
