(* ===== verification/Node.thy ===== *)
theory Node
  imports LogIface StateStore SnapshotStore Transport Ops
begin

text \<open>
  raft.go: the state of a node and the helpers every handler uses. One definition is one
  function of the source, run under the node's mutex; the functions that release the mutex
  are split where they do. Fields that stand for the Go runtime: \<open>woken\<close> lists the broadcasts
  on condition variables, \<open>spawned\<close> the goroutines started, \<open>cells\<close> the counters those
  goroutines share by pointer, \<open>opChans\<close> and \<open>confChans\<close> the buffered response channels. The
  map \<^verbatim>\<open>followers\<close> holds pointers, which goroutines keep across a remote call: \<open>followers\<close> maps
  an ID to an address and \<open>followerAt\<close> is the heap, with \<open>nextPtr\<close> the next free address. The
  clock is read once per critical section (\<open>now\<close>). Iterations over Go maps run in the order of
  the keys, one of the orders Go may choose. Code outside the repository is in \<open>deps\<close>: the
  protobuf codec and the client's state machine.
\<close>

section \<open>State\<close>

definition ErrInvalidLease :: err where
  "ErrInvalidLease = ErrNew ''this node does not have a valid lease''"
definition ErrPendingConfiguration :: err where
  "ErrPendingConfiguration = ErrNew ''only one membership change may be committed at a time''"
definition ErrNoCommitThisTerm :: err where
  "ErrNoCommitThisTerm = ErrNew ''a log entry has not been committed in this term''"

definition snapshotChunkSize :: int where
  "snapshotChunkSize = 32 * 1024"

datatype State = Leader | Follower | PreCandidate | Candidate | Shutdown

definition State_String :: "State \<Rightarrow> exn + string" where
  "State_String s =
     (case s of
        Leader \<Rightarrow> Inr ''leader''
      | Follower \<Rightarrow> Inr ''follower''
      | Candidate \<Rightarrow> Inr ''candidate''
      | Shutdown \<Rightarrow> Inr ''shutdown''
      | _ \<Rightarrow> Inl (Panic ''invalid state''))"

record Status =
  status_ID :: string
  status_Address :: string
  status_Term :: u64
  status_CommitIndex :: u64
  status_LastApplied :: u64
  status_State :: State

record follower =
  nextIndex :: u64
  matchIndex :: u64
  f_snapshot :: "snapshotFile option"

definition newFollower :: follower where
  "newFollower = \<lparr>nextIndex = 0, matchIndex = 0, f_snapshot = None\<rparr>"

record raftOptions =
  electionTimeout :: duration
  heartbeatInterval :: duration
  leaseDuration :: duration

datatype cond = applyCond | commitCond | readOnlyCond | electionCond | snapshotCond

datatype goroutine =
    GoAppendEntries string string nat
  | GoRequestVote string string nat bool

record ('f, 'r) raft =
  raft_id :: string
  address :: string
  leaderID :: string
  options :: raftOptions
  configuration :: "Configuration option"
  committedConfiguration :: "Configuration option"
  configurationResponseCh :: "nat option"
  followers :: "(string, nat) fmap"
  followerAt :: "nat \<Rightarrow> follower"
  nextPtr :: nat
  manager :: operationManager
  log :: persistentLog
  stateStorage :: persistentStateStorage
  snapshotStorage :: persistentSnapshotStorage
  r_snapshot :: "snapshotFile option"
  fsm :: 'f
  state :: State
  commitIndex :: u64
  lastApplied :: u64
  currentTerm :: u64
  lastIncludedIndex :: u64
  lastIncludedTerm :: u64
  votedFor :: string
  lastContact :: time
  opChans :: "'r OperationResponse chans"
  confChans :: "Configuration chans"
  nextCh :: nat
  nextOp :: nat
  cells :: "nat \<Rightarrow> int"
  nextCell :: nat
  woken :: "cond list"
  spawned :: "goroutine list"

record ('f, 'r) deps =
  marshalEntry :: "pb_LogEntry marshal"
  unmarshalEntry :: "pb_LogEntry unmarshal"
  marshalState :: state_marshal
  unmarshalState :: state_unmarshal
  marshalConf :: "pb_Configuration marshal"
  unmarshalConf :: "pb_Configuration unmarshal"
  fsmApply :: "Operation \<Rightarrow> 'f \<Rightarrow> 'r \<times> 'f"
  fsmSnapshot :: "'f \<Rightarrow> bytes option"
  fsmRestore :: "bytes \<Rightarrow> 'f \<Rightarrow> 'f option"
  fsmNeedSnapshot :: "'f \<Rightarrow> int \<Rightarrow> bool"

type_synonym ('f, 'r, 'a) raftA = "(('f, 'r) raft, 'a) action"

definition broadcast :: "cond \<Rightarrow> ('f, 'r, unit) raftA" where
  "broadcast c = modifyA (\<lambda>r. r\<lparr>woken := woken r @ [c]\<rparr>)"

definition onLog :: "'a logA \<Rightarrow> ('f, 'r, 'a) raftA" where
  "onLog m = zoomA log (\<lambda>l r. r\<lparr>log := l\<rparr>) m"

definition onSnapshots :: "'a snapA \<Rightarrow> ('f, 'r, 'a) raftA" where
  "onSnapshots m = zoomA snapshotStorage (\<lambda>s r. r\<lparr>snapshotStorage := s\<rparr>) m"

text \<open>A read of the log whose error ends the process.\<close>

definition getEntryOrFatal :: "u64 \<Rightarrow> ('f, 'r, LogEntry) raftA" where
  "getEntryOrFatal i = fatalA ''failed to get entry from log'' (readA (\<lambda>r. GetEntry i (log r)))"

definition lastIndexA :: "('f, 'r, u64) raftA" where
  "lastIndexA = readA (\<lambda>r. LastIndex (log r))"

definition lastTermA :: "('f, 'r, u64) raftA" where
  "lastTermA = readA (\<lambda>r. LastTerm (log r))"

definition nextIndexA :: "('f, 'r, u64) raftA" where
  "nextIndexA = readA (\<lambda>r. NextIndex (log r))"

section \<open>Configuration queries\<close>

text \<open>\<^verbatim>\<open>r.configuration\<close> dereferenced: nil panics.\<close>

definition confOf :: "('f, 'r) raft \<Rightarrow> exn + Configuration" where
  "confOf r = (case configuration r of
     None \<Rightarrow> Inl (Panic ''nil pointer dereference'') | Some c \<Rightarrow> Inr c)"

definition hasQuorum :: "int \<Rightarrow> ('f, 'r) raft \<Rightarrow> exn + bool" where
  "hasQuorum count r = map_sum id (\<lambda>c. count > int (numVoters c div 2)) (confOf r)"

definition isVoter :: "string \<Rightarrow> ('f, 'r) raft \<Rightarrow> exn + bool" where
  "isVoter i r = map_sum id (\<lambda>c. voterFlag c i) (confOf r)"

definition isMember :: "string \<Rightarrow> ('f, 'r) raft \<Rightarrow> exn + bool" where
  "isMember i r = map_sum id (\<lambda>c. fmlookup (Members c) i \<noteq> None) (confOf r)"

definition isSingleServerCluster :: "('f, 'r) raft \<Rightarrow> exn + bool" where
  "isSingleServerCluster r =
     map_sum id (\<lambda>c. fcard (fmdom (Members c)) = 1 \<and> voterFlag c (raft_id r)) (confOf r)"

definition pendingConfigurationChange :: "('f, 'r) raft \<Rightarrow> exn + bool" where
  "pendingConfigurationChange r =
     (case committedConfiguration r of
        None \<Rightarrow> Inr True
      | Some cc \<Rightarrow> map_sum id (\<lambda>c. cIndex cc \<noteq> cIndex c) (confOf r))"

definition committedThisTerm :: "('f, 'r) raft \<Rightarrow> exn + bool" where
  "committedThisTerm r =
     (case Contains (commitIndex r) (log r) of
        Inl x \<Rightarrow> Inl x
      | Inr True \<Rightarrow>
          (case GetEntry (commitIndex r) (log r) of
             Inl x \<Rightarrow> Inl (fatalExn ''failed to get entry from log'' x)
           | Inr e \<Rightarrow> Inr (Term e = currentTerm r))
      | Inr False \<Rightarrow> Inr (lastIncludedTerm r = currentTerm r))"

definition GetStatus :: "('f, 'r) raft \<Rightarrow> Status" where
  "GetStatus r =
     \<lparr>status_ID = raft_id r, status_Address = address r, status_Term = currentTerm r,
      status_CommitIndex = commitIndex r, status_LastApplied = lastApplied r, status_State = state r\<rparr>"

definition GetConfiguration :: "('f, 'r) raft \<Rightarrow> Configuration" where
  "GetConfiguration r = (case configuration r of None \<Rightarrow> emptyConfiguration | Some c \<Rightarrow> Clone c)"

section \<open>Persistence and snapshot files\<close>

definition persistTermAndVote :: "('f, 'r) deps \<Rightarrow> ('f, 'r, unit) raftA" where
  "persistTermAndVote D =
     fatalA ''failed to persist term and vote''
       (bindA getA (\<lambda>r. zoomA stateStorage (\<lambda>s r. r\<lparr>stateStorage := s\<rparr>)
          (SetState (marshalState D) (currentTerm r) (votedFor r))))"

definition updFollower :: "nat \<Rightarrow> (follower \<Rightarrow> follower) \<Rightarrow> ('f, 'r) raft \<Rightarrow> ('f, 'r) raft" where
  "updFollower p f r = r\<lparr>followerAt := (followerAt r)(p := f (followerAt r p))\<rparr>"

text \<open>\<^verbatim>\<open>r.followers[id] = &follower{...}\<close>\<close>

definition addFollower :: "follower \<Rightarrow> string \<Rightarrow> ('f, 'r) raft \<Rightarrow> ('f, 'r) raft" where
  "addFollower f i r = r\<lparr>followers := fmupd i (nextPtr r) (followers r),
     followerAt := (followerAt r)(nextPtr r := f), nextPtr := Suc (nextPtr r)\<rparr>"

definition followerPtrs :: "('f, 'r) raft \<Rightarrow> nat list" where
  "followerPtrs r = map (\<lambda>i. the (fmlookup (followers r) i)) (sorted_list_of_fset (fmdom (followers r)))"

fun closeFollowerSnapshots :: "nat list \<Rightarrow> ('f, 'r, unit) raftA" where
  "closeFollowerSnapshots [] = returnA ()"
| "closeFollowerSnapshots (p # ps) = bindA getA (\<lambda>r.
     case f_snapshot (followerAt r p) of
       None \<Rightarrow> closeFollowerSnapshots ps
     | Some s \<Rightarrow>
         bindA (fatalA ''failed to close snapshot file'' (onSnapshots (SF_Close s))) (\<lambda>_.
         bindA (modifyA (updFollower p (\<lambda>f. f\<lparr>f_snapshot := None\<rparr>))) (\<lambda>_.
         closeFollowerSnapshots ps)))"

definition resetSnapshotFiles :: "('f, 'r, unit) raftA" where
  "resetSnapshotFiles = bindA getA (\<lambda>r.
     bindA (closeFollowerSnapshots (followerPtrs r)) (\<lambda>_.
     bindA getA (\<lambda>r.
     case r_snapshot r of
       None \<Rightarrow> returnA ()
     | Some s \<Rightarrow>
         bindA (fatalA ''failed to discard snapshot file'' (onSnapshots (SF_Discard s))) (\<lambda>_.
         modifyA (\<lambda>r. r\<lparr>r_snapshot := None\<rparr>)))))"

section \<open>Role transitions\<close>

definition becomeCandidate :: "('f, 'r) deps \<Rightarrow> ('f, 'r, unit) raftA" where
  "becomeCandidate D =
     bindA (modifyA (\<lambda>r. r\<lparr>state := Candidate, currentTerm := currentTerm r + 1, votedFor := raft_id r\<rparr>)) (\<lambda>_.
     persistTermAndVote D)"

definition becomePreCandidate :: "('f, 'r, unit) raftA" where
  "becomePreCandidate = modifyA (\<lambda>r. r\<lparr>state := PreCandidate\<rparr>)"

text \<open>\<^verbatim>\<open>notifyLostLeaderShip\<close> followed by a new operation manager.\<close>

definition cancelOperations :: "time \<Rightarrow> ('f, 'r, unit) raftA" where
  "cancelOperations now = modifyA (\<lambda>r.
     r\<lparr>opChans := snd (notifyLostLeaderShip (manager r) (opChans r)),
       manager := newOperationManager now (leaseDuration (options r))\<rparr>)"

definition becomeFollower :: "('f, 'r) deps \<Rightarrow> time \<Rightarrow> string \<Rightarrow> u64 \<Rightarrow> ('f, 'r, unit) raftA" where
  "becomeFollower D now leader trm =
     bindA (modifyA (\<lambda>r. r\<lparr>state := Follower, currentTerm := trm, leaderID := leader, votedFor := ''''\<rparr>)) (\<lambda>_.
     bindA (persistTermAndVote D) (\<lambda>_.
     bindA resetSnapshotFiles (\<lambda>_.
     cancelOperations now)))"

definition stepdown :: "time \<Rightarrow> ('f, 'r, unit) raftA" where
  "stepdown now =
     bindA (modifyA (\<lambda>r. r\<lparr>state := Follower\<rparr>)) (\<lambda>_. cancelOperations now)"

definition tryApplyReadOnlyOperations :: "time \<Rightarrow> ('f, 'r, unit) raftA" where
  "tryApplyReadOnlyOperations now =
     bindA (modifyA (\<lambda>r. r\<lparr>manager := (markAsVerified (manager r))
        \<lparr>leaderLease := renew now (leaderLease (manager r)), shouldVerifyQuorum := True\<rparr>\<rparr>)) (\<lambda>_.
     broadcast readOnlyCond)"

text \<open>A counter shared with the goroutines of one round.\<close>

definition newCell :: "int \<Rightarrow> ('f, 'r, nat) raftA" where
  "newCell v = bindA getA (\<lambda>r.
     bindA (modifyA (\<lambda>r. r\<lparr>cells := (cells r)(nextCell r := v), nextCell := Suc (nextCell r)\<rparr>)) (\<lambda>_.
     returnA (nextCell r)))"

definition peers :: "('f, 'r) raft \<Rightarrow> Configuration \<Rightarrow> (string \<times> string) list" where
  "peers r c = map (\<lambda>i. (i, the (fmlookup (Members c) i)))
     (filter (\<lambda>i. i \<noteq> raft_id r) (sorted_list_of_fset (fmdom (Members c))))"

definition sendAppendEntriesToPeers :: "time \<Rightarrow> ('f, 'r, unit) raftA" where
  "sendAppendEntriesToPeers now =
     bindA (readA isSingleServerCluster) (\<lambda>single.
     bindA (whenA single
       (bindA lastIndexA (\<lambda>li.
        bindA getA (\<lambda>r.
        bindA (whenA (li > commitIndex r) (broadcast commitCond)) (\<lambda>_.
        tryApplyReadOnlyOperations now))))) (\<lambda>_.
     bindA (newCell 1) (\<lambda>numResponses.
     bindA (readA confOf) (\<lambda>c.
     modifyA (\<lambda>r. r\<lparr>spawned := spawned r @
       map (\<lambda>(i, a). GoAppendEntries i a numResponses) (peers r c)\<rparr>)))))"

definition becomeLeader :: "('f, 'r) deps \<Rightarrow> time \<Rightarrow> ('f, 'r, unit) raftA" where
  "becomeLeader D now =
     bindA (modifyA (\<lambda>r. r\<lparr>state := Leader, manager := newOperationManager now (leaseDuration (options r))\<rparr>)) (\<lambda>_.
     bindA lastIndexA (\<lambda>li.
     bindA (modifyA (\<lambda>r. r\<lparr>followerAt := (\<lambda>p.
       if p |\<in>| fmran (followers r) then (followerAt r p)\<lparr>nextIndex := li + 1, matchIndex := 0\<rparr>
       else followerAt r p)\<rparr>)) (\<lambda>_.
     bindA resetSnapshotFiles (\<lambda>_.
     bindA nextIndexA (\<lambda>ni.
     bindA getA (\<lambda>r.
     bindA (fatalA ''failed to append entry to log''
       (onLog (AppendEntry (marshalEntry D) (NewLogEntry ni (currentTerm r) [] NoOpEntry)))) (\<lambda>_.
     sendAppendEntriesToPeers now)))))))"

section \<open>Configuration changes\<close>

definition r_encodeConfiguration :: "('f, 'r) deps \<Rightarrow> Configuration \<Rightarrow> exn + bytes" where
  "r_encodeConfiguration D c =
     (case EncodeConfiguration (marshalConf D) c of
        Inl _ \<Rightarrow> Inl (Fatal ''failed to encode configuration'') | Inr bs \<Rightarrow> Inr bs)"

definition r_decodeConfiguration :: "('f, 'r) deps \<Rightarrow> bytes \<Rightarrow> exn + Configuration" where
  "r_decodeConfiguration D bs =
     (case DecodeConfiguration (unmarshalConf D) bs of
        Inl _ \<Rightarrow> Inl (Fatal ''failed to decode configuration'') | Inr c \<Rightarrow> Inr c)"

definition nextFollowers :: "Configuration \<Rightarrow> Configuration \<Rightarrow> ('f, 'r) raft \<Rightarrow> ('f, 'r) raft" where
  "nextFollowers cur nxt r =
     fold (addFollower newFollower) (sorted_list_of_fset (fmdom (Members nxt) |-| fmdom (Members cur)))
       (r\<lparr>followers := fmfilter (\<lambda>i. i |\<in>| fmdom (Members cur) \<longrightarrow> i |\<in>| fmdom (Members nxt)) (followers r)\<rparr>)"

definition nextConfiguration :: "time \<Rightarrow> Configuration option \<Rightarrow> ('f, 'r, unit) raftA" where
  "nextConfiguration now nxt =
     (case nxt of
        None \<Rightarrow> raiseA (Panic ''nil pointer dereference'')
      | Some c \<Rightarrow>
          bindA getA (\<lambda>r.
          bindA (whenA (raft_id r |\<notin>| fmdom (Members c))
            (bindA (whenA (state r = Leader) (stepdown now)) (\<lambda>_. resetSnapshotFiles))) (\<lambda>_.
          bindA (readA confOf) (\<lambda>cur.
          bindA (modifyA (nextFollowers cur c)) (\<lambda>_.
          modifyA (\<lambda>r. r\<lparr>configuration := Some c\<rparr>))))))"

definition applyConfiguration :: "('f, 'r) deps \<Rightarrow> time \<Rightarrow> bytes \<Rightarrow> ('f, 'r, unit) raftA" where
  "applyConfiguration D now dat =
     bindA (readA (\<lambda>_. r_decodeConfiguration D dat)) (\<lambda>c.
     bindA getA (\<lambda>r.
     if (case committedConfiguration r of None \<Rightarrow> False | Some cc \<Rightarrow> cIndex c \<le> cIndex cc) then returnA ()
     else
       bindA (nextConfiguration now (Some c)) (\<lambda>_.
       modifyA (\<lambda>r. r\<lparr>committedConfiguration := Some c\<rparr>))))"

text \<open>\<^verbatim>\<open>appendConfiguration\<close> sets the index through the pointer; the model returns the configuration.\<close>

definition appendConfiguration :: "('f, 'r) deps \<Rightarrow> Configuration \<Rightarrow> ('f, 'r, Configuration) raftA" where
  "appendConfiguration D c =
     bindA nextIndexA (\<lambda>ni.
     let c' = c\<lparr>cIndex := ni\<rparr> in
     bindA (readA (\<lambda>_. r_encodeConfiguration D c')) (\<lambda>dat.
     bindA getA (\<lambda>r.
     bindA (fatalA ''failed to append entry to log''
       (onLog (AppendEntry (marshalEntry D) (NewLogEntry ni (currentTerm r) dat ConfigurationEntry)))) (\<lambda>_.
     returnA c'))))"

end
