(* ===== verification/Handlers.thy ===== *)
theory Handlers
  imports Node
begin

text \<open>
  The three RPC handlers of raft.go. A handler runs under the mutex; a returned Go error is
  \<open>Error\<close>, and the response is the value. \<^verbatim>\<open>InstallSnapshot\<close> gives the mutex up twice, so it is a
  first part that says how it goes on, and one definition for each continuation.
\<close>

section \<open>AppendEntries\<close>

text \<open>\<^verbatim>\<open>for ; index > r.lastIncludedIndex; index--\<close>: the first index of the conflicting term.\<close>

function conflictIndex :: "u64 \<Rightarrow> u64 \<Rightarrow> u64 \<Rightarrow> persistentLog \<Rightarrow> exn + u64" where
  "conflictIndex trm lo index l =
     (if index > lo then
        case GetEntry index l of
          Inl x \<Rightarrow> Inl (fatalExn ''failed to get entry from log'' x)
        | Inr entry \<Rightarrow> if Term entry \<noteq> trm then Inr index else conflictIndex trm lo (index - 1) l
      else Inr index)"
  by pat_completeness auto
termination
  by (relation "measure (\<lambda>(trm, lo, index, l). unat index)") (auto simp: word_less_nat_alt unat_diff_le word_le_nat_alt)

declare conflictIndex.simps [simp del]

text \<open>
  The consistency checks on the previous entry: \<open>Some i\<close> rejects with the index \<open>i\<close>, \<open>None\<close> goes on.
\<close>

definition checkPrevious :: "AppendEntriesRequest \<Rightarrow> ('f, 'r, u64 option) raftA" where
  "checkPrevious req =
     bindA getA (\<lambda>r.
     if lastIncludedIndex r > ae_PrevLogIndex req then returnA (Some (lastIncludedIndex r + 1))
     else
       bindA nextIndexA (\<lambda>ni.
       if ni \<le> ae_PrevLogIndex req then returnA (Some ni)
       else if lastIncludedIndex r = ae_PrevLogIndex req \<and> lastIncludedTerm r \<noteq> ae_PrevLogTerm req
       then returnA (Some (lastIncludedIndex r))
       else if lastIncludedIndex r < ae_PrevLogIndex req then
         bindA (getEntryOrFatal (ae_PrevLogIndex req)) (\<lambda>prev.
         if Term prev \<noteq> ae_PrevLogTerm req then
           bindA (readA (\<lambda>r. conflictIndex (Term prev) (lastIncludedIndex r) (ae_PrevLogIndex req - 1) (log r)))
             (\<lambda>index. returnA (Some (index + 1)))
         else returnA None)
       else returnA None))"

text \<open>
  The loop over the entries of the request: it skips what the log has already, truncates the
  log at the first conflict and returns the entries to append.
\<close>

fun mergeEntries :: "time \<Rightarrow> LogEntry list \<Rightarrow> ('f, 'r, LogEntry list) raftA" where
  "mergeEntries now [] = returnA []"
| "mergeEntries now (entry # es) =
     bindA lastIndexA (\<lambda>li.
     if li < Index entry then returnA (entry # es)
     else
       bindA (getEntryOrFatal (Index entry)) (\<lambda>existing.
       if \<not> IsConflict existing entry then mergeEntries now es
       else
         bindA (fatalA ''failed to truncate log'' (onLog (Truncate (Index entry)))) (\<lambda>_.
         bindA (readA confOf) (\<lambda>c.
         bindA getA (\<lambda>r.
         bindA (whenA (Index entry \<le> cIndex c) (nextConfiguration now (committedConfiguration r))) (\<lambda>_.
         returnA (entry # es)))))))"

text \<open>The part of the handler after the checks: the log and the commit index are updated.\<close>

definition acceptEntries :: "('f, 'r) deps \<Rightarrow> time \<Rightarrow> AppendEntriesRequest \<Rightarrow> ('f, 'r, unit) raftA" where
  "acceptEntries D now req =
     bindA (mergeEntries now (ae_Entries req)) (\<lambda>toAppend.
     bindA (fatalA ''failed to append entries to log'' (onLog (Log_AppendEntries (marshalEntry D) toAppend))) (\<lambda>_.
     bindA getA (\<lambda>r.
     whenA (ae_LeaderCommit req > commitIndex r)
       (bindA lastIndexA (\<lambda>li.
        bindA (modifyA (\<lambda>r. r\<lparr>commitIndex := Min (ae_LeaderCommit req) li\<rparr>)) (\<lambda>_.
        broadcast applyCond))))))"

text \<open>
  What \<^verbatim>\<open>AppendEntries\<close> does with the term: a larger one is adopted, and a candidate that hears from
  the leader of its term becomes a follower.
\<close>

definition recognizeLeader :: "('f, 'r) deps \<Rightarrow> time \<Rightarrow> string \<Rightarrow> u64 \<Rightarrow> ('f, 'r, unit) raftA" where
  "recognizeLeader D now leader trm =
     bindA getA (\<lambda>r.
     bindA (whenA (trm > currentTerm r) (becomeFollower D now leader trm)) (\<lambda>_.
     bindA getA (\<lambda>r.
     whenA (trm = currentTerm r \<and> (state r = Candidate \<or> state r = PreCandidate))
       (becomeFollower D now leader trm))))"

definition AppendEntries :: "('f, 'r) deps \<Rightarrow> time \<Rightarrow> AppendEntriesRequest \<Rightarrow> ('f, 'r, AppendEntriesResponse) raftA" where
  "AppendEntries D now req =
     bindA getA (\<lambda>r.
     if state r = Shutdown then
       raiseA (Error (ErrNew (''could not execute RequestVote RPC: '' @ raft_id r @ '' is shutdown'')))
     else if ae_Term req < currentTerm r then
       returnA \<lparr>aer_Term = currentTerm r, aer_Success = False, aer_Index = 0\<rparr>
     else
       bindA (modifyA (\<lambda>r. r\<lparr>lastContact := now, leaderID := ae_LeaderID req\<rparr>)) (\<lambda>_.
       bindA (recognizeLeader D now (ae_LeaderID req) (ae_Term req)) (\<lambda>_.
       bindA getA (\<lambda>r.
       bindA (checkPrevious req) (\<lambda>rejected.
       case rejected of
         Some index \<Rightarrow> returnA \<lparr>aer_Term = currentTerm r, aer_Success = False, aer_Index = index\<rparr>
       | None \<Rightarrow>
           bindA (acceptEntries D now req) (\<lambda>_.
           returnA \<lparr>aer_Term = currentTerm r, aer_Success = True, aer_Index = 0\<rparr>))))))"

section \<open>RequestVote\<close>

definition logUpToDate :: "RequestVoteRequest \<Rightarrow> ('f, 'r, bool) raftA" where
  "logUpToDate req =
     bindA lastTermA (\<lambda>lt. bindA lastIndexA (\<lambda>li.
     returnA (\<not> (rv_LastLogTerm req < lt \<or> (rv_LastLogTerm req = lt \<and> li > rv_LastLogIndex req)))))"

definition RequestVote :: "('f, 'r) deps \<Rightarrow> time \<Rightarrow> RequestVoteRequest \<Rightarrow> ('f, 'r, RequestVoteResponse) raftA" where
  "RequestVote D now req =
     bindA getA (\<lambda>r.
     if state r = Shutdown then
       raiseA (Error (ErrNew (''could not execute RequestVote RPC: '' @ raft_id r @ '' is shutdown'')))
     else if isValid now (leaderLease (manager r)) \<or> now - lastContact r < electionTimeout (options r) then
       returnA \<lparr>rvr_Term = currentTerm r, rvr_VoteGranted = False\<rparr>
     else if rv_Term req < currentTerm r then
       returnA \<lparr>rvr_Term = currentTerm r, rvr_VoteGranted = False\<rparr>
     else
       bindA (whenA (\<not> rv_Prevote req \<and> rv_Term req > currentTerm r)
         (becomeFollower D now (rv_CandidateID req) (rv_Term req))) (\<lambda>_.
       bindA getA (\<lambda>r.
       if \<not> rv_Prevote req \<and> votedFor r \<noteq> '''' \<and> votedFor r \<noteq> rv_CandidateID req then
         returnA \<lparr>rvr_Term = currentTerm r, rvr_VoteGranted = False\<rparr>
       else
         bindA (logUpToDate req) (\<lambda>ok.
         if \<not> ok then returnA \<lparr>rvr_Term = currentTerm r, rvr_VoteGranted = False\<rparr>
         else
           bindA (whenA (\<not> rv_Prevote req)
             (bindA (modifyA (\<lambda>r. r\<lparr>lastContact := now, votedFor := rv_CandidateID req\<rparr>)) (\<lambda>_.
              persistTermAndVote D))) (\<lambda>_.
           returnA \<lparr>rvr_Term = currentTerm r, rvr_VoteGranted = True\<rparr>)))))"

section \<open>InstallSnapshot\<close>

text \<open>
  How \<^verbatim>\<open>InstallSnapshot\<close> goes on: it replies, it waits for the entries up to the snapshot to be
  applied, or it restores the state machine from the snapshot, without the mutex.
\<close>

datatype installNext =
    ISReply InstallSnapshotResponse
  | ISWaitApplied InstallSnapshotResponse
  | ISRestore InstallSnapshotResponse "snapshotFile option"

definition openSnapshot :: "('f, 'r, snapshotFile) raftA" where
  "openSnapshot = readA (\<lambda>r. case r_snapshot r of
     None \<Rightarrow> Inl (Panic ''nil pointer dereference'') | Some s \<Rightarrow> Inr s)"

text \<open>The received snapshot is complete: close it and choose the continuation.\<close>

definition completeSnapshot :: "InstallSnapshotRequest \<Rightarrow> InstallSnapshotResponse \<Rightarrow> ('f, 'r, installNext) raftA" where
  "completeSnapshot req res =
     bindA openSnapshot (\<lambda>s.
     bindA (fatalA ''failed to close snapshot file'' (onSnapshots (SF_Close s))) (\<lambda>_.
     bindA (modifyA (\<lambda>r. r\<lparr>r_snapshot := None, lastIncludedIndex := is_LastIncludedIndex req,
       lastIncludedTerm := is_LastIncludedTerm req\<rparr>)) (\<lambda>_.
     bindA (tryA (readA (\<lambda>r. GetEntry (is_LastIncludedIndex req) (log r)))) (\<lambda>e.
     if (case e of Inl _ \<Rightarrow> False | Inr entry \<Rightarrow> Term entry = is_LastIncludedTerm req)
     then returnA (ISWaitApplied res)
     else bindA (fatalA ''failed to get snapshot file'' (onSnapshots SnapshotFile)) (\<lambda>snapshot.
          returnA (ISRestore res snapshot))))))"

text \<open>The chunk is written if its offset is the expected one.\<close>

definition receiveChunk :: "time \<Rightarrow> InstallSnapshotRequest \<Rightarrow> u64 \<Rightarrow> ('f, 'r, installNext) raftA" where
  "receiveChunk now req trm =
     bindA getA (\<lambda>r.
     bindA (case r_snapshot r of
         None \<Rightarrow> returnA ()
       | Some s \<Rightarrow> whenA (md_LastIncludedIndex (SF_Metadata s) < is_LastIncludedIndex req)
           (bindA (fatalA ''failed to discard snapshot'' (onSnapshots (SF_Discard s))) (\<lambda>_.
            modifyA (\<lambda>r. r\<lparr>r_snapshot := None\<rparr>)))) (\<lambda>_.
     bindA getA (\<lambda>r.
     bindA (whenA (r_snapshot r = None)
       (bindA (fatalA ''failed to create snapshot file'' (onSnapshots
          (NewSnapshotFile now (is_LastIncludedIndex req) (is_LastIncludedTerm req) (is_Configuration req)))) (\<lambda>s.
        modifyA (\<lambda>r. r\<lparr>r_snapshot := Some s\<rparr>)))) (\<lambda>_.
     bindA openSnapshot (\<lambda>s.
     bindA (fatalA ''failed to seek snapshot file'' (onSnapshots (SF_SeekCurrent s))) (\<lambda>offset.
     if is_Offset req \<noteq> offset then returnA (ISReply \<lparr>isr_Term = trm, isr_BytesWritten = offset\<rparr>)
     else
       bindA (fatalA ''failed to write snapshot file'' (onSnapshots (SF_Write (is_Bytes req) s))) (\<lambda>s.
       bindA (modifyA (\<lambda>r. r\<lparr>r_snapshot := Some s\<rparr>)) (\<lambda>_.
       let res = \<lparr>isr_Term = trm, isr_BytesWritten = offset + int (length (is_Bytes req))\<rparr> in
       if \<not> is_Done req then returnA (ISReply res)
       else completeSnapshot req res))))))))"

definition InstallSnapshot :: "('f, 'r) deps \<Rightarrow> time \<Rightarrow> InstallSnapshotRequest \<Rightarrow> ('f, 'r, installNext) raftA" where
  "InstallSnapshot D now req =
     bindA getA (\<lambda>r.
     if state r = Shutdown then
       raiseA (Error (ErrNew (''could not execute InstallSnapshot RPC: '' @ raft_id r @ '' is shutdown'')))
     else if currentTerm r > is_Term req then
       returnA (ISReply \<lparr>isr_Term = currentTerm r, isr_BytesWritten = 0\<rparr>)
     else
       bindA (recognizeLeader D now (is_LeaderID req) (is_Term req)) (\<lambda>_.
       bindA (modifyA (\<lambda>r. r\<lparr>lastContact := now\<rparr>)) (\<lambda>_.
       bindA getA (\<lambda>r.
       if lastIncludedIndex r \<ge> is_LastIncludedIndex req \<or> lastApplied r \<ge> is_LastIncludedIndex req
       then returnA (ISReply \<lparr>isr_Term = currentTerm r, isr_BytesWritten = 0\<rparr>)
       else receiveChunk now req (currentTerm r)))))"

text \<open>
  After waiting: \<open>None\<close> waits again, the log is compacted unless a newer snapshot did it.
\<close>

definition installCompact :: "('f, 'r) deps \<Rightarrow> InstallSnapshotRequest \<Rightarrow> InstallSnapshotResponse \<Rightarrow>
    ('f, 'r, InstallSnapshotResponse option) raftA" where
  "installCompact D req res =
     bindA getA (\<lambda>r.
     if state r \<noteq> Shutdown \<and> lastApplied r < is_LastIncludedIndex req then returnA None
     else if state r = Shutdown \<or> lastIncludedIndex r > is_LastIncludedIndex req then returnA (Some res)
     else
       bindA (fatalA ''failed to compact log'' (onLog (Compact (marshalEntry D) (is_LastIncludedIndex req)))) (\<lambda>_.
       returnA (Some res)))"

text \<open>Restoring the state machine, without the mutex.\<close>

definition installRestore :: "('f, 'r) deps \<Rightarrow> snapshotFile option \<Rightarrow> ('f, 'r, unit) raftA" where
  "installRestore D snapshot =
     (case snapshot of
        None \<Rightarrow> raiseA (Panic ''nil pointer dereference'')
      | Some s \<Rightarrow>
          bindA (fatalA ''failed to restore state machine with snapshot'' (onSnapshots (SF_ReadAll s))) (\<lambda>(bs, s).
          bindA getA (\<lambda>r.
          bindA (case fsmRestore D bs (fsm r) of
              None \<Rightarrow> raiseA (Fatal ''failed to restore state machine with snapshot'')
            | Some f \<Rightarrow> modifyA (\<lambda>r. r\<lparr>fsm := f\<rparr>)) (\<lambda>_.
          bindA (fatalA ''failed to close snapshot file'' (onSnapshots (SF_Close s))) (\<lambda>_.
          returnA ())))))"

text \<open>With the mutex again: the log is discarded and the configuration applied.\<close>

definition installFinish :: "('f, 'r) deps \<Rightarrow> time \<Rightarrow> InstallSnapshotRequest \<Rightarrow> ('f, 'r, unit) raftA" where
  "installFinish D now req =
     bindA getA (\<lambda>r.
     if state r = Shutdown then returnA ()
     else
       bindA (modifyA (\<lambda>r. r\<lparr>lastApplied := is_LastIncludedIndex req, commitIndex := is_LastIncludedIndex req\<rparr>)) (\<lambda>_.
       bindA (fatalA ''failed to discard log entries''
         (onLog (DiscardEntries (marshalEntry D) (is_LastIncludedIndex req) (is_LastIncludedTerm req)))) (\<lambda>_.
       applyConfiguration D now (is_Configuration req))))"

end
