(* ===== verification/Replication.thy ===== *)
theory Replication
  imports Handlers
begin

text \<open>
  The leader's side of log replication in raft.go: \<^verbatim>\<open>sendAppendEntries\<close> and
  \<^verbatim>\<open>sendInstallSnapshot\<close>, each cut at the remote call into the part that builds the request and
  the part that handles the response, \<^verbatim>\<open>heartbeatLoop\<close> and \<^verbatim>\<open>commitLoop\<close>. The follower pointer
  a goroutine holds across the call is the address returned with the request.
\<close>

section \<open>Sending snapshots\<close>

definition followerPtr :: "string \<Rightarrow> ('f, 'r) raft \<Rightarrow> exn + nat" where
  "followerPtr i r = (case fmlookup (followers r) i of
     None \<Rightarrow> Inl (Panic ''nil pointer dereference'') | Some p \<Rightarrow> Inr p)"

definition followerSnapshot :: "nat \<Rightarrow> ('f, 'r, snapshotFile) raftA" where
  "followerSnapshot p = readA (\<lambda>r. case f_snapshot (followerAt r p) of
     None \<Rightarrow> Inl (Panic ''nil pointer dereference'') | Some s \<Rightarrow> Inr s)"

text \<open>A chunk is read from the file; \<open>None\<close>: there is nothing to send.\<close>

definition sendInstallSnapshot_request :: "string \<Rightarrow> ('f, 'r, (nat \<times> InstallSnapshotRequest) option) raftA" where
  "sendInstallSnapshot_request i =
     bindA getA (\<lambda>r.
     if state r \<noteq> Leader \<or> lastIncludedIndex r = 0 then returnA None
     else
       bindA (readA (followerPtr i)) (\<lambda>p.
       bindA (whenA (f_snapshot (followerAt r p) = None)
         (bindA (fatalA ''failed to get snapshot file'' (onSnapshots SnapshotFile)) (\<lambda>s.
          modifyA (updFollower p (\<lambda>f. f\<lparr>f_snapshot := s\<rparr>))))) (\<lambda>_.
       bindA (followerSnapshot p) (\<lambda>s.
       bindA (fatalA ''failed to seek snapshot file'' (onSnapshots (SF_SeekCurrent s))) (\<lambda>offset.
       bindA (fatalA ''failed to read snapshot file'' (onSnapshots (SF_ReadAll s))) (\<lambda>(bs, s').
       bindA (modifyA (updFollower p (\<lambda>f. f\<lparr>f_snapshot := Some s'\<rparr>))) (\<lambda>_.
       let metadata = SF_Metadata s in
       returnA (Some (p,
         \<lparr>is_LeaderID = raft_id r, is_Term = currentTerm r,
          is_LastIncludedIndex = md_LastIncludedIndex metadata,
          is_LastIncludedTerm = md_LastIncludedTerm metadata,
          is_Configuration = md_Configuration metadata,
          is_Bytes = bs, is_Offset = offset,
          is_Done = (int (length bs) < snapshotChunkSize)\<rparr>)))))))))"

definition sendInstallSnapshot_response :: "('f, 'r) deps \<Rightarrow> time \<Rightarrow> string \<Rightarrow> nat \<Rightarrow> InstallSnapshotRequest \<Rightarrow>
    err + InstallSnapshotResponse \<Rightarrow> ('f, 'r, unit) raftA" where
  "sendInstallSnapshot_response D now i p req reply =
     bindA getA (\<lambda>r.
     case (f_snapshot (followerAt r p), reply) of
       (Some s, Inr res) \<Rightarrow>
         if isr_Term res > currentTerm r then becomeFollower D now i (isr_Term res)
         else if isr_BytesWritten res \<noteq> is_Offset req then
           bindA (fatalA ''failed to seek snapshot file'' (onSnapshots (SF_SeekStart (isr_BytesWritten res) s))) (\<lambda>s'.
           modifyA (updFollower p (\<lambda>f. f\<lparr>f_snapshot := Some s'\<rparr>)))
         else if \<not> is_Done req then returnA ()
         else
           bindA (fatalA ''failed to close snapshot file'' (onSnapshots (SF_Close s))) (\<lambda>_.
           modifyA (updFollower p (\<lambda>f. f\<lparr>f_snapshot := None, matchIndex := is_LastIncludedIndex req,
                                          nextIndex := is_LastIncludedIndex req + 1\<rparr>)))
     | _ \<Rightarrow> returnA ())"

section \<open>Sending entries\<close>

text \<open>
  What a round of \<^verbatim>\<open>sendAppendEntries\<close> sends: nothing, a snapshot, or entries. The follower pointer
  is kept for the response.
\<close>

datatype aeCall =
    AeNone
  | AeSnapshot nat InstallSnapshotRequest
  | AeEntries nat AppendEntriesRequest

text \<open>
  \<^verbatim>\<open>make([]*LogEntry, 0, n)\<close> panics when \<open>n\<close> pointers of eight bytes exceed the 48-bit address
  space: in particular when \<^verbatim>\<open>NextIndex() - nextIndex\<close> is negative and wraps.
\<close>

definition makeEntriesSlice :: "u64 \<Rightarrow> ('f, 'r, unit) raftA" where
  "makeEntriesSlice n =
     (if n > 2 ^ 45 then raiseA (Panic ''makeslice: cap out of range'') else returnA ())"

fun readEntries :: "u64 list \<Rightarrow> ('f, 'r, LogEntry list) raftA" where
  "readEntries [] = returnA []"
| "readEntries (i # is) =
     bindA (getEntryOrFatal i) (\<lambda>e. bindA (readEntries is) (\<lambda>es. returnA (e # es)))"

definition prevTerm :: "u64 \<Rightarrow> ('f, 'r, u64) raftA" where
  "prevTerm prevLogIndex =
     bindA getA (\<lambda>r. bindA nextIndexA (\<lambda>ni.
     if prevLogIndex > lastIncludedIndex r \<and> prevLogIndex < ni
     then bindA (getEntryOrFatal prevLogIndex) (\<lambda>e. returnA (Term e))
     else returnA (lastIncludedTerm r)))"

text \<open>
  The loop \<^verbatim>\<open>for index := nextIndex; index > r.lastIncludedIndex && index < r.log.NextIndex(); index++\<close>
  runs over \<open>nextIndex, ..., NextIndex() - 1\<close>, since \<open>nextIndex > lastIncludedIndex\<close> there.
\<close>

definition sendAppendEntries_request :: "string \<Rightarrow> ('f, 'r, aeCall) raftA" where
  "sendAppendEntries_request i =
     bindA getA (\<lambda>r.
     if state r \<noteq> Leader then returnA AeNone
     else
       bindA (readA (isMember i)) (\<lambda>mem.
       if \<not> mem then returnA AeNone
       else
         bindA (readA (followerPtr i)) (\<lambda>p.
         let nxt = nextIndex (followerAt r p) in
         if nxt \<le> lastIncludedIndex r then
           bindA (sendInstallSnapshot_request i) (\<lambda>call.
           returnA (case call of None \<Rightarrow> AeNone | Some (p, req) \<Rightarrow> AeSnapshot p req))
         else
           let prevLogIndex = Max (nxt - 1) (lastIncludedIndex r) in
           bindA (prevTerm prevLogIndex) (\<lambda>prevLogTerm.
           bindA nextIndexA (\<lambda>ni.
           bindA (makeEntriesSlice (ni - nxt)) (\<lambda>_.
           bindA (readEntries (if nxt < ni then index_range nxt (ni - 1) else [])) (\<lambda>es.
           returnA (AeEntries p
             \<lparr>ae_LeaderID = raft_id r, ae_Term = currentTerm r, ae_LeaderCommit = commitIndex r,
              ae_PrevLogIndex = prevLogIndex, ae_PrevLogTerm = prevLogTerm, ae_Entries = es\<rparr>))))))))"

text \<open>A response to entries that were accepted moves the follower's indices forward.\<close>

definition advanceFollower :: "nat \<Rightarrow> AppendEntriesRequest \<Rightarrow> ('f, 'r, unit) raftA" where
  "advanceFollower p req =
     bindA getA (\<lambda>r.
     let f = followerAt r p; matched = ae_PrevLogIndex req + of_nat (length (ae_Entries req)) in
     whenA (matched > matchIndex f)
       (bindA (modifyA (updFollower p (\<lambda>f. f\<lparr>nextIndex := Max (nextIndex f) (matched + 1), matchIndex := matched\<rparr>))) (\<lambda>_.
        whenA (matched > commitIndex r) (broadcast commitCond))))"

text \<open>The count of responses of this round; a quorum confirms the leader.\<close>

definition countResponse :: "time \<Rightarrow> nat \<Rightarrow> ('f, 'r, unit) raftA" where
  "countResponse now numResponses =
     bindA (modifyA (\<lambda>r. r\<lparr>cells := (cells r)(numResponses := cells r numResponses + 1)\<rparr>)) (\<lambda>_.
     bindA getA (\<lambda>r.
     bindA (readA (hasQuorum (cells r numResponses))) (\<lambda>q.
     whenA q (tryApplyReadOnlyOperations now))))"

definition sendAppendEntries_response :: "('f, 'r) deps \<Rightarrow> time \<Rightarrow> string \<Rightarrow> nat \<Rightarrow> nat \<Rightarrow> AppendEntriesRequest \<Rightarrow>
    err + AppendEntriesResponse \<Rightarrow> ('f, 'r, aeCall) raftA" where
  "sendAppendEntries_response D now i p numResponses req reply =
     bindA (readA (isMember i)) (\<lambda>mem.
     bindA getA (\<lambda>r.
     case reply of
       Inl _ \<Rightarrow> returnA AeNone
     | Inr res \<Rightarrow>
         if \<not> mem \<or> state r \<noteq> Leader then returnA AeNone
         else if aer_Term res > currentTerm r then
           bindA (becomeFollower D now i (aer_Term res)) (\<lambda>_. returnA AeNone)
         else
           bindA (countResponse now numResponses) (\<lambda>_.
           if \<not> aer_Success res then
             bindA (modifyA (updFollower p (\<lambda>f. f\<lparr>nextIndex := aer_Index res\<rparr>))) (\<lambda>_.
             if aer_Index res \<le> lastIncludedIndex r then
               bindA (sendInstallSnapshot_request i) (\<lambda>call.
               returnA (case call of None \<Rightarrow> AeNone | Some (p, req) \<Rightarrow> AeSnapshot p req))
             else returnA AeNone)
           else bindA (advanceFollower p req) (\<lambda>_. returnA AeNone))))"

text \<open>One pass of \<^verbatim>\<open>heartbeatLoop\<close>, with the loop's exit as the result.\<close>

definition heartbeatLoop :: "time \<Rightarrow> ('f, 'r, bool) raftA" where
  "heartbeatLoop now =
     bindA getA (\<lambda>r.
     if state r = Shutdown then returnA False
     else if state r = Follower then returnA True
     else bindA (sendAppendEntriesToPeers now) (\<lambda>_. returnA True))"

section \<open>Commitment\<close>

text \<open>This node and the other voters whose match index has reached \<open>index\<close>.\<close>

definition matchingVoters :: "u64 \<Rightarrow> Configuration \<Rightarrow> ('f, 'r) raft \<Rightarrow> string fset" where
  "matchingVoters index c r =
     ffilter (\<lambda>i. i \<noteq> raft_id r \<and> voterFlag c i \<and>
               matchIndex (followerAt r (the (fmlookup (followers r) i))) \<ge> index) (fmdom (followers r))"

definition countMatches :: "u64 \<Rightarrow> ('f, 'r) raft \<Rightarrow> exn + int" where
  "countMatches index r = map_sum id (\<lambda>c. 1 + int (fcard (matchingVoters index c r))) (confOf r)"

fun commitScan :: "u64 list \<Rightarrow> bool \<Rightarrow> ('f, 'r, bool) raftA" where
  "commitScan [] committed = returnA committed"
| "commitScan (index # is) committed =
     bindA (getEntryOrFatal index) (\<lambda>entry.
     bindA getA (\<lambda>r.
     if Term entry \<noteq> currentTerm r then commitScan is committed
     else
       bindA (readA (countMatches index)) (\<lambda>matches.
       bindA (readA (hasQuorum matches)) (\<lambda>q.
       if q then bindA (modifyA (\<lambda>r. r\<lparr>commitIndex := index\<rparr>)) (\<lambda>_. commitScan is True)
       else commitScan is committed))))"

text \<open>One pass of \<^verbatim>\<open>commitLoop\<close> after it is woken.\<close>

definition commitLoop :: "time \<Rightarrow> ('f, 'r, unit) raftA" where
  "commitLoop now =
     bindA getA (\<lambda>r.
     if state r \<noteq> Leader then returnA ()
     else
       bindA lastIndexA (\<lambda>li.
       bindA (commitScan (index_range (commitIndex r + 1) li) False) (\<lambda>committed.
       whenA committed
         (bindA (broadcast applyCond) (\<lambda>_. sendAppendEntriesToPeers now)))))"

end
