(* ===== verification/AppendSpec.thy ===== *)
theory AppendSpec
  imports Replication
begin

text \<open>
  What \<^verbatim>\<open>AppendEntries\<close> does to a follower. \<open>merge_log\<close> is the reference: the entries of the
  request replace the log from the first conflict on, and nothing else is removed. The handler
  is shown to refine it, and the properties of replication follow from the reference.
\<close>

section \<open>The reference\<close>

fun merge_log :: "LogEntry list \<Rightarrow> LogEntry list \<Rightarrow> LogEntry list" where
  "merge_log v [] = v"
| "merge_log v (e # es) =
     (case lookup v (Index e) of
        None \<Rightarrow> v @ map strip (e # es)
      | Some x \<Rightarrow>
          if Term x = Term e then merge_log v es
          else take (unat (Index e - Index (hd v))) v @ map strip (e # es))"

section \<open>The node's log\<close>

definition wf_node :: "('f, 'r) deps \<Rightarrow> ('f, 'r) raft \<Rightarrow> bool" where
  "wf_node D r \<longleftrightarrow> wf_log (marshalEntry D) (log r) \<and> Index (hd (view (log r))) \<le> lastIncludedIndex r"

abbreviation logview :: "('f, 'r) raft \<Rightarrow> LogEntry list" where
  "logview r \<equiv> view (log r)"

abbreviation lastIdx :: "('f, 'r) raft \<Rightarrow> u64" where
  "lastIdx r \<equiv> Index (last (logview r))"

text \<open>The fields that role and configuration changes leave alone.\<close>

definition core :: "('f, 'r) raft \<Rightarrow> string \<times> persistentLog \<times> u64 \<times> u64 \<times> u64 \<times> u64 \<times> u64" where
  "core r = (raft_id r, log r, commitIndex r, lastApplied r, lastIncludedIndex r, lastIncludedTerm r, currentTerm r)"

lemma coreD:
  assumes "core r' = core r"
  shows "raft_id r' = raft_id r" "log r' = log r" "commitIndex r' = commitIndex r" "lastApplied r' = lastApplied r"
    "lastIncludedIndex r' = lastIncludedIndex r" "lastIncludedTerm r' = lastIncludedTerm r" "currentTerm r' = currentTerm r"
  using assms by (simp_all add: core_def)

lemma keeps_onSnapshots: "(\<And>s r. f (r\<lparr>snapshotStorage := s\<rparr>) = f r) \<Longrightarrow> keepsA f (onSnapshots m)"
  unfolding onSnapshots_def by (intro keeps.zoom) simp

lemma keeps_closeFollowerSnapshots:
  assumes "\<And>s r. f (r\<lparr>snapshotStorage := s\<rparr>) = f r" "\<And>h r. f (r\<lparr>followerAt := h\<rparr>) = f r"
  shows "keepsA f (closeFollowerSnapshots ps)"
proof (induction ps)
  case (Cons p ps)
  show ?case unfolding closeFollowerSnapshots.simps
    by (intro keeps.from_get keeps.intros keeps_onSnapshots Cons) (simp_all add: assms updFollower_def)
qed (unfold closeFollowerSnapshots.simps, intro keeps.intros)

lemma keeps_resetSnapshotFiles:
  assumes "\<And>s r. f (r\<lparr>snapshotStorage := s\<rparr>) = f r" "\<And>h r. f (r\<lparr>followerAt := h\<rparr>) = f r"
    "\<And>s r. f (r\<lparr>r_snapshot := s\<rparr>) = f r"
  shows "keepsA f resetSnapshotFiles"
  unfolding resetSnapshotFiles_def
  by (intro keeps.from_get keeps.intros keeps_closeFollowerSnapshots keeps_onSnapshots assms)

lemma core_resetSnapshotFiles: "keepsA core resetSnapshotFiles"
  by (rule keeps_resetSnapshotFiles) (simp_all add: core_def)

lemma keeps_addFollowers:
  assumes "\<And>m r. f (r\<lparr>followers := m\<rparr>) = f r" "\<And>h r. f (r\<lparr>followerAt := h\<rparr>) = f r" "\<And>p r. f (r\<lparr>nextPtr := p\<rparr>) = f r"
  shows "f (fold (addFollower x) is r) = f r"
proof (induction "is" arbitrary: r)
  case (Cons i "is")
  have "addFollower x i r = (r\<lparr>followers := fmupd i (nextPtr r) (followers r)\<rparr>)
      \<lparr>followerAt := (followerAt r)(nextPtr r := x)\<rparr>\<lparr>nextPtr := Suc (nextPtr r)\<rparr>"
    by (simp add: addFollower_def)
  then have "f (addFollower x i r) = f r" by (simp only: assms)
  with Cons show ?case by simp
qed simp

lemma keeps_cancelOperations:
  assumes "\<And>m r. f (r\<lparr>manager := m\<rparr>) = f r" "\<And>c r. f (r\<lparr>opChans := c\<rparr>) = f r"
  shows "keepsA f (cancelOperations now)"
  unfolding cancelOperations_def by (intro keeps.intros) (simp add: assms)

lemma keeps_nextConfiguration:
  assumes "\<And>s r. f (r\<lparr>snapshotStorage := s\<rparr>) = f r" "\<And>h r. f (r\<lparr>followerAt := h\<rparr>) = f r" "\<And>s r. f (r\<lparr>r_snapshot := s\<rparr>) = f r"
    and "\<And>m r. f (r\<lparr>manager := m\<rparr>) = f r" "\<And>c r. f (r\<lparr>opChans := c\<rparr>) = f r" "\<And>s r. f (r\<lparr>state := s\<rparr>) = f r"
    and "\<And>m r. f (r\<lparr>followers := m\<rparr>) = f r" "\<And>p r. f (r\<lparr>nextPtr := p\<rparr>) = f r" "\<And>c r. f (r\<lparr>configuration := c\<rparr>) = f r"
  shows "keepsA f (nextConfiguration now c)"
  unfolding nextConfiguration_def stepdown_def
  by (intro keeps.from_get keeps.intros keeps_cancelOperations keeps_resetSnapshotFiles assms)
     (simp add: nextFollowers_def keeps_addFollowers[of f, OF assms(7,2,8)] assms(7))

lemma core_nextConfiguration: "keepsA core (nextConfiguration now c)"
  by (rule keeps_nextConfiguration) (simp_all add: core_def)

section \<open>The loop over the entries\<close>

lemma fatalRead_ok [simp]:
  "getEntryOrFatal i r = (Inr e, r') \<longleftrightarrow> GetEntry i (log r) = Inr e \<and> r' = r"
  by (auto simp: getEntryOrFatal_def)

lemma lastIndexA_ok: "wf_log mar (log r) \<Longrightarrow> lastIndexA r = (Inr (lastIdx r), r)"
  by (simp add: lastIndexA_def last_ops)

lemma nextIndexA_ok: "wf_log mar (log r) \<Longrightarrow> nextIndexA r = (Inr (lastIdx r + 1), r)"
  by (simp add: nextIndexA_def last_ops)

lemma merge_skip: "lookup v (Index e) = Some x \<Longrightarrow> Term x = Term e \<Longrightarrow> merge_log v (e # es) = merge_log v es"
  by simp

text \<open>
  After the loop the log and the entries still to append make up the merged log. The entries
  start behind the placeholder and not behind the end of the log.
\<close>

lemma mergeEntries_ok:
  assumes "mergeEntries now es r = (Inr ta, r')" "wf_log mar (log r)"
    and "contiguous j es" "Index (hd (logview r)) < j" "unat j \<le> unat (lastIdx r) + 1" "unat j + length es < 2 ^ 64"
  shows "wf_log mar (log r') \<and> logview r' @ map strip ta = merge_log (logview r) es \<and>
    contiguous (lastIdx r' + 1) ta \<and> unat (lastIdx r') + length ta + 1 < 2 ^ 64 \<and>
    Index (hd (logview r')) = Index (hd (logview r)) \<and>
    core (r'\<lparr>log := log r\<rparr>) = core r"
  using assms
proof (induction es arbitrary: j)
  case Nil
  then have "r' = r" "ta = []" by auto
  moreover have "unat (lastIdx r) + 1 < 2 ^ 64"
    using wf_entries_next(2)[of "logview r"] plog.inv_wf[OF Nil.prems(2)] wf_entries_last(2)[of "logview r"]
    by (auto simp: wf_entries_def)
  ultimately show ?case using Nil by simp
next
  case (Cons e es)
  note wf = Cons.prems(2)
  have j: "Index e = j" "contiguous (j + 1) es" using Cons.prems(3) by auto
  have la: "lastIndexA r = (Inr (lastIdx r), r)" by (rule lastIndexA_ok[OF wf])
  show ?case
  proof (cases "lastIdx r < j")
    case True
    then have jn: "unat j = unat (lastIdx r) + 1" using Cons.prems(5) by (simp add: word_less_nat_alt)
    then have "unat j = unat (lastIdx r + 1)"
      using Cons.prems(6) by (subst unat_Suc_word) auto
    then have "lastIdx r + 1 = j" by (simp add: word_unat_eq_iff)
    moreover have "lookup (logview r) j = None" using True by (auto simp: lookup_None_iff dest: leD)
    ultimately show ?thesis
      using Cons.prems True j jn la by (auto simp: bindA_Inr)
  next
    case False
    then have "lookup (logview r) j \<noteq> None" using Cons.prems(4) by (simp add: lookup_None_iff)
    then obtain x where x: "GetEntry j (log r) = Inr x" using plog.get_total[OF wf] by blast
    then have lx: "lookup (logview r) j = Some (strip x)" and ix: "Index x = j"
      using plog.get_term[OF wf] by auto
    show ?thesis
    proof (cases "Term x = Term e")
      case t: True
      have "mergeEntries now es r = (Inr ta, r')"
        using Cons.prems(1) False j la x t by (auto simp: act_inv IsConflict_def)
      moreover have "unat (j + 1) = unat j + 1" using Cons.prems(6) by (intro unat_Suc_word) simp
      moreover from this have "Index (hd (logview r)) < j + 1" "unat (j + 1) \<le> unat (lastIdx r) + 1"
        "unat (j + 1) + length es < 2 ^ 64"
        using Cons.prems(4,6) False by (auto simp: word_less_nat_alt)
      ultimately show ?thesis
        using Cons.IH[OF _ wf j(2)] lx j(1) t by simp
    next
      case t: False
      from Cons.prems(1) False j la x t ix obtain l1 r1 where
        tr: "Truncate j (log r) = (Inr (), l1)" and r1: "core r' = core (r\<lparr>log := l1\<rparr>)" and ta: "ta = e # es"
        by (auto simp: act_inv IsConflict_def onLog_def
                 dest: relAD[OF core_nextConfiguration] split: if_splits)
      have l': "log r' = l1" using r1 by (simp add: core_def)
      note tl = truncate_ok[OF wf tr]
      have lj: "Index (last (view l1)) = j - 1" by (rule plog.truncate_lookup(2)[OF wf tr])
      have h: "hd (view l1) = hd (logview r)" by (rule plog.truncate_lookup(3)[OF wf tr])
      have "0 < j" using Cons.prems(4) by (simp add: word_gt_0) auto
      then have "unat (j - 1) + 1 = unat j"
        by (simp add: unat_diff_le word_le_nat_alt unat_gt_0 Suc_le_eq)
      then show ?thesis
        using tl Cons.prems(3,6) t lx j(1) l' lj h ta r1 by (simp add: core_def)
    qed
  qed
qed

section \<open>Adopting a leader\<close>

definition roleOf :: "('f, 'r) raft \<Rightarrow> State \<times> u64 \<times> string \<times> persistentStateStorage" where
  "roleOf r = (state r, currentTerm r, votedFor r, stateStorage r)"

definition fixedOf :: "('f, 'r) raft \<Rightarrow> string \<times> persistentLog \<times> u64 \<times> u64 \<times> u64 \<times> u64 \<times> Configuration option \<times> Configuration option" where
  "fixedOf r = (raft_id r, log r, commitIndex r, lastApplied r, lastIncludedIndex r, lastIncludedTerm r,
     configuration r, committedConfiguration r)"

lemma fixedD:
  assumes "fixedOf r' = fixedOf r"
  shows "raft_id r' = raft_id r" "log r' = log r" "commitIndex r' = commitIndex r" "lastApplied r' = lastApplied r"
    "lastIncludedIndex r' = lastIncludedIndex r" "lastIncludedTerm r' = lastIncludedTerm r"
    "configuration r' = configuration r" "committedConfiguration r' = committedConfiguration r"
  using assms by (simp_all add: fixedOf_def)

lemma persist_ok:
  "persistTermAndVote D r = (Inr u, r') \<longleftrightarrow>
     (\<exists>p. SetState (marshalState D) (currentTerm r) (votedFor r) (stateStorage r) = (Inr u, p) \<and>
          r' = r\<lparr>stateStorage := p\<rparr>)"
  by (auto simp: persistTermAndVote_def act_inv)

lemma keeps_persist: "(\<And>s r. f (r\<lparr>stateStorage := s\<rparr>) = f r) \<Longrightarrow> keepsA f (persistTermAndVote D)"
  unfolding persistTermAndVote_def by (intro keeps.intros keeps.from_get keeps.zoom) simp

lemma role_parts: "keepsA roleOf resetSnapshotFiles" "keepsA roleOf (cancelOperations now)"
proof -
  show "keepsA roleOf resetSnapshotFiles" by (rule keeps_resetSnapshotFiles) (simp_all add: roleOf_def)
  show "keepsA roleOf (cancelOperations now)"
    unfolding cancelOperations_def by (intro keeps.intros) (simp add: roleOf_def)
qed

lemma fixed_becomeFollower: "keepsA fixedOf (becomeFollower D now leader t)"
  unfolding becomeFollower_def cancelOperations_def
  by (intro keeps.intros keeps_persist keeps_resetSnapshotFiles) (simp_all add: fixedOf_def)

lemma becomeFollower_ok:
  assumes "becomeFollower D now leader t r = (Inr u, r')"
  shows "state r' = Follower" "currentTerm r' = t" "votedFor r' = ''''"
    "SetState (marshalState D) t '''' (stateStorage r) = (Inr (), stateStorage r')"
    "fixedOf r' = fixedOf r"
proof -
  from assms obtain p r2 where
    st: "SetState (marshalState D) t '''' (stateStorage r) = (Inr (), p)"
    and reset: "resetSnapshotFiles (r\<lparr>state := Follower, currentTerm := t, leaderID := leader, votedFor := '''', stateStorage := p\<rparr>) = (Inr (), r2)"
    and canc: "cancelOperations now r2 = (Inr (), r')"
    by (auto simp: becomeFollower_def act_inv persist_ok)
  have "roleOf r' = (Follower, t, '''', p)"
    using relAD[OF role_parts(1) reset] relAD[OF role_parts(2) canc] by (simp add: roleOf_def)
  then show "state r' = Follower" "currentTerm r' = t" "votedFor r' = ''''"
    "SetState (marshalState D) t '''' (stateStorage r) = (Inr (), stateStorage r')"
    using st by (auto simp: roleOf_def)
  show "fixedOf r' = fixedOf r" using relAD[OF fixed_becomeFollower assms] .
qed

lemma fixed_recognizeLeader: "keepsA fixedOf (recognizeLeader D now leader t)"
  unfolding recognizeLeader_def by (intro keeps.from_get keeps.intros fixed_becomeFollower)

lemma recognizeLeader_ok:
  assumes "recognizeLeader D now leader t r = (Inr u, r')" "currentTerm r \<le> t" "state r \<noteq> Shutdown"
  shows "currentTerm r' = t" "state r' = Follower \<or> state r' = Leader \<and> r' = r"
  using assms by (auto simp: recognizeLeader_def act_inv dest: becomeFollower_ok split: if_splits)
     (metis State.exhaust becomeFollower_ok(1))+

section \<open>Properties of the reference\<close>

lemma lookup_appended:
  assumes "wf_entries w" "Index (last w) + 1 = j" "contiguous j es" "unat (Index (last w)) + length es + 1 < 2 ^ 64"
  shows "wf_entries (w @ map strip es)"
    "i \<le> Index (last w) \<Longrightarrow> lookup (w @ map strip es) i = lookup w i"
    "k < length es \<Longrightarrow> lookup (w @ map strip es) (j + of_nat k) = Some (strip (es ! k))"
proof -
  show wf: "wf_entries (w @ map strip es)" using assms by (intro wf_entries_append) auto
  show "i \<le> Index (last w) \<Longrightarrow> lookup (w @ map strip es) i = lookup w i"
    by (simp add: lookup_append[OF assms(1) wf])
  assume k: "k < length es"
  have ne: "w \<noteq> []" using assms(1) by (simp add: wf_entries_def)
  have n: "(w @ map strip es) ! (length w + k) = strip (es ! k)" using k by (simp add: nth_append)
  have "Index (hd w) + of_nat (length w + k) = j + of_nat k"
    using wf_entries_next(1)[OF assms(1)] assms(2) by simp
  then show "lookup (w @ map strip es) (j + of_nat k) = Some (strip (es ! k))"
    unfolding lookup_Some_iff[OF wf] using k n ne by (intro exI[of _ "length w + k"]) auto
qed

text \<open>
  The request's entries are in the merged log, up to their terms; what precedes them is as before.
\<close>

lemma merge_log_lookup:
  assumes "wf_entries v" "contiguous j es" "Index (hd v) < j" "unat j \<le> unat (Index (last v)) + 1"
    "unat j + length es < 2 ^ 64"
  shows "wf_entries (merge_log v es) \<and> hd (merge_log v es) = hd v \<and>
    (\<forall>i<j. lookup (merge_log v es) i = lookup v i) \<and>
    (\<forall>k<length es. \<exists>x. lookup (merge_log v es) (j + of_nat k) = Some x \<and> Term x = Term (es ! k) \<and>
       (x = strip (es ! k) \<or> lookup v (j + of_nat k) = Some x))"
  using assms(2-)
proof (induction es arbitrary: j)
  case (Cons e es)
  have j: "Index e = j" "contiguous (j + 1) es" using Cons.prems(1) by auto
  have ne: "v \<noteq> []" using assms(1) by (simp add: wf_entries_def)
  have appended: ?case
    if m: "merge_log v (e # es) = w @ map strip (e # es)" and w: "wf_entries w" "Index (last w) + 1 = j" "hd w = hd v"
      "unat (Index (last w)) + 1 = unat j" and lw: "\<And>i. i < j \<Longrightarrow> lookup w i = lookup v i" for w
  proof -
    have b: "unat (Index (last w)) + length (e # es) + 1 < 2 ^ 64" using w(4) Cons.prems(4) by simp
    have lt: "i < j \<Longrightarrow> i \<le> Index (last w)" for i
      using w(4) by (simp add: word_less_nat_alt word_le_nat_alt)
    have "w \<noteq> []" using w(1) by (simp add: wf_entries_def)
    then show ?thesis
      unfolding m using lookup_appended[OF w(1,2) Cons.prems(1) b] w(3) lw lt by auto
  qed
  show ?case
  proof (cases "lookup v j")
    case None
    then have "Index (last v) < j" using Cons.prems(2) by (auto simp: lookup_None_iff)
    then have u: "unat (Index (last v)) + 1 = unat j" using Cons.prems(3) by (simp add: word_less_nat_alt)
    then have "unat (Index (last v) + 1) = unat j" using Cons.prems(4) by (subst unat_Suc_word) auto
    then have "Index (last v) + 1 = j" by (simp add: word_unat_eq_iff)
    then show ?thesis using None j(1) u assms(1) by (intro appended[of v]) auto
  next
    case (Some x)
    then have r: "j \<le> Index (last v)" by (auto simp: lookup_def split: if_splits)
    show ?thesis
    proof (cases "Term x = Term e")
      case True
      have u: "unat (j + 1) = unat j + 1" using Cons.prems(4) by (intro unat_Suc_word) simp
      have le: "i < j + 1 \<longleftrightarrow> i < j \<or> i = j" for i
        using u by (auto simp: word_less_nat_alt word_unat_eq_iff)
      have "wf_entries (merge_log v es) \<and> hd (merge_log v es) = hd v \<and>
        (\<forall>i<j + 1. lookup (merge_log v es) i = lookup v i) \<and>
        (\<forall>k<length es. \<exists>x. lookup (merge_log v es) (j + 1 + of_nat k) = Some x \<and> Term x = Term (es ! k) \<and>
           (x = strip (es ! k) \<or> lookup v (j + 1 + of_nat k) = Some x))"
        using Cons.prems r u by (intro Cons.IH j(2)) (auto simp: word_less_nat_alt word_le_nat_alt)
      moreover have "merge_log v (e # es) = merge_log v es" using Some True j(1) by simp
      ultimately show ?thesis using True Some le
        by (auto simp: less_Suc_eq_0_disj algebra_simps)
    next
      case False
      let ?w = "take (unat (j - Index (hd v))) v"
      have d: "unat (j - Index (hd v)) = unat j - unat (Index (hd v))"
        using Cons.prems(2) by (simp add: unat_diff_le)
      have pos: "0 < unat (j - Index (hd v))" "unat (j - Index (hd v)) < length v"
        using Cons.prems(2) position_of(1)[OF assms(1) less_imp_le r] d by (auto simp: word_less_nat_alt)
      have w: "wf_entries ?w" "hd ?w = hd v" "length ?w = unat (j - Index (hd v))"
        using pos assms(1) wf_entries_take by (auto simp: hd_take)
      have "Index (last ?w) + 1 = j"
        using wf_entries_next(1)[OF w(1)] w(2,3) by simp
      moreover have "unat (Index (last ?w)) + 1 = unat j"
        using wf_entries_last(2)[OF w(1)] w(2,3) pos d by (simp add: word_less_nat_alt)
      moreover have "lookup ?w i = lookup v i" if "i < j" for i
        using that lookup_take[OF assms(1) Cons.prems(2) r, of i] by simp
      moreover have "merge_log v (e # es) = ?w @ map strip (e # es)" using Some False j(1) by simp
      ultimately show ?thesis using w by (intro appended[of ?w]) auto
    qed
  qed
qed (use assms(1) in auto)

text \<open>Entries up to \<open>c\<close> survive if the request does not contradict them.\<close>

lemma merge_log_keeps:
  assumes "wf_entries v" "contiguous j es" "Index (hd v) < j" "unat j \<le> unat (Index (last v)) + 1"
    "unat j + length es < 2 ^ 64" "c \<le> Index (last v)"
    and "\<And>e x. e \<in> set es \<Longrightarrow> Index e \<le> c \<Longrightarrow> lookup v (Index e) = Some x \<Longrightarrow> Term x = Term e"
  shows "i \<le> c \<Longrightarrow> lookup (merge_log v es) i = lookup v i" "c \<le> Index (last (merge_log v es))"
proof -
  have keep: "\<forall>i\<le>c. lookup (merge_log v es) i = lookup v i"
    using assms(2-5,7)
  proof (induction es arbitrary: j)
    case (Cons e es)
    have j: "Index e = j" "contiguous (j + 1) es" using Cons.prems(1) by auto
    note ml = merge_log_lookup[OF assms(1) Cons.prems(1-4)]
    show ?case
    proof (cases "c < j")
      case True
      then show ?thesis using ml by auto
    next
      case False
      then have "lookup v j \<noteq> None" using Cons.prems(2) assms(6) by (auto simp: lookup_None_iff)
      then obtain x where x: "lookup v j = Some x" by blast
      then have "Term x = Term e" using Cons.prems(5)[of e x] j False by auto
      then have "merge_log v (e # es) = merge_log v es" using x j by simp
      moreover have u: "unat (j + 1) = unat j + 1" using Cons.prems(4) by (intro unat_Suc_word) simp
      have "\<forall>i\<le>c. lookup (merge_log v es) i = lookup v i"
        using Cons.prems False assms(6) u
        by (intro Cons.IH[OF j(2)]) (auto simp: word_less_nat_alt word_le_nat_alt)
      ultimately show ?thesis by simp
    qed
  qed simp
  then show "i \<le> c \<Longrightarrow> lookup (merge_log v es) i = lookup v i" by blast
  have ml: "wf_entries (merge_log v es)" "hd (merge_log v es) = hd v"
    using merge_log_lookup[OF assms(1-5)] by auto
  show "c \<le> Index (last (merge_log v es))"
  proof (cases "Index (hd v) < c")
    case True
    then have "lookup (merge_log v es) c \<noteq> None" using keep assms(6) by (auto simp: lookup_None_iff)
    then show ?thesis by (auto simp: lookup_None_iff)
  next
    case False
    then show ?thesis using wf_entries_hd_le[OF ml(1)] ml(2) by simp
  qed
qed

lemma merge_log_same:
  assumes "\<And>e. e \<in> set es \<Longrightarrow> \<exists>x. lookup v (Index e) = Some x \<and> Term x = Term e"
  shows "merge_log v es = v"
  using assms
proof (induction es)
  case (Cons e es)
  then obtain x where "lookup v (Index e) = Some x" "Term x = Term e" by auto
  then show ?case using Cons by simp
qed simp


section \<open>The consistency check\<close>

text \<open>
  The search for the first index of the conflicting term ends, and every entry it passes has
  that term.
\<close>

lemma conflictIndex_ok:
  assumes "wf_log mar l" "Index (hd (view l)) \<le> lo" "lo \<le> index" "index \<le> Index (last (view l))"
  shows "\<exists>k. conflictIndex t lo index l = Inr k \<and> lo \<le> k \<and> k \<le> index \<and>
    (\<forall>i. k < i \<and> i \<le> index \<longrightarrow> (\<exists>e. lookup (view l) i = Some e \<and> Term e = t)) \<and>
    (lo < k \<longrightarrow> (\<exists>e. lookup (view l) k = Some e \<and> Term e \<noteq> t))"
  using assms(3,4)
proof (induction "unat index" arbitrary: index rule: less_induct)
  case less
  show ?case
  proof (cases "lo < index")
    case True
    then have "lookup (view l) index \<noteq> None" using assms(2) less.prems(2) by (auto simp: lookup_None_iff)
    then obtain e where g: "GetEntry index l = Inr e" using plog.get_total[OF assms(1)] by blast
    then have le: "lookup (view l) index = Some (strip e)" using plog.get_term[OF assms(1)] by auto
    show ?thesis
    proof (cases "Term e = t")
      case t: True
      have u: "unat (index - 1) + 1 = unat index"
        using True by (simp add: unat_diff_le word_le_nat_alt word_less_nat_alt)
      have "lo \<le> index - 1" "index - 1 \<le> Index (last (view l))"
        using True less.prems u by (auto simp: word_le_nat_alt word_less_nat_alt)
      from less.hyps[OF _ this] u obtain k where k: "conflictIndex t lo (index - 1) l = Inr k" "lo \<le> k" "k \<le> index - 1"
        "\<forall>i. k < i \<and> i \<le> index - 1 \<longrightarrow> (\<exists>e. lookup (view l) i = Some e \<and> Term e = t)"
        "lo < k \<longrightarrow> (\<exists>e. lookup (view l) k = Some e \<and> Term e \<noteq> t)" by auto
      have "i \<le> index \<longleftrightarrow> i \<le> index - 1 \<or> i = index" for i
        using u by (auto simp: word_le_nat_alt word_unat_eq_iff)
      moreover have "conflictIndex t lo index l = Inr k"
        using True g t k(1) by (subst conflictIndex.simps) simp
      ultimately show ?thesis using k le t by auto
    next
      case False
      then show ?thesis using True g le by (subst conflictIndex.simps) auto
    qed
  next
    case False
    then have "index = lo" using less.prems(1) by simp
    then show ?thesis by (subst conflictIndex.simps) auto
  qed
qed

lemma lastIdx_bound: "wf_log mar (log r) \<Longrightarrow> unat (lastIdx r) + 1 < 2 ^ 64"
  using plog.inv_wf[of mar "log r"] wf_entries_last(2)[of "logview r"] by (auto simp: wf_entries_def)

lemma lastIdx_Suc: "wf_log mar (log r) \<Longrightarrow> i < lastIdx r + 1 \<longleftrightarrow> i \<le> lastIdx r"
  using unat_Suc_word[OF lastIdx_bound, of mar r] by (auto simp: word_less_nat_alt word_le_nat_alt)

text \<open>\<open>matchesPrev\<close>: the previous entry of the request is the follower's entry at that index.\<close>

definition matchesPrev :: "AppendEntriesRequest \<Rightarrow> ('f, 'r) raft \<Rightarrow> bool" where
  "matchesPrev req r \<longleftrightarrow>
     (if ae_PrevLogIndex req = lastIncludedIndex r
      then ae_PrevLogIndex req \<le> lastIdx r \<and> ae_PrevLogTerm req = lastIncludedTerm r
      else lastIncludedIndex r < ae_PrevLogIndex req \<and>
        (\<exists>e. lookup (logview r) (ae_PrevLogIndex req) = Some e \<and> Term e = ae_PrevLogTerm req))"

lemma prev_entry:
  assumes "wf_node D r" "lastIncludedIndex r < i" "i \<le> lastIdx r"
  shows "\<exists>e. GetEntry i (log r) = Inr e \<and> lookup (logview r) i = Some (strip e)"
proof -
  note wf = assms(1)[unfolded wf_node_def]
  have "lookup (logview r) i \<noteq> None" using assms wf by (auto simp: lookup_None_iff)
  then obtain e where "GetEntry i (log r) = Inr e" using plog.get_total[of "marshalEntry D" "log r" i] wf by blast
  then show ?thesis using plog.get_term(2) wf by blast
qed

text \<open>The check answers on every well-formed node, changes nothing, and accepts exactly the matching requests.\<close>

lemma checkPrevious_ok:
  assumes "wf_node D r"
  shows "\<exists>x. checkPrevious req r = (Inr x, r) \<and> (x = None \<longleftrightarrow> matchesPrev req r) \<and>
    (\<forall>i. x = Some i \<longrightarrow> lastIncludedIndex r \<le> ae_PrevLogIndex req \<longrightarrow> i \<le> ae_PrevLogIndex req \<and>
       (\<forall>k. i \<le> k \<and> k \<le> ae_PrevLogIndex req \<longrightarrow>
          (\<forall>e. lookup (logview r) k = Some e \<longrightarrow> lastIncludedIndex r < k \<longrightarrow>
             Term e \<noteq> ae_PrevLogTerm req)))"
proof -
  let ?p = "ae_PrevLogIndex req"
  note wf = assms[unfolded wf_node_def, THEN conjunct1]
  note hd = assms[unfolded wf_node_def, THEN conjunct2]
  note ni = nextIndexA_ok[OF wf]
  consider "?p < lastIncludedIndex r" | "lastIncludedIndex r \<le> ?p" "lastIdx r < ?p"
    | "lastIncludedIndex r = ?p" "?p \<le> lastIdx r" | "lastIncludedIndex r < ?p" "?p \<le> lastIdx r"
    by (metis linorder_le_less_linear order.order_iff_strict)
  then show ?thesis
  proof cases
    case 2
    then have "lastIdx r + 1 \<le> ?p" using lastIdx_Suc[OF wf, of ?p] by (simp add: not_less[symmetric])
    moreover have "lookup (logview r) k = None" if "lastIdx r + 1 \<le> k" for k
      using that lastIdx_Suc[OF wf, of k] by (auto simp: lookup_None_iff)
    ultimately show ?thesis
      using 2 ni by (auto simp: checkPrevious_def bindA_Inr matchesPrev_def)
  next
    case 3
    then have "\<not> lastIdx r + 1 \<le> ?p" using lastIdx_Suc[OF wf, of ?p] by (simp add: not_less[symmetric])
    then show ?thesis using 3 ni by (auto simp: checkPrevious_def bindA_Inr matchesPrev_def)
  next
    case 4
    then have nl: "\<not> lastIdx r + 1 \<le> ?p" using lastIdx_Suc[OF wf, of ?p] by (simp add: not_less[symmetric])
    obtain e where g: "GetEntry ?p (log r) = Inr e" and le: "lookup (logview r) ?p = Some (strip e)"
      using prev_entry[OF assms 4] by blast
    have ge: "getEntryOrFatal ?p r = (Inr e, r)" using g by simp
    have u: "unat (?p - 1) + 1 = unat ?p" using 4 by (simp add: unat_diff_le word_le_nat_alt word_less_nat_alt)
    then have "lastIncludedIndex r \<le> ?p - 1" "?p - 1 \<le> lastIdx r"
      using 4 by (auto simp: word_le_nat_alt word_less_nat_alt)
    from conflictIndex_ok[OF wf hd this, of "Term e"] obtain k where
      k: "conflictIndex (Term e) (lastIncludedIndex r) (?p - 1) (log r) = Inr k" "lastIncludedIndex r \<le> k" "k \<le> ?p - 1"
        "\<And>i. k < i \<Longrightarrow> i \<le> ?p - 1 \<Longrightarrow> \<exists>x. lookup (logview r) i = Some x \<and> Term x = Term e" by blast
    have ku: "unat (k + 1) = unat k + 1"
      using k(3) u unat_u64_less[of ?p] by (intro unat_Suc_word) (auto simp: word_le_nat_alt)
    have k1: "k + 1 \<le> ?p" using ku k(3) u by (simp add: word_le_nat_alt)
    have all: "Term x = Term e" if "k + 1 \<le> i" "i \<le> ?p" "lookup (logview r) i = Some x" for i x
    proof (cases "i = ?p")
      case False
      then have "i \<le> ?p - 1" using that(2) u by (auto simp: word_le_nat_alt word_unat_eq_iff)
      moreover have "k < i" using that(1) ku by (simp add: word_le_nat_alt word_less_nat_alt)
      ultimately show ?thesis using k(4)[of i] that(3) by auto
    qed (use that le in auto)
    show ?thesis
    proof (cases "Term e = ae_PrevLogTerm req")
      case True
      then show ?thesis using 4 nl ni ge le by (auto simp: checkPrevious_def bindA_Inr matchesPrev_def)
    next
      case False
      then have "checkPrevious req r = (Inr (Some (k + 1)), r)"
        using 4 nl ni ge k(1) less_imp_neq[OF 4(1)] less_not_sym[OF 4(1)] by (simp add: checkPrevious_def bindA_Inr)
      moreover have "\<not> matchesPrev req r" using 4 le False by (auto simp: matchesPrev_def)
      moreover have "Term x \<noteq> ae_PrevLogTerm req" if "k + 1 \<le> i" "i \<le> ?p" "lookup (logview r) i = Some x" for i x
        using all[OF that] False by simp
      ultimately show ?thesis using k1 by (intro exI[of _ "Some (k + 1)"]) auto
    qed
  qed (auto simp: checkPrevious_def matchesPrev_def)
qed


section \<open>The handler\<close>

lemma acceptEntries_ok:
  assumes "acceptEntries D now req r = (Inr u, r')" "wf_node D r"
    and "contiguous (ae_PrevLogIndex req + 1) (ae_Entries req)" "lastIncludedIndex r \<le> ae_PrevLogIndex req"
    and "ae_PrevLogIndex req \<le> lastIdx r" "unat (ae_PrevLogIndex req) + length (ae_Entries req) + 1 < 2 ^ 64"
  shows "wf_node D r'" "logview r' = merge_log (logview r) (ae_Entries req)"
    "commitIndex r' = (if ae_LeaderCommit req > commitIndex r then min (ae_LeaderCommit req) (lastIdx r') else commitIndex r)"
    "currentTerm r' = currentTerm r" "lastIncludedIndex r' = lastIncludedIndex r" "lastApplied r' = lastApplied r"
    "raft_id r' = raft_id r" "lastIncludedTerm r' = lastIncludedTerm r"
proof -
  let ?mar = "marshalEntry D" and ?p = "ae_PrevLogIndex req"
  note wf = assms(2)[unfolded wf_node_def]
  from assms(1) obtain ta r1 l2 where
    mg: "mergeEntries now (ae_Entries req) r = (Inr ta, r1)"
    and ap: "Log_AppendEntries ?mar ta (log r1) = (Inr (), l2)"
    and rest: "(bindA getA (\<lambda>r. whenA (ae_LeaderCommit req > commitIndex r)
       (bindA lastIndexA (\<lambda>li.
        bindA (modifyA (\<lambda>r. r\<lparr>commitIndex := Min (ae_LeaderCommit req) li\<rparr>)) (\<lambda>_.
        broadcast applyCond))))) (r1\<lparr>log := l2\<rparr>) = (Inr u, r')"
    by (auto simp: acceptEntries_def bindA_eq_Inr onLog_def zoomA_eq_Inr)
  have u: "unat (?p + 1) = unat ?p + 1" using assms(6) by (intro unat_Suc_word) simp
  have "Index (hd (logview r)) < ?p + 1" "unat (?p + 1) \<le> unat (lastIdx r) + 1"
    "unat (?p + 1) + length (ae_Entries req) < 2 ^ 64"
    using u wf assms(4-6) by (auto simp: word_less_nat_alt word_le_nat_alt)
  note m = mergeEntries_ok[OF mg conjunct1[OF wf] assms(3) this]
  note a = append_ok[OF _ ap]
  have v: "view l2 = merge_log (logview r) (ae_Entries req)" and wl: "wf_log ?mar l2"
    using a m by auto
  have l: "log r' = l2" and c: "core (r'\<lparr>log := log r1, commitIndex := commitIndex r1\<rparr>) = core r1"
    and ci: "commitIndex r' = (if ae_LeaderCommit req > commitIndex r1 then min (ae_LeaderCommit req) (Index (last (view l2))) else commitIndex r1)"
    using rest lastIndexA_ok[of ?mar "r1\<lparr>log := l2\<rparr>"] wl
    by (auto simp: act_inv broadcast_def core_def split: if_splits)
  have "Index (hd (view l2)) = Index (hd (logview r1))"
    unfolding v using m view_nonempty[of ?mar "log r1"] by (metis hd_append2)
  then show "wf_node D r'" using wl l c m wf by (simp add: wf_node_def core_def)
  show "logview r' = merge_log (logview r) (ae_Entries req)" using v l by simp
  show "commitIndex r' = (if ae_LeaderCommit req > commitIndex r then min (ae_LeaderCommit req) (lastIdx r') else commitIndex r)"
    using ci l m by (simp add: core_def)
  show "currentTerm r' = currentTerm r" "lastIncludedIndex r' = lastIncludedIndex r" "lastApplied r' = lastApplied r"
    "raft_id r' = raft_id r" "lastIncludedTerm r' = lastIncludedTerm r"
    using c m by (auto simp: core_def)
qed

text \<open>A run of the handler, cut into its outcomes.\<close>

lemma AppendEntries_cases:
  assumes "AppendEntries D now req r = (Inr res, r')" "wf_node D r"
  obtains (stale) "ae_Term req < currentTerm r" "r' = r" "res = \<lparr>aer_Term = currentTerm r, aer_Success = False, aer_Index = 0\<rparr>"
  | (live) r1 where "state r \<noteq> Shutdown" "currentTerm r \<le> ae_Term req" "fixedOf r1 = fixedOf r" "currentTerm r1 = ae_Term req"
      "aer_Term res = ae_Term req" "state r1 = Follower \<or> state r1 = Leader"
      "if aer_Success res then matchesPrev req r \<and> acceptEntries D now req r1 = (Inr (), r')
       else \<not> matchesPrev req r \<and> checkPrevious req r1 = (Inr (Some (aer_Index res)), r1) \<and> r' = r1"
proof (cases "ae_Term req < currentTerm r")
  case True
  then show ?thesis using assms(1) stale by (auto simp: AppendEntries_def split: if_splits)
next
  case False
  let ?r = "r\<lparr>lastContact := now, leaderID := ae_LeaderID req\<rparr>"
  from assms(1) False obtain r1 x r2 where s: "state r \<noteq> Shutdown"
    and rec: "recognizeLeader D now (ae_LeaderID req) (ae_Term req) ?r = (Inr (), r1)"
    and chk: "checkPrevious req r1 = (Inr x, r2)"
    and rest: "(case x of
         Some index \<Rightarrow> returnA \<lparr>aer_Term = currentTerm r1, aer_Success = False, aer_Index = index\<rparr>
       | None \<Rightarrow>
           bindA (acceptEntries D now req) (\<lambda>_.
           returnA \<lparr>aer_Term = currentTerm r1, aer_Success = True, aer_Index = 0\<rparr>)) r2 = (Inr res, r')"
    by (auto simp: AppendEntries_def bindA_eq_Inr split: if_splits)
  have f: "fixedOf r1 = fixedOf r" using relAD[OF fixed_recognizeLeader rec] by (simp add: fixedOf_def)
  have t: "currentTerm r1 = ae_Term req" "state r1 = Follower \<or> state r1 = Leader"
    using recognizeLeader_ok[OF rec] False s by auto
  have wf1: "wf_node D r1" using assms(2) fixedD[OF f] by (simp add: wf_node_def)
  have mp: "matchesPrev req r1 = matchesPrev req r" using fixedD[OF f] by (simp add: matchesPrev_def)
  have r2: "r2 = r1" "x = None \<longleftrightarrow> matchesPrev req r"
    using checkPrevious_ok[OF wf1, of req] chk mp by auto
  show ?thesis
    using live[OF s _ f t(1) _ t(2)] rest r2 chk False t
    by (cases x) (auto simp: act_inv)
qed


lemma AppendEntries_success:
  assumes "wf_node D r" "AppendEntries D now req r = (Inr res, r')" "aer_Success res"
    and "contiguous (ae_PrevLogIndex req + 1) (ae_Entries req)"
    and "unat (ae_PrevLogIndex req) + length (ae_Entries req) + 1 < 2 ^ 64"
  shows "wf_node D r'" "logview r' = merge_log (logview r) (ae_Entries req)" "matchesPrev req r"
    "currentTerm r' = ae_Term req" "currentTerm r \<le> ae_Term req" "lastIncludedIndex r' = lastIncludedIndex r"
    "lastIncludedTerm r' = lastIncludedTerm r"
    "commitIndex r' = (if ae_LeaderCommit req > commitIndex r then min (ae_LeaderCommit req) (lastIdx r') else commitIndex r)"
proof -
  obtain r1 where acc: "acceptEntries D now req r1 = (Inr (), r')" and mp: "matchesPrev req r"
    and fx: "fixedOf r1 = fixedOf r" and t: "currentTerm r1 = ae_Term req" "currentTerm r \<le> ae_Term req"
    using AppendEntries_cases[OF assms(2,1)] assms(3) by (metis AppendEntriesResponse.select_convs(2))
  note f = fixedD[OF fx]
  have "lastIncludedIndex r \<le> ae_PrevLogIndex req" "ae_PrevLogIndex req \<le> lastIdx r"
    using mp by (auto simp: matchesPrev_def lookup_def split: if_splits)
  then show "wf_node D r'" "logview r' = merge_log (logview r) (ae_Entries req)"
    "currentTerm r' = ae_Term req" "lastIncludedIndex r' = lastIncludedIndex r"
    "lastIncludedTerm r' = lastIncludedTerm r"
    "commitIndex r' = (if ae_LeaderCommit req > commitIndex r then min (ae_LeaderCommit req) (lastIdx r') else commitIndex r)"
    using acceptEntries_ok[OF acc _ assms(4) _ _ assms(5)] assms(1) f t by (simp_all add: wf_node_def)
  show "matchesPrev req r" "currentTerm r \<le> ae_Term req" by (rule mp, rule t(2))
qed

text \<open>After a success the previous entry still matches.\<close>

lemma AppendEntries_still_matches:
  assumes "wf_node D r" "AppendEntries D now req r = (Inr res, r')" "aer_Success res"
    and "contiguous (ae_PrevLogIndex req + 1) (ae_Entries req)"
    and "unat (ae_PrevLogIndex req) + length (ae_Entries req) + 1 < 2 ^ 64"
  shows "i \<le> ae_PrevLogIndex req \<Longrightarrow> lookup (logview r') i = lookup (logview r) i"
    "k < length (ae_Entries req) \<Longrightarrow>
       \<exists>x. lookup (logview r') (ae_PrevLogIndex req + 1 + of_nat k) = Some x \<and> Term x = Term (ae_Entries req ! k) \<and>
         (x = strip (ae_Entries req ! k) \<or> lookup (logview r) (ae_PrevLogIndex req + 1 + of_nat k) = Some x)"
    "ae_PrevLogIndex req \<le> lastIdx r'" "wf_entries (logview r)"
    "Index (hd (logview r)) < ae_PrevLogIndex req + 1" "unat (ae_PrevLogIndex req + 1) \<le> unat (lastIdx r) + 1"
    "unat (ae_PrevLogIndex req + 1) + length (ae_Entries req) < 2 ^ 64"
proof -
  let ?p = "ae_PrevLogIndex req" and ?es = "ae_Entries req"
  note s = AppendEntries_success[OF assms]
  show wf: "wf_entries (logview r)" using assms(1) plog.inv_wf by (auto simp: wf_node_def)
  have p: "lastIncludedIndex r \<le> ?p" "?p \<le> lastIdx r"
    using s(3) by (auto simp: matchesPrev_def lookup_def split: if_splits)
  have u: "unat (?p + 1) = unat ?p + 1" using assms(5) by (intro unat_Suc_word) simp
  show h: "Index (hd (logview r)) < ?p + 1" using assms(1) p u by (auto simp: wf_node_def word_less_nat_alt word_le_nat_alt)
  show "unat (?p + 1) \<le> unat (lastIdx r) + 1" "unat (?p + 1) + length ?es < 2 ^ 64"
    using p u assms(5) by (auto simp: word_le_nat_alt)
  note m = merge_log_lookup[OF wf assms(4) h, folded s(2)]
  have m': "(\<forall>i<?p + 1. lookup (logview r') i = lookup (logview r) i) \<and>
    (\<forall>k<length ?es. \<exists>x. lookup (logview r') (?p + 1 + of_nat k) = Some x \<and> Term x = Term (?es ! k) \<and>
       (x = strip (?es ! k) \<or> lookup (logview r) (?p + 1 + of_nat k) = Some x))"
    using m p u assms(5) by (auto simp: word_le_nat_alt)
  show "i \<le> ?p \<Longrightarrow> lookup (logview r') i = lookup (logview r) i"
    using m' u by (auto simp: word_less_nat_alt word_le_nat_alt)
  show k: "k < length ?es \<Longrightarrow> \<exists>x. lookup (logview r') (?p + 1 + of_nat k) = Some x \<and> Term x = Term (?es ! k) \<and>
       (x = strip (?es ! k) \<or> lookup (logview r) (?p + 1 + of_nat k) = Some x)" for k
    using m' by blast
  show "?p \<le> lastIdx r'"
  proof (cases ?es)
    case Nil
    then show ?thesis using p s(2) by simp
  next
    case (Cons e es)
    then have "\<exists>x. lookup (logview r') (?p + 1) = Some x" using k[of 0] by auto
    then show ?thesis using u by (auto simp: lookup_def word_le_nat_alt split: if_splits)
  qed
qed

lemma AppendEntries_reject:
  assumes "wf_node D r" "AppendEntries D now req r = (Inr res, r')" "\<not> aer_Success res"
  shows "fixedOf r' = fixedOf r" "currentTerm r' = max (currentTerm r) (ae_Term req)" "aer_Term res = currentTerm r'"
    "ae_Term req < currentTerm r \<and> r' = r \<or>
     currentTerm r \<le> ae_Term req \<and> \<not> matchesPrev req r \<and>
       (if ae_PrevLogIndex req < lastIncludedIndex r then aer_Index res = lastIncludedIndex r + 1
        else aer_Index res \<le> ae_PrevLogIndex req \<and>
          (\<forall>k e. aer_Index res \<le> k \<and> k \<le> ae_PrevLogIndex req \<and> lookup (logview r) k = Some e \<and>
             lastIncludedIndex r < k \<longrightarrow> Term e \<noteq> ae_PrevLogTerm req))" (is ?idx)
proof -
  have "ae_Term req < currentTerm r \<and> r' = r \<and> aer_Term res = currentTerm r \<or>
     (currentTerm r \<le> ae_Term req \<and> aer_Term res = ae_Term req \<and> fixedOf r' = fixedOf r \<and> currentTerm r' = ae_Term req \<and>
      \<not> matchesPrev req r \<and> checkPrevious req r' = (Inr (Some (aer_Index res)), r'))"
    using AppendEntries_cases[OF assms(2,1)] assms(3) by (metis AppendEntriesResponse.select_convs(1))
  then consider "ae_Term req < currentTerm r" "r' = r" "aer_Term res = currentTerm r"
    | "currentTerm r \<le> ae_Term req" "aer_Term res = ae_Term req" "fixedOf r' = fixedOf r" "currentTerm r' = ae_Term req"
      "\<not> matchesPrev req r" "checkPrevious req r' = (Inr (Some (aer_Index res)), r')" by blast
  then have "fixedOf r' = fixedOf r \<and> currentTerm r' = max (currentTerm r) (ae_Term req) \<and> aer_Term res = currentTerm r' \<and>
    (?idx)"
  proof cases
    case 2
    note f = fixedD[OF 2(3)]
    have "wf_node D r'" using assms(1) f by (simp add: wf_node_def)
    from checkPrevious_ok[OF this, of req] 2(6) f
    have "lastIncludedIndex r \<le> ae_PrevLogIndex req \<Longrightarrow> aer_Index res \<le> ae_PrevLogIndex req \<and>
       (\<forall>k. aer_Index res \<le> k \<and> k \<le> ae_PrevLogIndex req \<longrightarrow>
          (\<forall>e. lookup (logview r) k = Some e \<longrightarrow> lastIncludedIndex r < k \<longrightarrow> Term e \<noteq> ae_PrevLogTerm req))" by auto
    moreover have "ae_PrevLogIndex req < lastIncludedIndex r \<Longrightarrow> aer_Index res = lastIncludedIndex r + 1"
      using 2(6) f by (simp add: checkPrevious_def)
    ultimately show ?thesis using 2 by (auto simp: not_less max_def)
  qed (auto simp: max_def)
  then show "fixedOf r' = fixedOf r" "currentTerm r' = max (currentTerm r) (ae_Term req)" "aer_Term res = currentTerm r'" ?idx
    by blast+
qed

end
