(* ===== verification/Samples.thy ===== *)
theory Samples
  imports AppendSpec
begin

text \<open>
  Concrete instances of what the repository does not contain (the protobuf codec, the client's
  state machine) and concrete nodes. The theorems are applied to them to show that their
  hypotheses can hold; nothing else depends on this theory.
\<close>

section \<open>A codec\<close>

text \<open>One byte per number and the payload as it is; larger messages are refused.\<close>

definition entry_marshal :: "pb_LogEntry marshal" where
  "entry_marshal m =
     (if pb_Index m < 256 \<and> pb_Term m < 256 \<and> 0 \<le> pb_Offset m \<and> pb_Offset m < 256 \<and> pb_EntryType m < 256
         \<and> length (pb_Data m) < 1000
      then Some ([ucast (pb_Index m), ucast (pb_Term m), of_int (pb_Offset m), ucast (pb_EntryType m)] @ pb_Data m)
      else None)"

fun entry_unmarshal :: "pb_LogEntry unmarshal" where
  "entry_unmarshal (a # b # c # d # bs) =
     Some \<lparr>pb_Index = ucast a, pb_Term = ucast b, pb_Offset = int (unat c), pb_Data = bs, pb_EntryType = ucast d\<rparr>"
| "entry_unmarshal _ = None"

definition state_marshal :: "pb_StorageState marshal" where
  "state_marshal m =
     (if pbs_Term m < 256 \<and> length (pbs_VotedFor m) < 1000
      then Some (ucast (pbs_Term m) # map (\<lambda>c. of_nat (of_char c)) (pbs_VotedFor m)) else None)"

fun state_unmarshal :: "pb_StorageState unmarshal" where
  "state_unmarshal (a # bs) = Some \<lparr>pbs_Term = ucast a, pbs_VotedFor = map (\<lambda>b. char_of (unat b)) bs\<rparr>"
| "state_unmarshal _ = None"

lemma ucast_byte_u64: "w < 256 \<Longrightarrow> ucast (ucast w :: byte) = (w :: u64)"
  by (simp add: word_unat_eq_iff unsigned_ucast_eq take_bit_eq_mod word_less_nat_alt unat_mod)

lemma ucast_byte_u32: "w < 256 \<Longrightarrow> ucast (ucast w :: byte) = (w :: u32)"
  by (simp add: word_unat_eq_iff unsigned_ucast_eq take_bit_eq_mod word_less_nat_alt unat_mod)

lemma byte_of_int: "0 \<le> i \<Longrightarrow> i < 256 \<Longrightarrow> uint (of_int i :: byte) = i"
  by (simp add: unsigned_of_int take_bit_eq_mod)

lemma entry_codec: "proto_codec entry_marshal entry_unmarshal"
  unfolding proto_codec_def
  by (auto simp: entry_marshal_def ucast_byte_u64 ucast_byte_u32 byte_of_int split: if_splits)

lemma char_byte: "char_of (unat (of_nat (of_char c) :: byte)) = c"
  by (simp add: unat_of_nat)

lemma state_codec: "proto_codec state_marshal state_unmarshal"
  unfolding proto_codec_def
  by (auto simp: state_marshal_def ucast_byte_u64 char_byte o_def split: if_splits)

section \<open>A node\<close>

definition sample_conf :: Configuration where
  "sample_conf = NewConfiguration 1 (fmap_of_list [(''a'', ''A''), (''b'', ''B''), (''c'', ''C'')])"

definition conf_ab :: Configuration where
  "conf_ab = NewConfiguration 2 (fmap_of_list [(''a'', ''A''), (''b'', ''B'')])"

definition conf_ac :: Configuration where
  "conf_ac = NewConfiguration 3 (fmap_of_list [(''a'', ''A''), (''c'', ''C'')])"

definition conf_abcd :: Configuration where
  "conf_abcd = NewConfiguration 2 (fmap_of_list [(''a'', ''A''), (''b'', ''B''), (''c'', ''C''), (''d'', ''D'')])"

text \<open>A table of the configurations that occur.\<close>

definition conf_pb :: "Configuration \<Rightarrow> pb_Configuration" where
  "conf_pb c = \<lparr>pbc_Members = Members c, pbc_IsVoter = IsVoter c, pbc_Index = cIndex c\<rparr>"

definition conf_marshal :: "pb_Configuration marshal" where
  "conf_marshal m =
     (if m = conf_pb sample_conf then Some [1] else if m = conf_pb conf_ab then Some [2]
      else if m = conf_pb conf_ac then Some [3] else if m = conf_pb conf_abcd then Some [4] else None)"

definition conf_unmarshal :: "pb_Configuration unmarshal" where
  "conf_unmarshal bs =
     (if bs = [1] then Some (conf_pb sample_conf) else if bs = [2] then Some (conf_pb conf_ab)
      else if bs = [3] then Some (conf_pb conf_ac) else if bs = [4] then Some (conf_pb conf_abcd) else None)"

lemma conf_codec: "proto_codec conf_marshal conf_unmarshal"
  by (auto simp: proto_codec_def conf_marshal_def conf_unmarshal_def split: if_splits)

text \<open>The state machine records the operations it was given and answers with their number.\<close>

definition sample_deps :: "(bytes list, nat) deps" where
  "sample_deps =
     \<lparr>marshalEntry = entry_marshal, unmarshalEntry = entry_unmarshal,
      marshalState = state_marshal, unmarshalState = state_unmarshal,
      marshalConf = conf_marshal, unmarshalConf = conf_unmarshal,
      fsmApply = (\<lambda>oper f. (length f, f @ [op_Bytes oper])),
      fsmSnapshot = (\<lambda>f. Some (map (\<lambda>bs. of_nat (length bs)) f)),
      fsmRestore = (\<lambda>bs f. Some (map (\<lambda>b. replicate (unat b) 0) bs)),
      fsmNeedSnapshot = (\<lambda>f n. n > 100)\<rparr>"

text \<open>A log with the given entries; \<open>layout\<close> gives them the offsets they have in the file.\<close>

fun layout :: "nat \<Rightarrow> LogEntry list \<Rightarrow> LogEntry list" where
  "layout off [] = []"
| "layout off (e # es) =
     (let e' = e\<lparr>Offset := int off\<rparr> in e' # layout (off + length (frame entry_marshal e')) es)"

definition sample_log :: "LogEntry list \<Rightarrow> persistentLog" where
  "sample_log es =
     (let xs = layout 0 es in
      \<lparr>entries = xs, lfile = OpenFile (length (frames entry_marshal xs)), disk = Some (frames entry_marshal xs),
       tmps = [], faults = []\<rparr>)"

definition sample_entry :: "nat \<Rightarrow> nat \<Rightarrow> bytes \<Rightarrow> LogEntry" where
  "sample_entry i t bs = NewLogEntry (of_nat i) (of_nat t) bs OperationEntry"

definition sample_storage :: "u64 \<Rightarrow> string \<Rightarrow> persistentStateStorage" where
  "sample_storage t v =
     \<lparr>st_state = Some \<lparr>ps_term = t, ps_votedFor = v\<rparr>, st_disk = state_frame state_marshal t v, st_tmps = [], st_faults = []\<rparr>"

definition sample_node :: "string \<Rightarrow> State \<Rightarrow> u64 \<Rightarrow> string \<Rightarrow> LogEntry list \<Rightarrow> (bytes list, nat) raft" where
  "sample_node i s t v es =
     \<lparr>raft_id = i, address = i, leaderID = '''', options = \<lparr>electionTimeout = 100, heartbeatInterval = 10, leaseDuration = 50\<rparr>,
      configuration = Some sample_conf, committedConfiguration = Some sample_conf, configurationResponseCh = None,
      followers = fmap_of_list [(''a'', 0), (''b'', 1), (''c'', 2)], followerAt = (\<lambda>_. newFollower), nextPtr = 3,
      manager = newOperationManager 0 50, log = sample_log es, stateStorage = sample_storage t v,
      snapshotStorage = \<lparr>snapshotDir = ''snapshots'', ss_dirs = fmempty, ss_tmpCount = 0, ss_faults = []\<rparr>,
      r_snapshot = None, fsm = [], state = s, commitIndex = 0, lastApplied = 0, currentTerm = t,
      lastIncludedIndex = 0, lastIncludedTerm = 0, votedFor = v, lastContact = 0,
      opChans = (\<lambda>_. None), confChans = (\<lambda>_. None), nextCh = 0, nextOp = 0, cells = (\<lambda>_. 0), nextCell = 0,
      woken = [], spawned = []\<rparr>"

lemmas sample_defs = sample_node_def sample_log_def sample_entry_def sample_storage_def sample_deps_def
  entry_marshal_def NewLogEntry_def emptyEntry_def frame_def frames_def toPb_def Let_def OperationEntry_def

definition sample_follower :: "(bytes list, nat) raft" where
  "sample_follower = sample_node ''b'' Follower 2 '''' [emptyEntry, sample_entry 1 1 [7], sample_entry 2 1 [8]]"

lemma sample_follower_wf: "wf_node sample_deps sample_follower"
  by (simp add: wf_node_def sample_follower_def sample_defs wf_log_def wf_entries_def encodable_def view_def strip_def)

end
