(* ===== verification/AppendProps.thy ===== *)
theory AppendProps
  imports Samples
begin

text \<open>The properties of \<^verbatim>\<open>AppendEntries\<close>, applied to a sample follower.\<close>

section \<open>What a success means\<close>

text \<open>C1. A successful \<^verbatim>\<open>AppendEntries\<close> leaves the follower with exactly the merged log: the request's
entries replace the log from the first conflicting entry on, and nothing else is removed. The log
stays well formed, the previous entry of the request matched, and the node is in the request's term.\<close>

theorem append_entries_refines:
  assumes "wf_node D r" "AppendEntries D now req r = (Inr res, r')" "aer_Success res"
    and "contiguous (ae_PrevLogIndex req + 1) (ae_Entries req)"
    and "unat (ae_PrevLogIndex req) + length (ae_Entries req) + 1 < 2 ^ 64"
  shows "wf_node D r' \<and> logview r' = merge_log (logview r) (ae_Entries req) \<and> matchesPrev req r \<and>
    currentTerm r' = ae_Term req \<and> currentTerm r \<le> ae_Term req"
  using AppendEntries_success[OF assms] by simp

definition sample_request :: AppendEntriesRequest where
  "sample_request = \<lparr>ae_LeaderID = ''a'', ae_Term = 2, ae_LeaderCommit = 2, ae_PrevLogIndex = 1, ae_PrevLogTerm = 1,
     ae_Entries = [sample_entry 2 2 [9], sample_entry 3 2 [10]]\<rparr>"

definition sample_accepted :: "(bytes list, nat) raft" where
  "sample_accepted = snd (AppendEntries sample_deps 7 sample_request sample_follower)"

lemma sample_accept:
  "AppendEntries sample_deps 7 sample_request sample_follower =
     (Inr \<lparr>aer_Term = 2, aer_Success = True, aer_Index = 0\<rparr>, sample_accepted)"
proof -
  have "fst (AppendEntries sample_deps 7 sample_request sample_follower) = Inr \<lparr>aer_Term = 2, aer_Success = True, aer_Index = 0\<rparr>"
    by code_simp
  then show ?thesis by (simp add: sample_accepted_def prod_eq_iff)
qed

lemma sample_request_ok:
  "contiguous (ae_PrevLogIndex sample_request + 1) (ae_Entries sample_request)"
  "unat (ae_PrevLogIndex sample_request) + length (ae_Entries sample_request) + 1 < 2 ^ 64"
  by (simp_all add: sample_request_def sample_entry_def NewLogEntry_def)

theorem append_entries_refines_witness:
  "wf_node sample_deps sample_accepted \<and> map Data (logview sample_accepted) = [[], [7], [9], [10]]"
proof -
  have "wf_node sample_deps sample_accepted \<and>
      logview sample_accepted = merge_log (logview sample_follower) (ae_Entries sample_request)"
    using append_entries_refines[OF sample_follower_wf sample_accept _ sample_request_ok] by simp
  moreover have "map Data (merge_log (logview sample_follower) (ae_Entries sample_request)) = [[], [7], [9], [10]]"
    by code_simp
  ultimately show ?thesis by simp
qed

text \<open>After a successful \<^verbatim>\<open>AppendEntries\<close> the follower holds, at every index the request covers, an
entry of the term the request has there (the request's entry, or the one that was there already),
and every entry up to the previous one is as before.\<close>

theorem append_entries_replicates:
  assumes "wf_node D r" "AppendEntries D now req r = (Inr res, r')" "aer_Success res"
    and "contiguous (ae_PrevLogIndex req + 1) (ae_Entries req)"
    and "unat (ae_PrevLogIndex req) + length (ae_Entries req) + 1 < 2 ^ 64"
  shows "(\<forall>k<length (ae_Entries req). \<exists>x. lookup (logview r') (ae_PrevLogIndex req + 1 + of_nat k) = Some x \<and>
      Term x = Term (ae_Entries req ! k) \<and>
      (x = strip (ae_Entries req ! k) \<or> lookup (logview r) (ae_PrevLogIndex req + 1 + of_nat k) = Some x)) \<and>
    (\<forall>i. i \<le> ae_PrevLogIndex req \<longrightarrow> lookup (logview r') i = lookup (logview r) i)"
  using AppendEntries_still_matches[OF assms] by blast

theorem append_entries_replicates_witness:
  "\<exists>x. lookup (logview sample_accepted) 3 = Some x \<and> Term x = 2"
proof -
  have l: "1 < length (ae_Entries sample_request)" "Term (ae_Entries sample_request ! 1) = 2"
    "ae_PrevLogIndex sample_request + 1 + of_nat 1 = 3"
    by (simp_all add: sample_request_def sample_entry_def NewLogEntry_def)
  show ?thesis
    using append_entries_replicates[OF sample_follower_wf sample_accept _ sample_request_ok, simplified, THEN conjunct1, rule_format, OF l(1)] l
    by auto
qed

text \<open>C20. \<^verbatim>\<open>AppendEntries\<close> is idempotent: when a request that succeeded arrives again, at the same term, it
succeeds again and changes neither the log nor the commit index.\<close>

theorem append_entries_idempotent:
  assumes "wf_node D r" "AppendEntries D now req r = (Inr res, r')" "aer_Success res"
    and "contiguous (ae_PrevLogIndex req + 1) (ae_Entries req)"
    and "unat (ae_PrevLogIndex req) + length (ae_Entries req) + 1 < 2 ^ 64"
    and "AppendEntries D now' req r' = (Inr res', r'')"
  shows "aer_Success res' \<and> logview r'' = logview r' \<and> commitIndex r'' = commitIndex r'"
proof -
  note s = AppendEntries_success[OF assms(1-5)] and m = AppendEntries_still_matches[OF assms(1-5)]
  have "matchesPrev req r'"
    using s(3,6,7) m(1,3) by (auto simp: matchesPrev_def split: if_splits)
  then have ok: "aer_Success res'"
    using AppendEntries_reject(4)[OF s(1) assms(6)] s(4) by auto
  note s2 = AppendEntries_success[OF s(1) assms(6) ok assms(4,5)]
  have "merge_log (logview r') (ae_Entries req) = logview r'"
  proof (rule merge_log_same)
    fix e assume "e \<in> set (ae_Entries req)"
    then obtain k where k: "k < length (ae_Entries req)" "e = ae_Entries req ! k" by (auto simp: in_set_conv_nth)
    then show "\<exists>x. lookup (logview r') (Index e) = Some x \<and> Term x = Term e"
      using m(2)[OF k(1)] contiguous_nth[OF assms(4) k(1)] by auto
  qed
  then show ?thesis using ok s2 s(8) by (auto simp: min_def)
qed

lemma sample_accept_again:
  "AppendEntries sample_deps 8 sample_request sample_accepted =
     (Inr \<lparr>aer_Term = 2, aer_Success = True, aer_Index = 0\<rparr>, snd (AppendEntries sample_deps 8 sample_request sample_accepted))"
proof -
  have "fst (AppendEntries sample_deps 8 sample_request sample_accepted) = Inr \<lparr>aer_Term = 2, aer_Success = True, aer_Index = 0\<rparr>"
    by code_simp
  then show ?thesis by (simp add: prod_eq_iff)
qed

theorem append_entries_idempotent_witness:
  "logview (snd (AppendEntries sample_deps 8 sample_request sample_accepted)) = logview sample_accepted"
  using append_entries_idempotent[OF sample_follower_wf sample_accept _ sample_request_ok sample_accept_again]
  by simp

section \<open>What a rejection means\<close>

text \<open>C21. A rejected \<^verbatim>\<open>AppendEntries\<close> leaves the log, the commit index and the configuration alone, and the
hint in the response moves the leader: either the node has a newer term and says so, or its log was
compacted past the previous entry and the hint is the first index after the snapshot, or the hint is
at most the previous index (below the leader's next index) and no entry from the hint to the previous
index has the term the leader asked for.\<close>

theorem append_entries_backtracks:
  assumes "wf_node D r" "AppendEntries D now req r = (Inr res, r')" "\<not> aer_Success res"
  shows "fixedOf r' = fixedOf r \<and> currentTerm r' = max (currentTerm r) (ae_Term req) \<and> aer_Term res = currentTerm r' \<and>
    (ae_Term req < currentTerm r \<and> r' = r \<or>
     currentTerm r \<le> ae_Term req \<and> \<not> matchesPrev req r \<and>
       (if ae_PrevLogIndex req < lastIncludedIndex r then aer_Index res = lastIncludedIndex r + 1
        else aer_Index res \<le> ae_PrevLogIndex req \<and>
          (\<forall>k e. aer_Index res \<le> k \<and> k \<le> ae_PrevLogIndex req \<and> lookup (logview r) k = Some e \<and>
             lastIncludedIndex r < k \<longrightarrow> Term e \<noteq> ae_PrevLogTerm req)))"
  using AppendEntries_reject[OF assms] by blast

definition sample_ahead :: AppendEntriesRequest where
  "sample_ahead = \<lparr>ae_LeaderID = ''a'', ae_Term = 2, ae_LeaderCommit = 2, ae_PrevLogIndex = 2, ae_PrevLogTerm = 2,
     ae_Entries = [sample_entry 3 2 [10]]\<rparr>"

theorem append_entries_backtracks_witness:
  "\<exists>r'. AppendEntries sample_deps 7 sample_ahead sample_follower = (Inr \<lparr>aer_Term = 2, aer_Success = False, aer_Index = 1\<rparr>, r') \<and>
     fixedOf r' = fixedOf sample_follower"
proof -
  have "fst (AppendEntries sample_deps 7 sample_ahead sample_follower) = Inr \<lparr>aer_Term = 2, aer_Success = False, aer_Index = 1\<rparr>"
    by code_simp
  then have r: "AppendEntries sample_deps 7 sample_ahead sample_follower =
      (Inr \<lparr>aer_Term = 2, aer_Success = False, aer_Index = 1\<rparr>, snd (AppendEntries sample_deps 7 sample_ahead sample_follower))"
    by (simp add: prod_eq_iff)
  show ?thesis using append_entries_backtracks[OF sample_follower_wf r] r by auto
qed

section \<open>The commit index\<close>

text \<open>C22. Committed entries are stable: if the request does not contradict the follower's entries up to its
commit index (which is what leader completeness gives), \<^verbatim>\<open>AppendEntries\<close> keeps every one of them, never
moves the commit index back, and moves it at most to the leader's commit index and to the end of
the log.\<close>

theorem append_entries_commit:
  assumes "wf_node D r" "AppendEntries D now req r = (Inr res, r')"
    and "contiguous (ae_PrevLogIndex req + 1) (ae_Entries req)"
    and "unat (ae_PrevLogIndex req) + length (ae_Entries req) + 1 < 2 ^ 64"
    and "commitIndex r \<le> lastIdx r"
    and "\<And>e x. e \<in> set (ae_Entries req) \<Longrightarrow> Index e \<le> commitIndex r \<Longrightarrow> lookup (logview r) (Index e) = Some x \<Longrightarrow> Term x = Term e"
  shows "(\<forall>i\<le>commitIndex r. lookup (logview r') i = lookup (logview r) i) \<and>
    commitIndex r \<le> commitIndex r' \<and> commitIndex r' \<le> lastIdx r' \<and>
    (commitIndex r' = commitIndex r \<or> commitIndex r' \<le> ae_LeaderCommit req)"
proof (cases "aer_Success res")
  case True
  note s = AppendEntries_success[OF assms(1,2) True assms(3,4)]
    and m = AppendEntries_still_matches[OF assms(1,2) True assms(3,4)]
  have "commitIndex r \<le> lastIdx r'" "\<And>i. i \<le> commitIndex r \<Longrightarrow> lookup (logview r') i = lookup (logview r) i"
    unfolding s(2) using merge_log_keeps[OF m(4) assms(3) m(5,6,7) assms(5)] assms(6) by auto
  then show ?thesis using s(8) by (auto simp: min_def)
next
  case False
  then show ?thesis using fixedD[OF AppendEntries_reject(1)[OF assms(1,2)]] assms(5) by simp
qed

theorem append_entries_commit_witness: "commitIndex sample_accepted = 2 \<and> 2 \<le> lastIdx sample_accepted"
proof -
  have c: "commitIndex sample_follower \<le> lastIdx sample_follower" "commitIndex sample_accepted = 2" by code_simp+
  have "commitIndex sample_follower = 0" by code_simp
  moreover have "Index e \<noteq> 0" if "e \<in> set (ae_Entries sample_request)" for e
    using that by (auto simp: sample_request_def sample_entry_def NewLogEntry_def)
  ultimately show ?thesis
    using append_entries_commit[OF sample_follower_wf sample_accept sample_request_ok c(1)] c(2)
    by (metis word_le_0_iff)
qed

end
