(* ===== verification/Election.thy ===== *)
theory Election
  imports Handlers
begin

text \<open>
  Elections in raft.go: \<^verbatim>\<open>electionTicker\<close>, \<^verbatim>\<open>election\<close>, \<^verbatim>\<open>sendRequestVoteToPeers\<close> and \<^verbatim>\<open>sendRequestVote\<close>, the last
  cut at the remote call.
\<close>

text \<open>One pass of \<^verbatim>\<open>electionTicker\<close> after its sleep, with the loop's exit as the result.\<close>

definition electionTicker :: "('f, 'r, bool) raftA" where
  "electionTicker = bindA getA (\<lambda>r.
     if state r = Shutdown then returnA False
     else bindA (broadcast electionCond) (\<lambda>_. returnA True))"

definition sendRequestVoteToPeers :: "('f, 'r) deps \<Rightarrow> time \<Rightarrow> ('f, 'r, unit) raftA" where
  "sendRequestVoteToPeers D now =
     bindA (readA isSingleServerCluster) (\<lambda>single.
     if single then becomeLeader D now
     else
       bindA (newCell 1) (\<lambda>votes.
       bindA (readA confOf) (\<lambda>c.
       modifyA (\<lambda>r. r\<lparr>spawned := spawned r @
         map (\<lambda>(i, a). GoRequestVote i a votes (state r = PreCandidate))
           (filter (\<lambda>(i, a). voterFlag c i) (peers r c))\<rparr>))))"

definition election :: "('f, 'r) deps \<Rightarrow> time \<Rightarrow> ('f, 'r, unit) raftA" where
  "election D now =
     bindA getA (\<lambda>r.
     if state r = Leader \<or> state r = Shutdown then returnA ()
     else
       bindA (readA (isVoter (raft_id r))) (\<lambda>v.
       if \<not> v \<or> now - lastContact r < electionTimeout (options r) then returnA ()
       else
         bindA (whenA (state r = Follower) becomePreCandidate) (\<lambda>_.
         bindA getA (\<lambda>r.
         bindA (whenA (state r = Candidate) (becomeCandidate D)) (\<lambda>_.
         sendRequestVoteToPeers D now)))))"

text \<open>\<open>None\<close>: no request is sent.\<close>

definition sendRequestVote_request :: "string \<Rightarrow> bool \<Rightarrow> ('f, 'r, RequestVoteRequest option) raftA" where
  "sendRequestVote_request i prevote =
     bindA (readA (isVoter i)) (\<lambda>v.
     bindA getA (\<lambda>r.
     bindA (readA (isVoter (raft_id r))) (\<lambda>v'.
     if \<not> v \<or> \<not> v' then returnA None
     else
       bindA lastIndexA (\<lambda>li.
       bindA lastTermA (\<lambda>lt.
       returnA (Some
         \<lparr>rv_CandidateID = raft_id r, rv_Term = (if prevote then currentTerm r + 1 else currentTerm r),
          rv_LastLogIndex = li, rv_LastLogTerm = lt, rv_Prevote = prevote\<rparr>))))))"

definition sendRequestVote_response :: "('f, 'r) deps \<Rightarrow> time \<Rightarrow> string \<Rightarrow> nat \<Rightarrow> bool \<Rightarrow> RequestVoteRequest \<Rightarrow>
    err + RequestVoteResponse \<Rightarrow> ('f, 'r, unit) raftA" where
  "sendRequestVote_response D now i votes prevote req reply =
     bindA getA (\<lambda>r.
     case reply of
       Inl _ \<Rightarrow> returnA ()
     | Inr res \<Rightarrow>
         if state r = Shutdown \<or> currentTerm r > rv_Term req then returnA ()
         else
           bindA (whenA (rvr_VoteGranted res)
             (modifyA (\<lambda>r. r\<lparr>cells := (cells r)(votes := cells r votes + 1)\<rparr>))) (\<lambda>_.
           if rvr_Term res > rv_Term req then becomeFollower D now i (rvr_Term res)
           else
             bindA getA (\<lambda>r.
             bindA (readA (hasQuorum (cells r votes))) (\<lambda>q.
             bindA (whenA (q \<and> state r = PreCandidate)
               (bindA (modifyA (\<lambda>r. r\<lparr>state := Candidate\<rparr>)) (\<lambda>_. broadcast electionCond))) (\<lambda>_.
             bindA getA (\<lambda>r.
             whenA (\<not> prevote \<and> q \<and> state r = Candidate) (becomeLeader D now)))))))"

end
