(* ===== verification/VoteSpec.thy ===== *)
theory VoteSpec
  imports Samples Election
begin

text \<open>
  \<^verbatim>\<open>RequestVote\<close>: when a vote is granted, what it changes and what is on disk afterwards. The order of
  logs by their last entries is a linear order on \<open>logpos\<close>.
\<close>

section \<open>Which log is more up to date\<close>

datatype logpos = LogPos (pos_term: u64) (pos_index: u64)

instantiation logpos :: linorder
begin

definition less_eq_logpos :: "logpos \<Rightarrow> logpos \<Rightarrow> bool" where
  "less_eq_logpos a b \<longleftrightarrow> pos_term a < pos_term b \<or> (pos_term a = pos_term b \<and> pos_index a \<le> pos_index b)"

definition less_logpos :: "logpos \<Rightarrow> logpos \<Rightarrow> bool" where
  "less_logpos a b \<longleftrightarrow> pos_term a < pos_term b \<or> (pos_term a = pos_term b \<and> pos_index a < pos_index b)"

instance
  by standard (auto simp: less_eq_logpos_def less_logpos_def logpos.expand)

end

definition lastPos :: "('f, 'r) raft \<Rightarrow> logpos" where
  "lastPos r = LogPos (Term (last (logview r))) (lastIdx r)"

definition candidatePos :: "RequestVoteRequest \<Rightarrow> logpos" where
  "candidatePos req = LogPos (rv_LastLogTerm req) (rv_LastLogIndex req)"

lemma logUpToDate_ok:
  assumes "wf_log mar (log r)"
  shows "logUpToDate req r = (Inr (lastPos r \<le> candidatePos req), r)"
proof -
  have "lastPos r \<le> candidatePos req \<longleftrightarrow> \<not> (rv_LastLogTerm req < Term (last (logview r)) \<or>
      (rv_LastLogTerm req = Term (last (logview r)) \<and> lastIdx r > rv_LastLogIndex req))"
    unfolding lastPos_def candidatePos_def less_eq_logpos_def logpos.sel by (metis not_less_iff_gr_or_eq not_le)
  then show ?thesis
    by (simp add: logUpToDate_def lastTermA_def lastIndexA_def bindA_Inr last_ops[OF assms])
qed

section \<open>The handler\<close>

definition grantsVote :: "time \<Rightarrow> RequestVoteRequest \<Rightarrow> ('f, 'r) raft \<Rightarrow> bool" where
  "grantsVote now req r \<longleftrightarrow>
     \<not> isValid now (leaderLease (manager r)) \<and> electionTimeout (options r) \<le> now - lastContact r \<and>
     currentTerm r \<le> rv_Term req \<and>
     (rv_Prevote req \<or> currentTerm r < rv_Term req \<or> votedFor r = '''' \<or> votedFor r = rv_CandidateID req) \<and>
     lastPos r \<le> candidatePos req"

text \<open>The term and the vote that a restart would recover are those in memory.\<close>

definition synced :: "('f, 'r) deps \<Rightarrow> ('f, 'r) raft \<Rightarrow> bool" where
  "synced D r \<longleftrightarrow> proto_codec (marshalState D) (unmarshalState D) \<and>
     wf_state (marshalState D) (unmarshalState D) (stateStorage r) \<and>
     durable (unmarshalState D) (stateStorage r) = (currentTerm r, votedFor r)"

lemma SetState_synced:
  assumes "proto_codec (marshalState D) (unmarshalState D)"
    "SetState (marshalState D) (currentTerm r') (votedFor r') p = (Inr u, stateStorage r')"
  shows "synced D r'"
  using SetState_law[OF assms] assms(1) by (simp add: synced_def)

lemma becomeFollower_synced:
  assumes "proto_codec (marshalState D) (unmarshalState D)" "becomeFollower D now leader t r = (Inr u, r')"
  shows "synced D r'"
  using becomeFollower_ok[OF assms(2)] by (intro SetState_synced[OF assms(1)]) auto

lemma RequestVote_cases:
  assumes "RequestVote D now req r = (Inr res, r')" "wf_log mar (log r)"
  obtains (prevote) "rv_Prevote req" "r' = r" "res = \<lparr>rvr_Term = currentTerm r, rvr_VoteGranted = grantsVote now req r\<rparr>"
  | (refused) "\<not> rv_Prevote req" "\<not> grantsVote now req r" "r' = r" "res = \<lparr>rvr_Term = currentTerm r, rvr_VoteGranted = False\<rparr>"
  | (stepped) "\<not> rv_Prevote req" "\<not> grantsVote now req r" "currentTerm r < rv_Term req"
      "becomeFollower D now (rv_CandidateID req) (rv_Term req) r = (Inr (), r')"
      "res = \<lparr>rvr_Term = rv_Term req, rvr_VoteGranted = False\<rparr>"
  | (granted) r1 p where "\<not> rv_Prevote req" "grantsVote now req r" "fixedOf r1 = fixedOf r" "currentTerm r1 = rv_Term req"
      "SetState (marshalState D) (rv_Term req) (rv_CandidateID req) (stateStorage r1) = (Inr (), p)"
      "r' = r1\<lparr>lastContact := now, votedFor := rv_CandidateID req, stateStorage := p\<rparr>"
      "res = \<lparr>rvr_Term = rv_Term req, rvr_VoteGranted = True\<rparr>"
proof -
  note up = logUpToDate_ok[OF assms(2), of req]
  have live: "state r \<noteq> Shutdown" using assms(1) by (auto simp: RequestVote_def)
  show ?thesis
  proof (cases "isValid now (leaderLease (manager r)) \<or> now - lastContact r < electionTimeout (options r) \<or> rv_Term req < currentTerm r")
    case True
    then have "\<not> grantsVote now req r" by (auto simp: grantsVote_def)
    then show ?thesis using True assms(1) live prevote refused
      by (cases "rv_Prevote req") (auto simp: RequestVote_def split: if_splits)
  next
    case early: False
    show ?thesis
    proof (cases "rv_Prevote req")
      case True
      then have "RequestVote D now req r = (Inr \<lparr>rvr_Term = currentTerm r, rvr_VoteGranted = grantsVote now req r\<rparr>, r)"
        using early live up by (auto simp: RequestVote_def bindA_Inr grantsVote_def)
      then show ?thesis using True assms(1) prevote by simp
    next
      case real: False
      obtain r1 where st: "whenA (rv_Term req > currentTerm r) (becomeFollower D now (rv_CandidateID req) (rv_Term req)) r = (Inr (), r1)"
        and rest: "(if votedFor r1 \<noteq> '''' \<and> votedFor r1 \<noteq> rv_CandidateID req then
             returnA \<lparr>rvr_Term = currentTerm r1, rvr_VoteGranted = False\<rparr>
           else bindA (logUpToDate req) (\<lambda>ok.
             if \<not> ok then returnA \<lparr>rvr_Term = currentTerm r1, rvr_VoteGranted = False\<rparr>
             else bindA (whenA (\<not> rv_Prevote req)
                 (bindA (modifyA (\<lambda>r. r\<lparr>lastContact := now, votedFor := rv_CandidateID req\<rparr>)) (\<lambda>_. persistTermAndVote D))) (\<lambda>_.
               returnA \<lparr>rvr_Term = currentTerm r1, rvr_VoteGranted = True\<rparr>))) r1 = (Inr res, r')"
        using assms(1) early live real by (auto simp: RequestVote_def bindA_eq_Inr)
      have f: "fixedOf r1 = fixedOf r" and t: "currentTerm r1 = rv_Term req"
        and v: "votedFor r1 = (if currentTerm r < rv_Term req then '''' else votedFor r)"
        using st early becomeFollower_ok[of D now "rv_CandidateID req" "rv_Term req" r "()" r1]
        by (auto simp: whenA_eq_Inr split: if_splits)
      have lp: "lastPos r1 = lastPos r" using fixedD[OF f] by (simp add: lastPos_def)
      have up1: "logUpToDate req r1 = (Inr (lastPos r \<le> candidatePos req), r1)"
        using logUpToDate_ok[of mar r1] assms(2) fixedD[OF f] lp by simp
      have g: "grantsVote now req r \<longleftrightarrow> (votedFor r1 = '''' \<or> votedFor r1 = rv_CandidateID req) \<and> lastPos r \<le> candidatePos req"
        using early real v by (auto simp: grantsVote_def)
      show ?thesis
      proof (cases "grantsVote now req r")
        case True
        then obtain p where "SetState (marshalState D) (rv_Term req) (rv_CandidateID req) (stateStorage r1) = (Inr (), p)"
          "r' = r1\<lparr>lastContact := now, votedFor := rv_CandidateID req, stateStorage := p\<rparr>"
          "res = \<lparr>rvr_Term = rv_Term req, rvr_VoteGranted = True\<rparr>"
          using rest g up1 t real by (auto simp: bindA_Inr bindA_eq_Inr persist_ok)
        then show ?thesis using granted[OF real True f t] by blast
      next
        case False
        then have r': "r' = r1" "res = \<lparr>rvr_Term = rv_Term req, rvr_VoteGranted = False\<rparr>"
          using rest g up1 t by (auto simp: bindA_Inr split: if_splits)
        show ?thesis
        proof (cases "currentTerm r < rv_Term req")
          case True
          then show ?thesis using stepped[OF real False True] st r' by simp
        next
          case eq: False
          then show ?thesis using refused[OF real False] st r' early by simp
        qed
      qed
    qed
  qed
qed

end
