(* ===== verification/VoteProps.thy ===== *)
theory VoteProps
  imports VoteSpec
begin

text \<open>The properties of \<^verbatim>\<open>RequestVote\<close>.\<close>

section \<open>Granting a vote\<close>

text \<open>C4. \<^verbatim>\<open>RequestVote\<close> grants a vote exactly when it should: the node has had no recent contact with a
leader, the request's term is not old, the candidate's log is at least as up to date as the node's
(last terms first, then last indices), and, for a real election, the node has not voted for somebody
else in that term. A granted real vote is on disk before the response: a restart recovers the
request's term and the candidate. The log, the commit index and the configuration do not change.\<close>

theorem request_vote_grant:
  assumes "wf_log (marshalEntry D) (log r)" "proto_codec (marshalState D) (unmarshalState D)"
    and "RequestVote D now req r = (Inr res, r')"
  shows "rvr_VoteGranted res = grantsVote now req r \<and> fixedOf r' = fixedOf r \<and>
    (rvr_VoteGranted res \<and> \<not> rv_Prevote req \<longrightarrow>
       currentTerm r' = rv_Term req \<and> votedFor r' = rv_CandidateID req \<and> synced D r')"
  using assms(3,1)
proof (cases rule: RequestVote_cases)
  case (granted r1 p)
  then have "synced D r'" by (intro SetState_synced[OF assms(2), of _ "stateStorage r1" "()"]) simp
  moreover have "fixedOf r' = fixedOf r1" using granted(6) by (simp add: fixedOf_def)
  ultimately show ?thesis using granted by simp
qed (auto dest: becomeFollower_ok(5))

definition sample_vote :: "string \<Rightarrow> RequestVoteRequest" where
  "sample_vote c = \<lparr>rv_CandidateID = c, rv_Term = 3, rv_LastLogIndex = 2, rv_LastLogTerm = 1, rv_Prevote = False\<rparr>"

definition sample_voted :: "(bytes list, nat) raft" where
  "sample_voted = snd (RequestVote sample_deps 200 (sample_vote ''c'') sample_follower)"

lemma sample_vote_run:
  "RequestVote sample_deps 200 (sample_vote ''c'') sample_follower = (Inr \<lparr>rvr_Term = 3, rvr_VoteGranted = True\<rparr>, sample_voted)"
proof -
  have "fst (RequestVote sample_deps 200 (sample_vote ''c'') sample_follower) = Inr \<lparr>rvr_Term = 3, rvr_VoteGranted = True\<rparr>"
    by code_simp
  then show ?thesis by (simp add: sample_voted_def prod_eq_iff)
qed

lemma sample_follower_log: "wf_log (marshalEntry sample_deps) (log sample_follower)"
  using sample_follower_wf by (simp add: wf_node_def)

lemma sample_state_codec: "proto_codec (marshalState sample_deps) (unmarshalState sample_deps)"
  by (simp add: sample_deps_def state_codec)

theorem request_vote_grant_witness:
  "votedFor sample_voted = ''c'' \<and> durable state_unmarshal (stateStorage sample_voted) = (3, ''c'')"
  using request_vote_grant[OF sample_follower_log sample_state_codec sample_vote_run]
  by (simp add: synced_def sample_deps_def sample_vote_def)

section \<open>Prevotes\<close>



section \<open>One vote per term\<close>

text \<open>The requests handled one after the other, with their responses.\<close>

fun handleVotes :: "('f, 'r) deps \<Rightarrow> (time \<times> RequestVoteRequest) list \<Rightarrow> ('f, 'r, RequestVoteResponse list) raftA" where
  "handleVotes D [] = returnA []"
| "handleVotes D ((now, req) # qs) =
     bindA (RequestVote D now req) (\<lambda>res. bindA (handleVotes D qs) (\<lambda>rs. returnA (res # rs)))"

lemma RequestVote_vote:
  assumes "RequestVote D now req r = (Inr res, r')" "wf_log mar (log r)"
  shows "currentTerm r \<le> currentTerm r'" "log r' = log r"
    "currentTerm r' = currentTerm r \<Longrightarrow> votedFor r \<noteq> '''' \<Longrightarrow> votedFor r' = votedFor r"
    "rvr_VoteGranted res \<Longrightarrow> \<not> rv_Prevote req \<Longrightarrow>
       currentTerm r' = rv_Term req \<and> votedFor r' = rv_CandidateID req \<and> currentTerm r \<le> rv_Term req"
proof -
  have "currentTerm r \<le> currentTerm r' \<and> log r' = log r \<and>
    (currentTerm r' = currentTerm r \<longrightarrow> votedFor r \<noteq> '''' \<longrightarrow> votedFor r' = votedFor r) \<and>
    (rvr_VoteGranted res \<longrightarrow> \<not> rv_Prevote req \<longrightarrow>
       currentTerm r' = rv_Term req \<and> votedFor r' = rv_CandidateID req \<and> currentTerm r \<le> rv_Term req)"
    using assms
  proof (cases rule: RequestVote_cases)
    case stepped
    then show ?thesis using becomeFollower_ok[OF stepped(4)] fixedD(2)[OF becomeFollower_ok(5)[OF stepped(4)]] by auto
  next
    case (granted r1 p)
    then show ?thesis using fixedD(2)[OF granted(3)] by (auto simp: grantsVote_def)
  qed auto
  then show "currentTerm r \<le> currentTerm r'" "log r' = log r"
    "currentTerm r' = currentTerm r \<Longrightarrow> votedFor r \<noteq> '''' \<Longrightarrow> votedFor r' = votedFor r"
    "rvr_VoteGranted res \<Longrightarrow> \<not> rv_Prevote req \<Longrightarrow>
       currentTerm r' = rv_Term req \<and> votedFor r' = rv_CandidateID req \<and> currentTerm r \<le> rv_Term req"
    by auto
qed

text \<open>A vote given before the sequence binds every vote of the same term in it.\<close>

lemma handleVotes_bound:
  assumes "handleVotes D qs r = (Inr rs, r')" "wf_log mar (log r)"
    and "k < length qs" "rvr_VoteGranted (rs ! k)" "\<not> rv_Prevote (snd (qs ! k))"
  shows "currentTerm r \<le> rv_Term (snd (qs ! k))"
    "rv_Term (snd (qs ! k)) = currentTerm r \<Longrightarrow> votedFor r \<noteq> '''' \<Longrightarrow> rv_CandidateID (snd (qs ! k)) = votedFor r"
proof -
  have "currentTerm r \<le> rv_Term (snd (qs ! k)) \<and>
    (rv_Term (snd (qs ! k)) = currentTerm r \<longrightarrow> votedFor r \<noteq> '''' \<longrightarrow> rv_CandidateID (snd (qs ! k)) = votedFor r)"
    using assms
  proof (induction qs arbitrary: r rs k)
    case (Cons q qs)
    obtain now req where q: "q = (now, req)" by (cases q)
    from Cons.prems(1) obtain res rs' r1 where v: "RequestVote D now req r = (Inr res, r1)"
      and h: "handleVotes D qs r1 = (Inr rs', r')" and rs: "rs = res # rs'"
      by (auto simp: q bindA_eq_Inr)
    note vv = RequestVote_vote[OF v Cons.prems(2)]
    show ?case
    proof (cases k)
      case 0
      then show ?thesis using vv Cons.prems(4,5) rs q by auto
    next
      case (Suc k')
      then show ?thesis
        using Cons.IH[OF h, of k'] vv Cons.prems rs q by (auto dest: order_antisym)
    qed
  qed simp
  then show "currentTerm r \<le> rv_Term (snd (qs ! k))"
    "rv_Term (snd (qs ! k)) = currentTerm r \<Longrightarrow> votedFor r \<noteq> '''' \<Longrightarrow> rv_CandidateID (snd (qs ! k)) = votedFor r"
    by blast+
qed

text \<open>C12. Answering vote requests alone, a node votes for at most one candidate in a term: of two real
requests of the same term that are granted in any sequence of requests, both name the same candidate.\<close>

theorem one_vote_per_term:
  assumes "handleVotes D qs r = (Inr rs, r')" "wf_log (marshalEntry D) (log r)"
    and "i < j" "j < length qs" "rvr_VoteGranted (rs ! i)" "rvr_VoteGranted (rs ! j)"
    and "\<not> rv_Prevote (snd (qs ! i))" "\<not> rv_Prevote (snd (qs ! j))"
    and "rv_Term (snd (qs ! i)) = rv_Term (snd (qs ! j))" "rv_CandidateID (snd (qs ! i)) \<noteq> ''''"
  shows "rv_CandidateID (snd (qs ! i)) = rv_CandidateID (snd (qs ! j))"
  using assms
proof (induction qs arbitrary: r rs i j)
  case (Cons q qs)
  obtain now req where q: "q = (now, req)" by (cases q)
  from Cons.prems(1) obtain res rs' r1 where v: "RequestVote D now req r = (Inr res, r1)"
    and h: "handleVotes D qs r1 = (Inr rs', r')" and rs: "rs = res # rs'"
    by (auto simp: q bindA_eq_Inr)
  note vv = RequestVote_vote[OF v Cons.prems(2)]
  have wf1: "wf_log (marshalEntry D) (log r1)" using vv(2) Cons.prems(2) by simp
  obtain j' where j: "j = Suc j'" using Cons.prems(3) by (cases j) auto
  show ?case
  proof (cases i)
    case 0
    then show ?thesis
      using handleVotes_bound(2)[OF h wf1, of j'] vv(4) Cons.prems j rs q by auto
  next
    case (Suc i')
    then show ?thesis using Cons.IH[OF h wf1, of i' j'] Cons.prems j rs q by auto
  qed
qed simp

definition sample_votes :: "(time \<times> RequestVoteRequest) list" where
  "sample_votes = [(200, sample_vote ''c''), (400, sample_vote ''c'')]"

theorem one_vote_per_term_witness:
  "\<exists>rs r'. handleVotes sample_deps sample_votes sample_follower = (Inr rs, r') \<and>
     map rvr_VoteGranted rs = [True, True] \<and>
     rv_CandidateID (snd (sample_votes ! 0)) = rv_CandidateID (snd (sample_votes ! 1))"
proof -
  let ?rs = "[\<lparr>rvr_Term = 3, rvr_VoteGranted = True\<rparr>, \<lparr>rvr_Term = 3, rvr_VoteGranted = True\<rparr>]"
  have "fst (handleVotes sample_deps sample_votes sample_follower) = Inr ?rs" by code_simp
  then have h: "handleVotes sample_deps sample_votes sample_follower =
      (Inr ?rs, snd (handleVotes sample_deps sample_votes sample_follower))" by (simp add: prod_eq_iff)
  have "rv_CandidateID (snd (sample_votes ! 0)) = rv_CandidateID (snd (sample_votes ! 1))"
    by (rule one_vote_per_term[OF h sample_follower_log]) (simp_all add: sample_votes_def sample_vote_def)
  with h show ?thesis by fastforce
qed

section \<open>A second vote in the same term\<close>



end
