(* ===== verification/ReplicationSpec.thy ===== *)
theory ReplicationSpec
  imports AppendSpec
begin

text \<open>
  What the leader sends, what its bookkeeping means, and when it commits.
\<close>

section \<open>The request\<close>

lemma readEntries_ok:
  "readEntries is r = (Inr es, r') \<Longrightarrow> r' = r \<and> length es = length is \<and> (\<forall>k<length is. GetEntry (is ! k) (log r) = Inr (es ! k))"
proof (induction "is" arbitrary: es)
  case (Cons i "is")
  then obtain e es' where "GetEntry i (log r) = Inr e" "readEntries is r = (Inr es', r')" "es = e # es'"
    by (auto simp: bindA_eq_Inr)
  then show ?case using Cons.IH[of es'] by (auto simp: less_Suc_eq_0_disj)
qed auto

lemma contiguousI: "(\<And>k. k < length es \<Longrightarrow> Index (es ! k) = j + of_nat k) \<Longrightarrow> contiguous j es"
proof (induction es arbitrary: j)
  case (Cons e es)
  have "Index (es ! k) = j + 1 + of_nat k" if "k < length es" for k
    using Cons.prems[of "Suc k"] that by simp
  then show ?case using Cons.IH[of "j + 1"] Cons.prems[of 0] by simp
qed simp

lemma index_range_props:
  "length (index_range a b) = Suc (unat b) - unat a"
  "k < Suc (unat b) - unat a \<Longrightarrow> index_range a b ! k = a + of_nat k"
  by (auto simp: index_range_def nth_append simp del: upt_Suc)

text \<open>The entry that precedes the request in the leader's log: in the log, or the snapshot's last.\<close>

definition termAt :: "('f, 'r) raft \<Rightarrow> u64 \<Rightarrow> u64 option" where
  "termAt r i = (if i = lastIncludedIndex r then Some (lastIncludedTerm r) else map_option Term (lookup (logview r) i))"

lemma prevTerm_ok:
  assumes "wf_node D r" "prevTerm i r = (Inr t, r')" "lastIncludedIndex r \<le> i"
  shows "r' = r" "i \<le> lastIdx r \<Longrightarrow> termAt r i = Some t"
proof -
  note wf = assms(1)[unfolded wf_node_def, THEN conjunct1]
  have r: "r' = r \<and> (i \<le> lastIdx r \<longrightarrow> termAt r i = Some t)"
  proof (cases "lastIncludedIndex r < i \<and> i \<le> lastIdx r")
    case True
    then obtain e where "GetEntry i (log r) = Inr e" "lookup (logview r) i = Some (strip e)"
      using prev_entry[OF assms(1)] by blast
    then show ?thesis
      using assms(2) True nextIndexA_ok[OF wf] lastIdx_Suc[OF wf, of i]
      by (auto simp: prevTerm_def bindA_Inr bindA_eq_Inr termAt_def)
  next
    case False
    then show ?thesis
      using assms(2,3) nextIndexA_ok[OF wf] lastIdx_Suc[OF wf, of i]
      by (auto simp: prevTerm_def bindA_Inr termAt_def split: if_splits)
  qed
  then show "r' = r" "i \<le> lastIdx r \<Longrightarrow> termAt r i = Some t" by auto
qed

text \<open>
  The request holds the leader's log from the follower's next index to its end. When the next
  index is behind the log's end the slice cannot be made (short of indices close to the word size).
\<close>

lemma request_ok:
  assumes "wf_node D r" "sendAppendEntries_request i r = (Inr (AeEntries p req), r')"
  shows "r' = r" "state r = Leader" "fmlookup (followers r) i = Some p"
    "ae_Term req = currentTerm r" "ae_LeaderID req = raft_id r" "ae_LeaderCommit req = commitIndex r"
    "ae_PrevLogIndex req + 1 = nextIndex (followerAt r p)" "lastIncludedIndex r \<le> ae_PrevLogIndex req"
    "contiguous (ae_PrevLogIndex req + 1) (ae_Entries req)"
    "unat (ae_PrevLogIndex req) + 1 = unat (nextIndex (followerAt r p))"
    "ae_PrevLogIndex req \<le> lastIdx r \<Longrightarrow>
       termAt r (ae_PrevLogIndex req) = Some (ae_PrevLogTerm req) \<and>
       unat (ae_PrevLogIndex req) + length (ae_Entries req) = unat (lastIdx r) \<and>
       (\<forall>k<length (ae_Entries req). lookup (logview r) (ae_PrevLogIndex req + 1 + of_nat k) = Some (strip (ae_Entries req ! k)))"
    "\<not> ae_PrevLogIndex req \<le> lastIdx r \<Longrightarrow> ae_Entries req = [] \<and> 2 ^ 64 - 2 ^ 45 \<le> unat (nextIndex (followerAt r p))"
proof -
  let ?n = "nextIndex (followerAt r p)" and ?ni = "lastIdx r + 1"
  note wf = assms(1)[unfolded wf_node_def, THEN conjunct1]
  note ni = nextIndexA_ok[OF wf]
  have lp: "lastIncludedIndex r < ?n \<and> state r = Leader \<and> fmlookup (followers r) i = Some p"
    using assms(2)
    by (auto simp: sendAppendEntries_request_def bindA_eq_Inr followerPtr_def Let_def not_le
             split: if_splits option.splits)
  then have u: "unat (?n - 1) + 1 = unat ?n" by (simp add: unat_diff_le word_le_nat_alt word_less_nat_alt)
  then have le: "lastIncludedIndex r \<le> ?n - 1" using lp by (auto simp: word_le_nat_alt word_less_nat_alt)
  then have mx: "Max (?n - 1) (lastIncludedIndex r) = ?n - 1" by (simp add: max_def)
  obtain t es where pt: "prevTerm (?n - 1) r = (Inr t, r)" and cap: "\<not> ?ni - ?n > 2 ^ 45"
    and es: "readEntries (if ?n < ?ni then index_range ?n (?ni - 1) else []) r = (Inr es, r')"
    and req: "req = \<lparr>ae_LeaderID = raft_id r, ae_Term = currentTerm r, ae_LeaderCommit = commitIndex r,
              ae_PrevLogIndex = ?n - 1, ae_PrevLogTerm = t, ae_Entries = es\<rparr>"
    using assms(2) lp mx ni prevTerm_ok(1)[OF assms(1) _ le]
    by (auto simp: sendAppendEntries_request_def bindA_eq_Inr followerPtr_def Let_def not_le makeEntriesSlice_def
             split: if_splits option.splits)
  have r': "r' = r" using readEntries_ok[OF es] by blast
  show "r' = r" "state r = Leader" "fmlookup (followers r) i = Some p"
    "ae_Term req = currentTerm r" "ae_LeaderID req = raft_id r" "ae_LeaderCommit req = commitIndex r"
    "ae_PrevLogIndex req + 1 = ?n" "lastIncludedIndex r \<le> ae_PrevLogIndex req"
    "unat (ae_PrevLogIndex req) + 1 = unat ?n"
    using r' lp req le u by auto
  have rng: "lookup (logview r) (?n + of_nat k) = Some (strip (es ! k)) \<and> Index (es ! k) = ?n + of_nat k"
    if k: "k < length es" for k
  proof -
    have lt: "?n < ?ni" using readEntries_ok[OF es] k by (auto split: if_splits)
    then have "GetEntry (?n + of_nat k) (log r) = Inr (es ! k)"
      using readEntries_ok[OF es] k by (auto simp: index_range_props)
    then show ?thesis using plog.get_term[OF wf] by auto
  qed
  show "contiguous (ae_PrevLogIndex req + 1) (ae_Entries req)" using rng req by (auto intro: contiguousI)
  have le_iff: "?n - 1 \<le> lastIdx r \<longleftrightarrow> ?n \<le> ?ni"
    using u unat_Suc_word[OF lastIdx_bound[OF wf]] by (simp add: word_le_nat_alt) linarith
  have ln: "length es = (if ?n < ?ni then Suc (unat (lastIdx r)) - unat ?n else 0)"
    using readEntries_ok[OF es] by (auto simp: index_range_props)
  show "ae_PrevLogIndex req \<le> lastIdx r \<Longrightarrow>
       termAt r (ae_PrevLogIndex req) = Some (ae_PrevLogTerm req) \<and>
       unat (ae_PrevLogIndex req) + length (ae_Entries req) = unat (lastIdx r) \<and>
       (\<forall>k<length (ae_Entries req). lookup (logview r) (ae_PrevLogIndex req + 1 + of_nat k) = Some (strip (ae_Entries req ! k)))"
    using prevTerm_ok(2)[OF assms(1) pt le] rng req ln u unat_Suc_word[OF lastIdx_bound[OF wf]] le_iff
    by (auto simp: word_less_nat_alt word_le_nat_alt)
  assume "\<not> ae_PrevLogIndex req \<le> lastIdx r"
  then have gt: "?ni < ?n" using le_iff req by auto
  then have "unat (?ni - ?n) = 2 ^ 64 - (unat ?n - unat ?ni)" by (rule unat_diff_wrap)
  then show "ae_Entries req = [] \<and> 2 ^ 64 - 2 ^ 45 \<le> unat ?n"
    using cap ln req gt by (auto simp: word_less_nat_alt)
qed

section \<open>The commit loop\<close>

text \<open>
  \<open>committable\<close>: the entry is of the current term, and this node together with the other voters
  whose match index has reached it are more than half of the voters.
\<close>

definition committable :: "Configuration \<Rightarrow> ('f, 'r) raft \<Rightarrow> u64 \<Rightarrow> bool" where
  "committable c r i \<longleftrightarrow> map_option Term (lookup (logview r) i) = Some (currentTerm r) \<and>
     1 + fcard (matchingVoters i c r) > numVoters c div 2"

lemma committable_upd [simp]: "committable c (r\<lparr>commitIndex := k\<rparr>) i = committable c r i"
  by (simp add: committable_def matchingVoters_def)

lemma commitScan_ok:
  assumes "commitScan is b r = (Inr b', r')" "wf_log mar (log r)" "configuration r = Some c"
  shows "r' = (let ok = filter (committable c r) is in if ok = [] then r else r\<lparr>commitIndex := last ok\<rparr>) \<and>
    b' = (b \<or> filter (committable c r) is \<noteq> [])"
  using assms
proof (induction "is" arbitrary: b r)
  case (Cons i "is")
  from Cons.prems(1) obtain e where g: "GetEntry i (log r) = Inr e"
    by (auto simp: bindA_eq_Inr)
  then have l: "lookup (logview r) i = Some (strip e)" using plog.get_term[OF Cons.prems(2)] by auto
  have q: "hasQuorum (1 + int (fcard (matchingVoters i c r))) r = Inr (1 + fcard (matchingVoters i c r) > numVoters c div 2)"
    "countMatches i r = Inr (1 + int (fcard (matchingVoters i c r)))"
    using Cons.prems(3) by (auto simp: hasQuorum_def countMatches_def confOf_def simp flip: of_nat_Suc)
  show ?case
  proof (cases "committable c r i")
    case True
    then have "commitScan is True (r\<lparr>commitIndex := i\<rparr>) = (Inr b', r')"
      using Cons.prems(1) g l q by (auto simp: committable_def bindA_eq_Inr)
    from Cons.IH[OF this] Cons.prems(2,3) True show ?thesis by (auto simp: Let_def)
  next
    case False
    then have "commitScan is b r = (Inr b', r')"
      using Cons.prems(1) g l q by (auto simp: committable_def bindA_eq_Inr split: if_splits)
    from Cons.IH[OF this Cons.prems(2,3)] False show ?thesis by simp
  qed
qed auto

lemma sorted_index_range: "sorted (index_range a b)"
proof (rule sorted_iff_nth_mono[THEN iffD2], intro allI impI)
  fix i j assume ij: "i \<le> j" "j < length (index_range a b)"
  then have "unat (a + of_nat k) = unat a + k" if "k \<le> j" for k
    using that unat_u64_less[of b] by (intro unat_add_of_nat) (auto simp: index_range_props)
  with ij show "index_range a b ! i \<le> index_range a b ! j"
    by (auto simp: index_range_props word_le_nat_alt)
qed

lemma keeps_sendToPeers:
  assumes "\<And>s r. f (r\<lparr>manager := s\<rparr>) = f r" "\<And>s r. f (r\<lparr>woken := s\<rparr>) = f r" "\<And>s r. f (r\<lparr>spawned := s\<rparr>) = f r"
    "\<And>s t r. f (r\<lparr>cells := s, nextCell := t\<rparr>) = f r"
  shows "keepsA f (sendAppendEntriesToPeers now)"
  unfolding sendAppendEntriesToPeers_def lastIndexA_def tryApplyReadOnlyOperations_def broadcast_def newCell_def
  by (intro keeps.from_get keeps.intros) (simp_all add: assms)

lemma commitLoop_ok:
  assumes "wf_node D r" "configuration r = Some c" "commitLoop now r = (Inr u, r')" "state r = Leader"
  shows "commitIndex r' = (let ok = filter (committable c r) (index_range (commitIndex r + 1) (lastIdx r))
                           in if ok = [] then commitIndex r else last ok)"
    "log r' = log r" "currentTerm r' = currentTerm r" "lastApplied r' = lastApplied r"
proof -
  note wf = assms(1)[unfolded wf_node_def, THEN conjunct1]
  have k: "keepsA core (sendAppendEntriesToPeers now)" by (rule keeps_sendToPeers) (simp_all add: core_def)
  from assms(3,4) lastIndexA_ok[OF wf] obtain b r1 where
    s: "commitScan (index_range (commitIndex r + 1) (lastIdx r)) False r = (Inr b, r1)"
    and w: "whenA b (bindA (broadcast applyCond) (\<lambda>_. sendAppendEntriesToPeers now)) r1 = (Inr (), r')"
    by (auto simp: commitLoop_def bindA_eq_Inr)
  have "keepsA core (whenA b (bindA (broadcast applyCond) (\<lambda>_. sendAppendEntriesToPeers now)))"
    unfolding broadcast_def by (intro keeps.intros k) (simp add: core_def)
  from relAD[OF this w] show "commitIndex r' = (let ok = filter (committable c r) (index_range (commitIndex r + 1) (lastIdx r))
                           in if ok = [] then commitIndex r else last ok)"
    "log r' = log r" "currentTerm r' = currentTerm r" "lastApplied r' = lastApplied r"
    using commitScan_ok[OF s wf assms(2)] by (auto simp: core_def Let_def split: if_splits)
qed

end
