(* ===== verification/ReplicationProps.thy ===== *)
theory ReplicationProps
  imports ReplicationSpec Samples
begin

text \<open>The properties of the leader's requests and of the commit loop.\<close>

section \<open>Requests\<close>

text \<open>C23. The AppendEntries request that the leader builds is well formed: its entries are consecutive,
they are the leader's own log from the follower's next index to the end, the previous index and term are
those of the entry before them (or of the snapshot), and building it changes nothing.\<close>

theorem append_request_sound:
  assumes "wf_node D r" "sendAppendEntries_request i r = (Inr (AeEntries p req), r')"
    and "unat (nextIndex (followerAt r p)) < 2 ^ 63"
  shows "r' = r \<and> ae_Term req = currentTerm r \<and> ae_PrevLogIndex req + 1 = nextIndex (followerAt r p) \<and>
    contiguous (ae_PrevLogIndex req + 1) (ae_Entries req) \<and>
    termAt r (ae_PrevLogIndex req) = Some (ae_PrevLogTerm req) \<and>
    unat (ae_PrevLogIndex req) + length (ae_Entries req) = unat (lastIdx r) \<and>
    (\<forall>k<length (ae_Entries req). lookup (logview r) (ae_PrevLogIndex req + 1 + of_nat k) = Some (strip (ae_Entries req ! k)))"
proof -
  note q = request_ok[OF assms(1,2)]
  have "ae_PrevLogIndex req \<le> lastIdx r" using q(12) assms(3) by fastforce
  then show ?thesis using q(1,4,7,9,11) by blast
qed

definition sample_leader :: "(bytes list, nat) raft" where
  "sample_leader = (sample_node ''a'' Leader 2 ''a'' [emptyEntry, sample_entry 1 1 [7], sample_entry 2 2 [9], sample_entry 3 2 [10]])
     \<lparr>followerAt := (\<lambda>p. if p = 1 then \<lparr>nextIndex = 2, matchIndex = 3, f_snapshot = None\<rparr> else newFollower)\<rparr>"

lemma sample_leader_wf: "wf_node sample_deps sample_leader"
  by (simp add: wf_node_def sample_leader_def sample_defs wf_log_def wf_entries_def encodable_def view_def strip_def)

definition sample_sent :: AppendEntriesRequest where
  "sample_sent = (case fst (sendAppendEntries_request ''b'' sample_leader) of
     Inr (AeEntries p req) \<Rightarrow> req | _ \<Rightarrow> undefined)"

lemma sample_send:
  "sendAppendEntries_request ''b'' sample_leader = (Inr (AeEntries 1 sample_sent), snd (sendAppendEntries_request ''b'' sample_leader))"
proof -
  have "case fst (sendAppendEntries_request ''b'' sample_leader) of Inr (AeEntries p req) \<Rightarrow> p = 1 | _ \<Rightarrow> False"
    by code_simp
  then have "fst (sendAppendEntries_request ''b'' sample_leader) = Inr (AeEntries 1 sample_sent)"
    by (auto simp: sample_sent_def split: sum.splits aeCall.splits)
  then show ?thesis by (simp add: prod_eq_iff)
qed

lemma sample_next: "unat (nextIndex (followerAt sample_leader 1)) < 2 ^ 63"
  by (simp add: sample_leader_def)

theorem append_request_sound_witness:
  "ae_PrevLogIndex sample_sent + 1 = 2 \<and> unat (ae_PrevLogIndex sample_sent) + length (ae_Entries sample_sent) = 3"
proof -
  have "unat (lastIdx sample_leader) = 3" by code_simp
  moreover have "nextIndex (followerAt sample_leader 1) = 2" by (simp add: sample_leader_def)
  ultimately show ?thesis
    using append_request_sound[OF sample_leader_wf sample_send sample_next] by metis
qed

section \<open>Commitment\<close>

text \<open>C3. The commit loop of the leader moves the commit index to the greatest index of its log that is
committable: the entry is of the current term and the voters known to store it, the leader included, are
a majority. It never moves the commit index back, and never to an entry of an earlier term.\<close>

theorem commit_greatest:
  assumes "wf_node D r" "configuration r = Some c" "state r = Leader" "commitIndex r \<le> lastIdx r"
    and "commitLoop now r = (Inr u, r')"
  shows "commitIndex r \<le> commitIndex r' \<and> commitIndex r' \<le> lastIdx r \<and>
    (commitIndex r' \<noteq> commitIndex r \<longrightarrow> committable c r (commitIndex r')) \<and>
    (\<forall>i. commitIndex r' < i \<and> i \<le> lastIdx r \<longrightarrow> \<not> committable c r i)"
proof -
  let ?rng = "index_range (commitIndex r + 1) (lastIdx r)" and ?ok = "filter (committable c r) (index_range (commitIndex r + 1) (lastIdx r))"
  note wf = assms(1)[unfolded wf_node_def, THEN conjunct1]
  have ci: "commitIndex r' = (if ?ok = [] then commitIndex r else last ?ok)"
    using commitLoop_ok(1)[OF assms(1,2,5,3)] by (simp add: Let_def)
  have "unat (commitIndex r + 1) = unat (commitIndex r) + 1"
    using assms(4) lastIdx_bound[OF wf] by (intro unat_Suc_word) (simp add: word_le_nat_alt)
  then have rng: "i \<in> set ?rng \<longleftrightarrow> commitIndex r < i \<and> i \<le> lastIdx r" for i
    by (auto simp: set_index_range word_le_nat_alt word_less_nat_alt)
  have mx: "i \<le> last ?ok" if "i \<in> set ?ok" for i
    using that by (intro last_sorted_max sorted_wrt_filter sorted_index_range) auto
  show ?thesis
  proof (cases "?ok = []")
    case True
    then have "\<forall>i\<in>set ?rng. \<not> committable c r i" by (simp add: filter_empty_conv)
    then show ?thesis using ci True rng assms(4) by auto
  next
    case False
    then have l: "last ?ok \<in> set ?ok" by (rule last_in_set)
    then have "committable c r (last ?ok)" "commitIndex r < last ?ok" "last ?ok \<le> lastIdx r" using rng by auto
    moreover have "\<not> committable c r i" if "last ?ok < i" "i \<le> lastIdx r" for i
    proof
      assume "committable c r i"
      moreover have "i \<in> set ?rng" unfolding rng using that \<open>commitIndex r < last ?ok\<close> by simp
      ultimately have "i \<le> last ?ok" by (intro mx) simp
      with that(1) show False by simp
    qed
    moreover have "commitIndex r' = last ?ok" unfolding ci using False by (rule if_not_P)
    ultimately show ?thesis by (metis less_imp_le)
  qed
qed

theorem commit_greatest_witness:
  "commitIndex (snd (commitLoop 5 sample_leader)) = 3 \<and> committable sample_conf sample_leader 3"
proof -
  have "fst (commitLoop 5 sample_leader) = Inr ()" and c: "commitIndex (snd (commitLoop 5 sample_leader)) = 3"
    "commitIndex sample_leader \<le> lastIdx sample_leader" "commitIndex sample_leader = 0" by code_simp+
  then have r: "commitLoop 5 sample_leader = (Inr (), snd (commitLoop 5 sample_leader))" by (simp add: prod_eq_iff)
  have "configuration sample_leader = Some sample_conf" "state sample_leader = Leader"
    by (simp_all add: sample_leader_def sample_node_def)
  from commit_greatest[OF sample_leader_wf this c(2) r] c show ?thesis by auto
qed

text \<open>C11. When the leader is a voter of its configuration, an index that the commit loop commits is
stored, as far as the leader knows, by a set of voters that is a quorum: any other quorum of the same
configuration contains a voter of that set.\<close>

theorem commit_quorum:
  assumes "wf_node D r" "configuration r = Some c" "state r = Leader" "commitIndex r \<le> lastIdx r"
    and "commitLoop now r = (Inr u, r')" "commitIndex r' \<noteq> commitIndex r" "voterFlag c (raft_id r)" "isQuorum c Q"
  shows "\<exists>i. i |\<in>| Q \<and> (i = raft_id r \<or> (\<exists>p. fmlookup (followers r) i = Some p \<and> commitIndex r' \<le> matchIndex (followerAt r p)))"
proof -
  let ?ok = "filter (committable c r) (index_range (commitIndex r + 1) (lastIdx r))"
  let ?A = "finsert (raft_id r) (matchingVoters (commitIndex r') c r)"
  have "commitIndex r' = (if ?ok = [] then commitIndex r else last ?ok)"
    using commitLoop_ok(1)[OF assms(1,2,5,3)] by (simp add: Let_def)
  then have "commitIndex r' \<in> set ?ok" using assms(6) last_in_set[of ?ok] by (auto split: if_splits)
  then have cm: "committable c r (commitIndex r')" by simp
  have "raft_id r |\<notin>| matchingVoters (commitIndex r') c r" by (simp add: matchingVoters_def)
  then have "isQuorum c ?A"
    using cm assms(7) by (auto simp: isQuorum_def committable_def matchingVoters_def voters_iff fcard_finsert_disjoint)
  then obtain i where "i |\<in>| ?A" "i |\<in>| Q" using majority.meet assms(8) by blast
  then show ?thesis by (auto simp: matchingVoters_def fmlookup_dom_iff)
qed

theorem commit_quorum_witness:
  "\<exists>i. i |\<in>| {|''b'', ''c''|} \<and> (i = ''a'' \<or> (\<exists>p. fmlookup (followers sample_leader) i = Some p \<and> 3 \<le> matchIndex (followerAt sample_leader p)))"
proof -
  have "fst (commitLoop 5 sample_leader) = Inr ()" and c: "commitIndex (snd (commitLoop 5 sample_leader)) = 3"
    "commitIndex sample_leader \<le> lastIdx sample_leader" "commitIndex sample_leader = 0" by code_simp+
  then have r: "commitLoop 5 sample_leader = (Inr (), snd (commitLoop 5 sample_leader))" by (simp add: prod_eq_iff)
  have v: "voters sample_conf = {|''a'', ''b'', ''c''|}"
    by (simp add: sample_conf_def voters_NewConfiguration)
  then have q: "isQuorum sample_conf {|''b'', ''c''|}"
    by (auto simp: isQuorum_def numVoters_def fcard_finsert_if)
  have "configuration sample_leader = Some sample_conf" "state sample_leader = Leader" "voterFlag sample_conf (raft_id sample_leader)"
    using v voters_iff[of "''a''" sample_conf] by (simp_all add: sample_leader_def sample_node_def)
  with commit_quorum[OF sample_leader_wf this(1,2) c(2) r _ this(3) q] c show ?thesis
    by (simp add: sample_leader_def sample_node_def)
qed
end
