(* ===== verification/ClusterProps.thy ===== *)
theory ClusterProps
  imports ReplicationProps AppendProps Messages
begin

text \<open>
  Properties of two nodes: a request built by the leader, sent through the message conversions and
  handled by a follower.
\<close>

section \<open>Messages\<close>

text \<open>What arrives when a request is sent: \<^verbatim>\<open>make...\<close> of \<^verbatim>\<open>makeProto...\<close>.\<close>

definition deliverAppend :: "AppendEntriesRequest \<Rightarrow> AppendEntriesRequest" where
  "deliverAppend req = makeAppendEntriesRequest (makeProtoAppendEntriesRequest req)"

lemma deliverAppend_eq: "deliverAppend req = req\<lparr>ae_Entries := map strip (ae_Entries req)\<rparr>"
  by (simp add: deliverAppend_def message_defs strip_def o_def)

text \<open>The conversions between the RPC messages and their protobuf types lose nothing: every message
comes back as it was sent, except that the file offset of a log entry, which is local to a node, is
dropped.\<close>

theorem message_roundtrips:
  "makeAppendEntriesRequest (makeProtoAppendEntriesRequest a) = a\<lparr>ae_Entries := map strip (ae_Entries a)\<rparr> \<and>
   makeAppendEntriesResponse (makeProtoAppendEntriesResponse b) = b \<and>
   makeRequestVoteRequest (makeProtoRequestVoteRequest v) = v \<and>
   makeRequestVoteResponse (makeProtoRequestVoteResponse w) = w \<and>
   makeInstallSnapshotRequest (makeProtoInstallSnapshotRequest s) = s \<and>
   makeInstallSnapshotResponse (makeProtoInstallSnapshotResponse t) = t"
  by (simp add: message_defs strip_def o_def)

section \<open>Log matching\<close>

text \<open>
  \<open>logs_match\<close>: if two logs have an entry of the same index and term, they agree up to it, as far
  as both still hold the entries.
\<close>

definition both :: "('f, 'r) raft \<Rightarrow> ('f, 'r) raft \<Rightarrow> u64 \<Rightarrow> bool" where
  "both l f i \<longleftrightarrow> lastIncludedIndex l < i \<and> lastIncludedIndex f < i"

definition logs_match :: "('f, 'r) raft \<Rightarrow> ('f, 'r) raft \<Rightarrow> bool" where
  "logs_match l f \<longleftrightarrow> (\<forall>i a b. both l f i \<and> lookup (logview l) i = Some a \<and> lookup (logview f) i = Some b \<and> Term a = Term b
     \<longrightarrow> (\<forall>j. j \<le> i \<and> both l f j \<longrightarrow> lookup (logview f) j = lookup (logview l) j))"

lemma logs_matchD:
  assumes "logs_match l f" "both l f i" "lookup (logview l) i = Some a" "lookup (logview f) i = Some b" "Term a = Term b"
    and "j \<le> i" "both l f j"
  shows "lookup (logview f) j = lookup (logview l) j"
  using assms unfolding logs_match_def by blast

text \<open>C9. Log matching: when a follower accepts the request of a leader, its log is a copy of the leader's
through the leader's last entry (as far as both hold the entries), provided that the two logs satisfied
the log matching property before; and they satisfy it afterwards.\<close>

theorem replication_step:
  assumes "wf_node D l" "sendAppendEntries_request i l = (Inr (AeEntries p req), l')"
    and "unat (nextIndex (followerAt l p)) < 2 ^ 63"
    and "wf_node D' f" "AppendEntries D' now (deliverAppend req) f = (Inr res, f')" "aer_Success res"
    and "logs_match l f"
  shows "(\<forall>j. both l f j \<and> j \<le> lastIdx l \<longrightarrow> lookup (logview f') j = lookup (logview l) j) \<and> logs_match l f'"
proof -
  let ?d = "deliverAppend req" and ?p = "ae_PrevLogIndex req" and ?es = "ae_Entries req"
  note q = request_ok[OF assms(1,2)]
  note wl = assms(1)[unfolded wf_node_def, THEN conjunct1]
  have pl: "?p \<le> lastIdx l" using q(12) assms(3) by fastforce
  note q11 = q(11)[OF pl]
  have d: "ae_PrevLogIndex ?d = ?p" "ae_PrevLogTerm ?d = ae_PrevLogTerm req" "ae_Entries ?d = map strip ?es"
    by (simp_all add: deliverAppend_eq)
  have cont: "contiguous (ae_PrevLogIndex ?d + 1) (ae_Entries ?d)"
    "unat (ae_PrevLogIndex ?d) + length (ae_Entries ?d) + 1 < 2 ^ 64"
    using q(9) q11 lastIdx_bound[OF wl] by (auto simp: d)
  note s = AppendEntries_success[OF assms(4,5,6) cont]
  note m = AppendEntries_still_matches[OF assms(4,5,6) cont]
  have copy: "lookup (logview f') j = lookup (logview l) j" if j: "both l f j" "j \<le> lastIdx l" for j
  proof (cases "j \<le> ?p")
    case True
    then have p: "both l f ?p" using j(1) by (auto simp: both_def)
    then obtain b where b: "lookup (logview f) ?p = Some b" "Term b = ae_PrevLogTerm req"
      using s(3) by (auto simp: matchesPrev_def d both_def split: if_splits)
    obtain a where a: "lookup (logview l) ?p = Some a" "Term a = ae_PrevLogTerm req"
      using q11 p by (auto simp: termAt_def both_def split: if_splits)
    have "lookup (logview f) j = lookup (logview l) j"
      by (rule logs_matchD[OF assms(7) p a(1) b(1)]) (use a b True j in auto)
    then show ?thesis using m(1)[of j] True by (simp add: d)
  next
    case False
    define k where "k = unat (j - (?p + 1))"
    have u: "unat (?p + 1) = unat ?p + 1" using cont(2) by (intro unat_Suc_word) (simp add: d)
    then have ge: "?p + 1 \<le> j" using False by (auto simp: word_le_nat_alt)
    then have "k = unat j - (unat ?p + 1)" using u by (simp add: k_def unat_diff_le)
    then have k: "k < length ?es" "?p + 1 + of_nat k = j"
      using q11 j(2) ge u by (auto simp: word_le_nat_alt k_def)
    from q11 k have lj: "lookup (logview l) j = Some (strip (?es ! k))" by auto
    from m(2)[of k] k obtain x where x: "lookup (logview f') j = Some x" "Term x = Term (?es ! k)"
      "x = strip (?es ! k) \<or> lookup (logview f) j = Some x" by (auto simp: d)
    from x(3) show ?thesis
    proof
      assume fj: "lookup (logview f) j = Some x"
      have "lookup (logview f) j = lookup (logview l) j"
        by (rule logs_matchD[OF assms(7) j(1) lj fj]) (use x(2) j(1) in auto)
      then show ?thesis using fj x(1) by simp
    qed (use x lj in simp)
  qed
  have "logs_match l f'"
    unfolding logs_match_def
  proof (intro allI impI, elim conjE)
    fix i a b j
    assume "lookup (logview l) i = Some a" "j \<le> i" "both l f' j"
    moreover have "both l f' j = both l f j" for j using s(6) by (simp add: both_def)
    moreover have "lookup (logview l) i = Some a \<Longrightarrow> i \<le> lastIdx l" by (auto simp: lookup_def split: if_splits)
    ultimately show "lookup (logview f') j = lookup (logview l) j" using copy by (meson order_trans)
  qed
  with copy show ?thesis by blast
qed

definition sample_received :: "(bytes list, nat) raft" where
  "sample_received = snd (AppendEntries sample_deps 7 (deliverAppend sample_sent) sample_follower)"

lemma sample_receive:
  "AppendEntries sample_deps 7 (deliverAppend sample_sent) sample_follower =
     (Inr \<lparr>aer_Term = 2, aer_Success = True, aer_Index = 0\<rparr>, sample_received)"
proof -
  have "fst (AppendEntries sample_deps 7 (deliverAppend sample_sent) sample_follower) = Inr \<lparr>aer_Term = 2, aer_Success = True, aer_Index = 0\<rparr>"
    by code_simp
  then show ?thesis by (simp add: sample_received_def prod_eq_iff)
qed

lemma sample_views:
  "logview sample_leader = [emptyEntry, sample_entry 1 1 [7], sample_entry 2 2 [9], sample_entry 3 2 [10]]"
  "logview sample_follower = [emptyEntry, sample_entry 1 1 [7], sample_entry 2 1 [8]]"
  by code_simp+

lemma sample_logs_match: "logs_match sample_leader sample_follower"
proof -
  have h: "lastIncludedIndex sample_leader = 0" "lastIncludedIndex sample_follower = 0" by code_simp+
  have l1: "lookup (logview sample_leader) 1 = lookup (logview sample_follower) 1" by code_simp
  have t2: "map_option Term (lookup (logview sample_leader) 2) = Some 2" "map_option Term (lookup (logview sample_follower) 2) = Some 1"
    by code_simp+
  have "i = 1" if "lookup (logview sample_leader) i = Some a" "lookup (logview sample_follower) i = Some b" "Term a = Term b" for i a b
  proof -
    have "0 < i" "i \<le> 2" using that(2) unfolding sample_views
      by (auto simp: lookup_def sample_entry_def NewLogEntry_def emptyEntry_def split: if_splits)
    then have "unat i = 1 \<or> unat i = 2" by (auto simp: word_less_nat_alt word_le_nat_alt)
    then have "i = 1 \<or> i = 2" by (simp add: word_unat_eq_iff)
    then show ?thesis using t2 that by auto
  qed
  moreover have "j = 1" if "0 < j" "j \<le> (1 :: u64)" for j
    using that by (auto simp: word_unat_eq_iff word_less_nat_alt word_le_nat_alt)
  ultimately show ?thesis using l1 unfolding logs_match_def both_def h by metis
qed

theorem replication_step_witness:
  "lookup (logview sample_received) 3 = lookup (logview sample_leader) 3 \<and> logs_match sample_leader sample_received"
proof -
  have "both sample_leader sample_follower 3 \<and> 3 \<le> lastIdx sample_leader" by code_simp
  then show ?thesis
    using replication_step[OF sample_leader_wf sample_send sample_next sample_follower_wf sample_receive _ sample_logs_match] by simp
qed

end
