(* ===== verification/LogProps.thy ===== *)
theory LogProps
  imports Samples
begin

text \<open>
  The log as a whole: sequences of operations refine operations on lists of entries, a restart
  recovers them, and compaction is atomic whatever system call fails.
\<close>

section \<open>Operations on lists\<close>

datatype logop = OpAppend "LogEntry list" | OpTruncate u64 | OpCompact u64 | OpDiscard u64 u64

fun log_op :: "pb_LogEntry marshal \<Rightarrow> logop \<Rightarrow> unit logA" where
  "log_op mar (OpAppend es) = Log_AppendEntries mar es"
| "log_op mar (OpTruncate i) = Truncate i"
| "log_op mar (OpCompact i) = Compact mar i"
| "log_op mar (OpDiscard i t) = DiscardEntries mar i t"

fun abs_op :: "logop \<Rightarrow> LogEntry list \<Rightarrow> LogEntry list" where
  "abs_op (OpAppend es) v = v @ map strip es"
| "abs_op (OpTruncate i) v = take (unat (i - Index (hd v))) v"
| "abs_op (OpCompact i) v = drop (unat (i - Index (hd v))) v"
| "abs_op (OpDiscard i t) v = [placeholder i t]"

fun valid_op :: "logop \<Rightarrow> LogEntry list \<Rightarrow> bool" where
  "valid_op (OpAppend es) v = (contiguous (Index (last v) + 1) es \<and> unat (Index (last v)) + length es + 1 < 2 ^ 64)"
| "valid_op (OpDiscard i t) v = (unat i + 1 < 2 ^ 64)"
| "valid_op _ v = True"

fun run_ops :: "pb_LogEntry marshal \<Rightarrow> logop list \<Rightarrow> unit logA" where
  "run_ops mar [] = returnA ()"
| "run_ops mar (x # xs) = bindA (log_op mar x) (\<lambda>_. run_ops mar xs)"

fun valid_ops :: "logop list \<Rightarrow> LogEntry list \<Rightarrow> bool" where
  "valid_ops [] v = True"
| "valid_ops (x # xs) v = (valid_op x v \<and> valid_ops xs (abs_op x v))"

definition reopen :: "pb_LogEntry marshal \<Rightarrow> pb_LogEntry unmarshal \<Rightarrow> unit logA" where
  "reopen mar unmar = bindA NewLog (\<lambda>_. bindA Log_Open (\<lambda>_. Replay mar unmar))"

lemma log_op_ok:
  assumes "wf_log mar l" "log_op mar x l = (Inr u, l')" "valid_op x (view l)"
  shows "wf_log mar l' \<and> view l' = abs_op x (view l)"
  using assms
  by (cases x) (auto dest: append_ok truncate_ok compact_ok discard_ok)

lemma run_ops_ok:
  "wf_log mar l \<Longrightarrow> run_ops mar xs l = (Inr u, l') \<Longrightarrow> valid_ops xs (view l) \<Longrightarrow>
     wf_log mar l' \<and> view l' = fold abs_op xs (view l)"
proof (induction xs arbitrary: l)
  case (Cons x xs)
  from Cons.prems(2) obtain l1 where x: "log_op mar x l = (Inr (), l1)" and xs: "run_ops mar xs l1 = (Inr u, l')"
    by (auto simp: bindA_eq_Inr)
  from log_op_ok[OF Cons.prems(1) x] Cons.prems(3) have "wf_log mar l1" "view l1 = abs_op x (view l)" by auto
  with Cons.IH[OF _ xs] Cons.prems(3) show ?case by simp
qed simp

lemma NewLog_ok:
  assumes "NewLog l = (Inr u, l')"
  shows "disk l' = disk l" "content l' = content l"
  using assms by (auto simp: NewLog_def act_inv file_ok content_def)

lemma reopen_ok:
  assumes "proto_codec mar unmar" "laid_out mar 0 es" "es \<noteq> []" "disk l = Some (frames mar es)" "reopen mar unmar l = (Inr u, l')"
  shows "entries l' = es" "disk l' = disk l" "lfile l' = OpenFile (length (frames mar es))"
proof -
  from assms(5) obtain l1 where n: "NewLog l = (Inr (), l1)" and o: "bindA Log_Open (\<lambda>_. Replay mar unmar) l1 = (Inr u, l')"
    by (auto simp: reopen_def bindA_eq_Inr[of NewLog])
  show "entries l' = es" "disk l' = disk l" "lfile l' = OpenFile (length (frames mar es))"
    using open_replay_ok[OF assms(1,3,2) _ o] NewLog_ok[OF n] assms(4) by auto
qed

text \<open>Without failing system calls a restart succeeds.\<close>

lemma reopen_total:
  assumes "proto_codec mar unmar" "laid_out mar 0 es" "es \<noteq> []" "disk l = Some (frames mar es)" "faults l = []"
  shows "\<exists>l'. reopen mar unmar l = (Inr (), l')"
  using assms(2-)
  by (simp add: reopen_def NewLog_def Log_Open_def Replay_def file_op_defs syscall_def withFile_def bindA_def wrapA_def
                content_def replayLoop_frames[OF assms(1)])

text \<open>C5. \<^verbatim>\<open>persistentLog\<close> refines a list of entries and survives restarts: after any sequence of successful
appends, truncations, compactions and discards, opening and replaying the file yields a well-formed log
with exactly the entries that the same operations give on lists. Without failing system calls the
restart succeeds.\<close>

theorem log_recovery:
  assumes "proto_codec mar unmar" "wf_log mar l" "run_ops mar xs l = (Inr u, l1)" "valid_ops xs (view l)"
  shows "(\<forall>l2 u'. reopen mar unmar l1 = (Inr u', l2) \<longrightarrow> wf_log mar l2 \<and> view l2 = fold abs_op xs (view l)) \<and>
    (faults l1 = [] \<longrightarrow> (\<exists>l2. reopen mar unmar l1 = (Inr (), l2)))"
proof -
  from run_ops_ok[OF assms(2,3,4)] have wf: "wf_log mar l1" and v: "view l1 = fold abs_op xs (view l)" by auto
  note w = wf_logD[OF wf]
  have "wf_log mar l2 \<and> view l2 = fold abs_op xs (view l)" if "reopen mar unmar l1 = (Inr u', l2)" for l2 u'
    using reopen_ok[OF assms(1) w(3,2,4) that] w v by (simp add: wf_log_def view_def)
  then show ?thesis using reopen_total[OF assms(1) w(3,2,4)] by blast
qed

definition sample_ops :: "logop list" where
  "sample_ops = [OpAppend [sample_entry 3 2 [9]], OpTruncate 3, OpAppend [sample_entry 3 3 [5], sample_entry 4 3 []], OpCompact 2]"

definition sample_run :: persistentLog where
  "sample_run = snd (run_ops entry_marshal sample_ops (log sample_follower))"

lemma sample_run_ok: "run_ops entry_marshal sample_ops (log sample_follower) = (Inr (), sample_run)"
proof -
  have "fst (run_ops entry_marshal sample_ops (log sample_follower)) = Inr ()" by code_simp
  then show ?thesis by (simp add: sample_run_def prod_eq_iff)
qed

lemma sample_entry_log: "wf_log entry_marshal (log sample_follower)"
  using sample_follower_wf by (simp add: wf_node_def sample_deps_def)

theorem log_recovery_witness:
  "\<exists>l2. reopen entry_marshal entry_unmarshal sample_run = (Inr (), l2) \<and> map Term (view l2) = [1, 3, 3]"
proof -
  have v: "valid_ops sample_ops (view (log sample_follower))"
    by (simp add: sample_ops_def sample_follower_def sample_defs view_def strip_def)
  have f: "faults sample_run = []" "map Term (fold abs_op sample_ops (view (log sample_follower))) = [1, 3, 3]" by code_simp+
  note r = log_recovery[OF entry_codec sample_entry_log sample_run_ok v]
  obtain l2 where "reopen entry_marshal entry_unmarshal sample_run = (Inr (), l2)" using r f(1) by blast
  moreover from this have "view l2 = fold abs_op sample_ops (view (log sample_follower))" using r by blast
  ultimately show ?thesis using f(2) by (intro exI[of _ l2]) simp
qed

section \<open>Atomicity\<close>

lemma keeps_disk_basic: "keepsA disk syscall" "keepsA disk (tmpWrite bs)" "keepsA disk removeTmp"
  by (auto intro!: relAI simp: syscall_def tmpWrite_def removeTmp_def)

lemma keeps_withFile: "(\<And>pos. keepsA disk (f pos)) \<Longrightarrow> keepsA disk (withFile f)"
  by (auto simp: relA_def withFile_def split: logFile.splits)

lemma keeps_disk_files:
  "keepsA disk fileSync" "keepsA disk createTemp" "keepsA disk tmpSeekCurrent" "keepsA disk fileSeekEnd" "keepsA disk osOpen"
  unfolding fileSync_def createTemp_def tmpSeekCurrent_def fileSeekEnd_def osOpen_def
  by (intro keeps.from_get keeps.intros keeps_withFile keeps_disk_basic; simp)+

lemma keeps_disk_close: "keepsA disk fileClose"
  unfolding fileClose_def by (intro keeps_withFile) (auto intro!: relAI simp: syscall_def)

lemma keeps_disk_encodeTmp: "keepsA disk (encodeLogEntry mar tmpWrite e)"
  by (auto simp: encodeLogEntry_def intro!: keeps.intros keeps_disk_basic split: option.split)

lemma keeps_disk_compactLoop: "keepsA disk (compactLoop mar k n)"
proof (induction n arbitrary: k)
  case (Suc n)
  show ?case unfolding compactLoop.simps
    by (intro keeps.from_get keeps.intros keeps_disk_files keeps_disk_encodeTmp Suc) simp
qed (unfold compactLoop.simps, intro keeps.intros)

lemma keeps_disk_reopen: "keepsA disk renameReopen"
  unfolding renameReopen_def by (intro keeps.intros keeps_disk_files)

text \<open>\<^verbatim>\<open>rename\<close> leaves the old file or the whole new one.\<close>

lemma renameReplace_disk:
  assumes "renameReplace l = (r, l')"
  shows "case r of Inl _ \<Rightarrow> disk l' = disk l | Inr _ \<Rightarrow> disk l' = Some (tmpContent l)"
proof (cases r)
  case (Inl x)
  have "disk l' = disk l"
    using assms relAD[OF keeps_disk_basic(1)] relAD[OF keeps_disk_files(1)] relAD[OF keeps_disk_close]
    by (auto simp: Inl renameReplace_def bindA_eq_Inl bindA_eq_Inr wrapA_eq_Inl osRename_def)
  then show ?thesis using Inl by simp
next
  case (Inr u)
  then show ?thesis using assms
    by (auto simp: renameReplace_def act_inv file_ok file_op_defs tmpContent_def)
qed

lemma rename_disk:
  assumes "rename l = (r, l')"
  shows "disk l' = disk l \<or> disk l' = Some (tmpContent l)"
proof -
  obtain r1 l1 where rp: "renameReplace l = (r1, l1)" by (cases "renameReplace l")
  note d = renameReplace_disk[OF rp]
  show ?thesis
  proof (cases r1)
    case (Inr u)
    then have "renameReopen l1 = (r, l')" using assms rp by (simp add: rename_def bindA_def tryA_def)
    from relAD[OF keeps_disk_reopen this] d Inr show ?thesis by simp
  next
    case (Inl x)
    have "disk l' = disk l1"
    proof (cases x)
      case (Error e)
      then have "removeTmp l1 = (Inr (), l')"
        using assms rp Inl by (auto simp: rename_def bindA_def tryA_def removeTmp_def)
      from relAD[OF keeps_disk_basic(3) this] show ?thesis .
    qed (use assms rp Inl in \<open>auto simp: rename_def bindA_def tryA_def\<close>)
    with d Inl show ?thesis by simp
  qed
qed

lemma Compact_disk:
  assumes "wf_log mar l" "Compact mar i l = (r, l')"
  shows "disk l' = disk l \<or> (\<exists>es. disk l' = Some (frames mar es) \<and> laid_out mar 0 es \<and>
    map strip es = drop (unat (i - Index (hd (view l)))) (view l) \<and> es \<noteq> [])"
proof -
  let ?k = "logIndexOf i l"
  note wf = wf_logD[OF assms(1)]
  obtain r1 l1 where chk: "checkIndex ''could not compact log'' i l = (r1, l1)" by (cases "checkIndex ''could not compact log'' i l")
  have "l1 = l" using chk by (auto simp: checkIndex_def bindA_def split: sum.splits if_splits)
  show ?thesis
  proof (cases r1)
    case (Inl x)
    then show ?thesis using assms(2) chk \<open>l1 = l\<close> by (auto simp: Compact_def bindA_def)
  next
    case (Inr k)
    then have k: "k = ?k" and kl: "?k < length (entries l)"
      using chk position_of(1)[OF wf(1), of i] \<open>l1 = l\<close>
      by (auto simp: checkIndex_ok Contains_eq[OF assms(1)] logIndexOf_def hd_view[OF assms(1)] last_view[OF assms(1)])
    obtain r2 l2 where ct: "createTemp l = (r2, l2)" by (cases "createTemp l")
    have d2: "disk l2 = disk l" by (rule relAD[OF keeps_disk_files(2) ct])
    show ?thesis
    proof (cases r2)
      case (Inl x)
      then show ?thesis using assms(2) chk Inr \<open>l1 = l\<close> ct d2 by (auto simp: Compact_def bindA_def wrapA_def)
    next
      case i2: (Inr u)
      then have l2: "tmps l2 = [] # tmps l" "entries l2 = entries l" using ct by (auto simp: createTemp_def act_inv file_ok)
      obtain r3 l3 where lp: "compactLoop mar ?k (length (entries l2) - ?k) l2 = (r3, l3)"
        by (cases "compactLoop mar ?k (length (entries l2) - ?k) l2")
      have d3: "disk l3 = disk l" using relAD[OF keeps_disk_compactLoop lp] d2 by simp
      show ?thesis
      proof (cases r3)
        case (Inl x)
        then show ?thesis using assms(2) chk Inr \<open>l1 = l\<close> ct i2 lp d3 k by (auto simp: Compact_def bindA_def wrapA_def)
      next
        case i3: (Inr u3)
        from lp i3 have lp': "compactLoop mar ?k (length (entries l2) - ?k) l2 = (Inr u3, l3)" by simp
        have len: "length (entries l2) = ?k + (length (entries l2) - ?k)" using l2 kl by simp
        from compactLoop_ok[OF lp' l2(1) len] obtain es where
          es: "map strip es = map strip (drop ?k (entries l))" "laid_out mar 0 es" "tmpContent l3 = frames mar es"
          using l2(2) by (auto simp: tmpContent_def)
        obtain r4 l4 where rn: "rename l3 = (r4, l4)" by (cases "rename l3")
        have "disk l' = disk l4"
          using assms(2) chk Inr \<open>l1 = l\<close> ct i2 lp i3 k rn
          by (cases r4) (auto simp: Compact_def bindA_def wrapA_def)
        moreover have "map strip es = drop (unat (i - Index (hd (view l)))) (view l)" "es \<noteq> []"
          using es(1) kl by (auto simp: view_def drop_map logIndexOf_def hd_map[OF wf(2)])
        ultimately show ?thesis using rename_disk[OF rn] d3 es by auto
      qed
    qed
  qed
qed

text \<open>C27. Compaction is atomic: whatever system calls fail during \<^verbatim>\<open>Compact\<close>, a later restart recovers either
the log as it was or the compacted log, and nothing else; in both every entry after the compaction
index is unchanged.\<close>

theorem compact_atomic:
  assumes "proto_codec mar unmar" "wf_log mar l" "Compact mar i l = (r, l1)" "reopen mar unmar l1 = (Inr u, l2)"
  shows "wf_log mar l2 \<and> (view l2 = view l \<or> view l2 = drop (unat (i - Index (hd (view l)))) (view l))"
proof -
  note w = wf_logD[OF assms(2)]
  from Compact_disk[OF assms(2,3)] show ?thesis
  proof
    assume "disk l1 = disk l"
    then show ?thesis using reopen_ok[OF assms(1) w(3,2) _ assms(4)] w by (simp add: wf_log_def view_def)
  next
    assume "\<exists>es. disk l1 = Some (frames mar es) \<and> laid_out mar 0 es \<and>
      map strip es = drop (unat (i - Index (hd (view l)))) (view l) \<and> es \<noteq> []"
    then obtain es where es: "disk l1 = Some (frames mar es)" "laid_out mar 0 es"
      "map strip es = drop (unat (i - Index (hd (view l)))) (view l)" "es \<noteq> []" by blast
    have "unat (i - Index (hd (view l))) < length (view l)"
      using es(3,4) by (metis drop_all leI list.map_disc_iff)
    then have "wf_entries (map strip es)" unfolding es(3) by (rule wf_entries_drop[OF plog.inv_wf[OF assms(2)]])
    then have we: "wf_entries es" by simp
    have "view l2 = map strip es" using reopen_ok(1)[OF assms(1) es(2,4,1) assms(4)] by (simp add: view_def)
    then show ?thesis using reopen_ok[OF assms(1) es(2,4,1) assms(4)] es we by (simp add: wf_log_def)
  qed
qed

definition failing_log :: persistentLog where
  "failing_log = (log sample_follower)\<lparr>faults := [IoOk, IoOk, IoOk, IoOk, IoOk, IoOk, IoOk, IoOk, IoOk, IoOk, IoFail 0]\<rparr>"

theorem compact_atomic_witness:
  "\<exists>x l1 l2. Compact entry_marshal 1 failing_log = (Inl x, l1) \<and> reopen entry_marshal entry_unmarshal l1 = (Inr (), l2) \<and>
     (view l2 = view failing_log \<or> view l2 = drop 1 (view failing_log))"
proof -
  let ?l1 = "snd (Compact entry_marshal 1 failing_log)"
  have e: "case fst (Compact entry_marshal 1 failing_log) of Inl x \<Rightarrow> True | Inr _ \<Rightarrow> False"
    and o: "fst (reopen entry_marshal entry_unmarshal ?l1) = Inr ()"
    and n: "unat (1 - Index (hd (view failing_log))) = 1" by code_simp+
  obtain x where c: "Compact entry_marshal 1 failing_log = (Inl x, ?l1)"
    using e by (cases "Compact entry_marshal 1 failing_log") (auto split: sum.splits)
  have r: "reopen entry_marshal entry_unmarshal ?l1 = (Inr (), snd (reopen entry_marshal entry_unmarshal ?l1))"
    using o by (simp add: prod_eq_iff)
  have "wf_log entry_marshal failing_log" using sample_entry_log by (simp add: failing_log_def wf_log_def)
  from compact_atomic[OF entry_codec this c r] n c r show ?thesis by metis
qed

section \<open>Lookups\<close>

text \<open>C34. \<^verbatim>\<open>GetEntry\<close> finds exactly the indices after the placeholder and up to the last one, although it
computes a position by an unsigned subtraction that wraps for smaller indices: for these and for larger
ones it returns the error, and what it finds has the index that was asked for.\<close>

theorem get_entry_range:
  assumes "wf_log mar l"
  shows "if Index (hd (view l)) < i \<and> i \<le> Index (last (view l))
    then \<exists>e. GetEntry i l = Inr e \<and> Index e = i \<and> lookup (view l) i = Some (strip e)
    else GetEntry i l = Inl (Error (ErrNew ''could not get entry: index does not exist''))"
proof (cases "lookup (view l) i")
  case None
  then show ?thesis using GetEntry_eq[OF assms, of i] by (auto simp: lookup_None_iff)
next
  case (Some e')
  then obtain e where "GetEntry i l = Inr e" using plog.get_total[OF assms] by blast
  then show ?thesis using plog.get_term[OF assms] by auto
qed

theorem get_entry_range_witness:
  "GetEntry 0 (log sample_follower) = Inl (Error (ErrNew ''could not get entry: index does not exist'')) \<and>
   (\<exists>e. GetEntry 2 (log sample_follower) = Inr e \<and> Index e = 2)"
proof -
  have h: "Index (hd (view (log sample_follower))) = 0" "Index (last (view (log sample_follower))) = 2" by code_simp+
  show ?thesis
    using get_entry_range[OF sample_entry_log, of 0] get_entry_range[OF sample_entry_log, of 2] by (auto simp: h)
qed

section \<open>A torn append\<close>









end
