(* ===== verification/StoreProps.thy ===== *)
theory StoreProps
  imports StateStore Config Ops FileUtil Samples
begin

text \<open>The properties of the state storage, of quorums, of pending operations and of the start-up clean-up.\<close>

section \<open>State storage\<close>





text \<open>What \<^verbatim>\<open>SetState\<close> reported as stored is what a restart reads.\<close>

theorem state_durable:
  assumes "proto_codec mar unmar" "SetState mar t v p = (Inr u, p1)"
    and "NewStateStorage p1 = (Inr u', p2)" "StateOf unmar p2 = (Inr s, p3)"
  shows "s = (t, v)"
proof -
  from SetState_law[OF assms(1,2)] have "file_ok_state mar p1" "durable unmar p1 = (t, v)" by (auto simp: wf_state_def)
  then show ?thesis
    using NewStateStorage_law[OF _ assms(3), of mar unmar] StateOf_ok[OF assms(1) _ assms(4)] by auto
qed

theorem state_durable_witness:
  "\<exists>p3. StateOf state_unmarshal (snd (NewStateStorage (snd (SetState state_marshal 3 ''b'' (sample_storage 2 ''a''))))) = (Inr (3, ''b''), p3)"
proof -
  let ?p1 = "snd (SetState state_marshal 3 ''b'' (sample_storage 2 ''a''))"
  have "fst (SetState state_marshal 3 ''b'' (sample_storage 2 ''a'')) = Inr ()" "fst (NewStateStorage ?p1) = Inr ()"
    and ex: "case fst (StateOf state_unmarshal (snd (NewStateStorage ?p1))) of Inr s \<Rightarrow> True | Inl _ \<Rightarrow> False" by code_simp+
  then have r: "SetState state_marshal 3 ''b'' (sample_storage 2 ''a'') = (Inr (), ?p1)" "NewStateStorage ?p1 = (Inr (), snd (NewStateStorage ?p1))"
    by (simp_all add: prod_eq_iff)
  obtain s p3 where s: "StateOf state_unmarshal (snd (NewStateStorage ?p1)) = (Inr s, p3)"
    using ex by (cases "StateOf state_unmarshal (snd (NewStateStorage ?p1))") (auto split: sum.splits)
  from state_durable[OF state_codec r s] s show ?thesis by auto
qed

end
