(* ===== verification/Client.thy ===== *)
theory Client
  imports Handlers
begin

text \<open>
  The client's side of raft.go: membership changes (\<^verbatim>\<open>AddServer\<close>, \<^verbatim>\<open>RemoveServer\<close>) and submitted
  operations. The future that is returned is the number of its response channel and its timeout.
\<close>

definition newConfigurationFuture :: "duration \<Rightarrow> ('f, 'r, Configuration future) raftA" where
  "newConfigurationFuture timeout = bindA getA (\<lambda>r.
     bindA (modifyA (\<lambda>r. r\<lparr>confChans := (confChans r)(nextCh r := None), nextCh := Suc (nextCh r)\<rparr>)) (\<lambda>_.
     returnA (newFuture (nextCh r) timeout)))"

definition newOperationFuture :: "duration \<Rightarrow> ('f, 'r, 'r OperationResponse future) raftA" where
  "newOperationFuture timeout = bindA getA (\<lambda>r.
     bindA (modifyA (\<lambda>r. r\<lparr>opChans := (opChans r)(nextCh r := None), nextCh := Suc (nextCh r)\<rparr>)) (\<lambda>_.
     returnA (newFuture (nextCh r) timeout)))"

definition respondConf :: "Configuration future \<Rightarrow> Configuration \<Rightarrow> err option \<Rightarrow> ('f, 'r, Configuration future) raftA" where
  "respondConf fut c e =
     bindA (modifyA (\<lambda>r. r\<lparr>confChans := respond (Some (responseCh fut)) c e (confChans r)\<rparr>)) (\<lambda>_. returnA fut)"

definition respondOp :: "'r OperationResponse future \<Rightarrow> err option \<Rightarrow> ('f, 'r, 'r OperationResponse future) raftA" where
  "respondOp fut e =
     bindA (modifyA (\<lambda>r. r\<lparr>opChans := respond (Some (responseCh fut)) zeroResponse e (opChans r)\<rparr>)) (\<lambda>_. returnA fut)"

section \<open>Membership changes\<close>

text \<open>The guards \<^verbatim>\<open>AddServer\<close> and \<^verbatim>\<open>RemoveServer\<close> share; \<open>Some e\<close>: the change is refused.\<close>

definition membershipGuard :: "('f, 'r, err option) raftA" where
  "membershipGuard =
     bindA getA (\<lambda>r.
     if state r \<noteq> Leader then returnA (Some ErrNotLeader)
     else
       bindA (readA committedThisTerm) (\<lambda>committed.
       if \<not> committed then returnA (Some ErrNoCommitThisTerm)
       else
         bindA (readA pendingConfigurationChange) (\<lambda>pending.
         returnA (if pending then Some ErrPendingConfiguration else None))))"

text \<open>The configurations that the two changes create from the current one.\<close>

definition addedConf :: "string \<Rightarrow> string \<Rightarrow> bool \<Rightarrow> Configuration \<Rightarrow> Configuration" where
  "addedConf i addr voter c =
     (Clone c)\<lparr>Members := fmupd i addr (Members (Clone c)), IsVoter := fmupd i voter (IsVoter (Clone c))\<rparr>"

definition removedConf :: "string \<Rightarrow> Configuration \<Rightarrow> Configuration" where
  "removedConf i c = (Clone c)\<lparr>Members := fmdrop i (Members (Clone c)), IsVoter := fmdrop i (IsVoter (Clone c))\<rparr>"

definition AddServer :: "('f, 'r) deps \<Rightarrow> time \<Rightarrow> string \<Rightarrow> string \<Rightarrow> bool \<Rightarrow> duration \<Rightarrow>
    ('f, 'r, Configuration future) raftA" where
  "AddServer D now i addr voter timeout =
     bindA (newConfigurationFuture timeout) (\<lambda>fut.
     bindA membershipGuard (\<lambda>refused.
     case refused of
       Some e \<Rightarrow> respondConf fut emptyConfiguration (Some e)
     | None \<Rightarrow>
         bindA (readA confOf) (\<lambda>c.
         bindA (readA (isMember i)) (\<lambda>mem.
         bindA (readA (isVoter i)) (\<lambda>vot.
         if mem \<and> vot = voter then respondConf fut c None
         else
           bindA (appendConfiguration D (addedConf i addr voter c)) (\<lambda>c2.
           bindA (modifyA (\<lambda>r. r\<lparr>configuration := Some c2\<rparr>)) (\<lambda>_.
           bindA (modifyA (addFollower (newFollower\<lparr>nextIndex := 1\<rparr>) i)) (\<lambda>_.
           bindA (sendAppendEntriesToPeers now) (\<lambda>_.
           returnA fut)))))))))"

definition RemoveServer :: "('f, 'r) deps \<Rightarrow> time \<Rightarrow> string \<Rightarrow> duration \<Rightarrow> ('f, 'r, Configuration future) raftA" where
  "RemoveServer D now i timeout =
     bindA (newConfigurationFuture timeout) (\<lambda>fut.
     bindA membershipGuard (\<lambda>refused.
     case refused of
       Some e \<Rightarrow> respondConf fut emptyConfiguration (Some e)
     | None \<Rightarrow>
         bindA (readA confOf) (\<lambda>c.
         bindA (readA (isMember i)) (\<lambda>mem.
         if \<not> mem then respondConf fut c None
         else
           bindA (appendConfiguration D (removedConf i c)) (\<lambda>_.
           bindA (sendAppendEntriesToPeers now) (\<lambda>_.
           returnA fut))))))"

section \<open>Operations\<close>

definition submitReplicatedOperation :: "('f, 'r) deps \<Rightarrow> time \<Rightarrow> bytes \<Rightarrow> duration \<Rightarrow>
    ('f, 'r, 'r OperationResponse future) raftA" where
  "submitReplicatedOperation D now bs timeout =
     bindA (newOperationFuture timeout) (\<lambda>fut.
     bindA getA (\<lambda>r.
     if state r \<noteq> Leader then respondOp fut (Some ErrNotLeader)
     else
       bindA nextIndexA (\<lambda>ni.
       bindA (fatalA ''failed to append entry to log''
         (onLog (AppendEntry (marshalEntry D) (NewLogEntry ni (currentTerm r) bs OperationEntry)))) (\<lambda>_.
       bindA (modifyA (\<lambda>r. r\<lparr>manager := (manager r)\<lparr>pendingReplicated :=
         fmupd ni (responseCh fut) (pendingReplicated (manager r))\<rparr>\<rparr>)) (\<lambda>_.
       bindA (sendAppendEntriesToPeers now) (\<lambda>_.
       returnA fut))))))"

definition submitReadOnlyOperation :: "time \<Rightarrow> bytes \<Rightarrow> OperationType \<Rightarrow> duration \<Rightarrow>
    ('f, 'r, 'r OperationResponse future) raftA" where
  "submitReadOnlyOperation now bs readOnlyType timeout =
     bindA (newOperationFuture timeout) (\<lambda>fut.
     bindA getA (\<lambda>r.
     if state r \<noteq> Leader then respondOp fut (Some ErrNotLeader)
     else
       let oper = zeroOperation\<lparr>op_Bytes := bs, op_Type := readOnlyType, op_readIndex := commitIndex r\<rparr> in
       bindA (modifyA (\<lambda>r. r\<lparr>nextOp := Suc (nextOp r), manager := (manager r)\<lparr>pendingReadOnly :=
         fmupd (nextOp r) (oper, responseCh fut) (pendingReadOnly (manager r))\<rparr>\<rparr>)) (\<lambda>_.
       bindA (whenA (readOnlyType = LeaseBasedReadOnly \<and> op_readIndex oper \<le> lastApplied r)
         (broadcast readOnlyCond)) (\<lambda>_.
       bindA (whenA (readOnlyType = LinearizableReadOnly \<and> shouldVerifyQuorum (manager r))
         (bindA (sendAppendEntriesToPeers now) (\<lambda>_.
          modifyA (\<lambda>r. r\<lparr>manager := (manager r)\<lparr>shouldVerifyQuorum := False\<rparr>\<rparr>)))) (\<lambda>_.
       returnA fut)))))"

definition SubmitOperation :: "('f, 'r) deps \<Rightarrow> time \<Rightarrow> bytes \<Rightarrow> OperationType \<Rightarrow> duration \<Rightarrow>
    ('f, 'r, 'r OperationResponse future) raftA" where
  "SubmitOperation D now bs operationType timeout =
     (case operationType of
        Replicated \<Rightarrow> submitReplicatedOperation D now bs timeout
      | LeaseBasedReadOnly \<Rightarrow> submitReadOnlyOperation now bs operationType timeout
      | LinearizableReadOnly \<Rightarrow> submitReadOnlyOperation now bs operationType timeout
      | OtherOperation _ \<Rightarrow>
          bindA (newOperationFuture timeout) (\<lambda>fut.
          respondOp fut (Some (ErrNew ''operation type is not valid''))))"

end
