(* ===== verification/MemberProps.thy ===== *)
theory MemberProps
  imports Client ReplicationSpec Samples
begin

text \<open>
  Membership changes: the configurations they create, and that quorums of a configuration and of the
  one that follows it always meet.
\<close>

section \<open>Configurations that differ in one voter\<close>








lemma changes_wf: "wf_conf (addedConf i a v c)" "wf_conf (removedConf i c)"
  by (auto simp: wf_conf_def addedConf_def removedConf_def Clone_def)








section \<open>One change at a time\<close>

lemma membershipGuard_ok:
  assumes "membershipGuard r = (Inr x, r')"
  shows "r' = r" "x = None \<longleftrightarrow> state r = Leader \<and> committedThisTerm r = Inr True \<and> pendingConfigurationChange r = Inr False"
    "state r \<noteq> Leader \<Longrightarrow> x = Some ErrNotLeader"
    "state r = Leader \<Longrightarrow> committedThisTerm r = Inr False \<Longrightarrow> x = Some ErrNoCommitThisTerm"
    "state r = Leader \<Longrightarrow> committedThisTerm r = Inr True \<Longrightarrow> pendingConfigurationChange r = Inr True \<Longrightarrow> x = Some ErrPendingConfiguration"
  using assms by (auto simp: membershipGuard_def bindA_eq_Inr split: if_splits)

text \<open>The fields a membership change is judged by.\<close>

definition changeOf :: "('f, 'r) raft \<Rightarrow> State \<times> Configuration option \<times> Configuration option \<times> persistentLog" where
  "changeOf r = (state r, configuration r, committedConfiguration r, log r)"

lemma change_parts: "keepsA changeOf (sendAppendEntriesToPeers now)" "keepsA changeOf (newConfigurationFuture t)"
  "keepsA changeOf (respondConf fut c e)"
proof -
  show "keepsA changeOf (sendAppendEntriesToPeers now)" by (rule keeps_sendToPeers) (simp_all add: changeOf_def)
  show "keepsA changeOf (newConfigurationFuture t)"
    unfolding newConfigurationFuture_def by (intro keeps.from_get keeps.intros) (simp add: changeOf_def)
  show "keepsA changeOf (respondConf fut c e)"
    unfolding respondConf_def by (intro keeps.intros) (simp add: changeOf_def)
qed

lemma appendConfiguration_ok:
  assumes "wf_node D r" "appendConfiguration D c r = (Inr c', r')"
  shows "c' = c\<lparr>cIndex := lastIdx r + 1\<rparr>"
    "configuration r' = configuration r" "committedConfiguration r' = committedConfiguration r" "state r' = state r"
  using assms nextIndexA_ok[of "marshalEntry D" r]
  by (auto simp: appendConfiguration_def bindA_eq_Inr Let_def onLog_def zoomA_eq_Inr wf_node_def)

text \<open>C31. \<^verbatim>\<open>AddServer\<close> admits one membership change at a time: when it appends a new configuration to the log,
the change is pending on the node afterwards, so that \<^verbatim>\<open>AddServer\<close> and \<^verbatim>\<open>RemoveServer\<close> are refused until the
configuration is committed.\<close>

theorem add_server_pending:
  assumes "wf_node D r" "configuration r = Some c" "cIndex c \<le> lastIdx r"
    and "AddServer D now i a v t r = (Inr fut, r')" "log r' \<noteq> log r"
  shows "configuration r' = Some ((addedConf i a v c)\<lparr>cIndex := lastIdx r + 1\<rparr>) \<and>
    pendingConfigurationChange r' = Inr True"
proof -
  note wf = assms(1)[unfolded wf_node_def, THEN conjunct1]
  from assms(4) obtain f r1 x r2 where nf: "newConfigurationFuture t r = (Inr f, r1)"
    and g: "membershipGuard r1 = (Inr x, r2)"
    and rest: "(case x of
       Some e \<Rightarrow> respondConf f emptyConfiguration (Some e)
     | None \<Rightarrow>
         bindA (readA confOf) (\<lambda>c.
         bindA (readA (isMember i)) (\<lambda>mem.
         bindA (readA (isVoter i)) (\<lambda>vot.
         if mem \<and> vot = v then respondConf f c None
         else
           bindA (appendConfiguration D (addedConf i a v c)) (\<lambda>c2.
           bindA (modifyA (\<lambda>r. r\<lparr>configuration := Some c2\<rparr>)) (\<lambda>_.
           bindA (modifyA (addFollower (newFollower\<lparr>nextIndex := 1\<rparr>) i)) (\<lambda>_.
           bindA (sendAppendEntriesToPeers now) (\<lambda>_.
           returnA f)))))))) r2 = (Inr fut, r')"
    by (auto simp: AddServer_def bindA_eq_Inr)
  have r1: "changeOf r1 = changeOf r" using relAD[OF change_parts(2) nf] .
  have r2: "r2 = r1" "x = None \<longleftrightarrow> state r1 = Leader \<and> committedThisTerm r1 = Inr True \<and> pendingConfigurationChange r1 = Inr False"
    using membershipGuard_ok[OF g] by auto
  have lg: "log r1 = log r" "configuration r1 = Some c" "committedConfiguration r1 = committedConfiguration r"
    using r1 assms(2) by (auto simp: changeOf_def)
  have lii: "lastIncludedIndex r1 = lastIncludedIndex r" using nf by (auto simp: newConfigurationFuture_def)
  have no_reply: "respondConf f c' e r2 \<noteq> (Inr fut, r')" for c' e
    using relAD[OF change_parts(3), of f c' e r2 "Inr fut" r'] lg assms(5) r2(1) by (auto simp: changeOf_def)
  then have x: "x = None" using rest by (cases x) auto
  then have "confOf r2 = Inr c" using lg r2(1) by (simp add: confOf_def)
  with rest x no_reply obtain c2 r3 where ap: "appendConfiguration D (addedConf i a v c) r1 = (Inr c2, r3)"
    and snd: "sendAppendEntriesToPeers now (addFollower (newFollower\<lparr>nextIndex := 1\<rparr>) i (r3\<lparr>configuration := Some c2\<rparr>)) = (Inr (), r')"
    using r2(1) by (auto simp: bindA_eq_Inr split: if_splits)
  have wf1: "wf_node D r1" using assms(1) lg lii by (simp add: wf_node_def)
  note a = appendConfiguration_ok[OF wf1 ap]
  have ch: "changeOf r' = changeOf (r3\<lparr>configuration := Some c2\<rparr>)"
    using relAD[OF change_parts(1) snd] by (simp add: changeOf_def addFollower_def)
  then have conf: "configuration r' = Some ((addedConf i a v c)\<lparr>cIndex := lastIdx r + 1\<rparr>)"
    using a(1) lg by (simp add: changeOf_def)
  obtain cc where cc: "committedConfiguration r' = Some cc" "cIndex cc = cIndex c"
    using ch a(3) x r2(2) lg by (auto simp: changeOf_def pendingConfigurationChange_def confOf_def split: option.splits)
  have "cIndex c \<noteq> lastIdx r + 1"
    using assms(3) lastIdx_Suc[OF wf, of "cIndex c"] by auto
  then show ?thesis using conf cc by (simp add: pendingConfigurationChange_def confOf_def)
qed

definition member_leader :: "(bytes list, nat) raft" where
  "member_leader = (sample_node ''a'' Leader 2 ''a'' [emptyEntry, sample_entry 1 2 [7]])\<lparr>commitIndex := 1\<rparr>"

lemma member_leader_wf: "wf_node sample_deps member_leader"
  by (simp add: wf_node_def member_leader_def sample_defs wf_log_def wf_entries_def encodable_def view_def strip_def)

theorem add_server_pending_witness:
  "pendingConfigurationChange (snd (AddServer sample_deps 5 ''d'' ''D'' True 10 member_leader)) = Inr True"
proof -
  let ?r' = "snd (AddServer sample_deps 5 ''d'' ''D'' True 10 member_leader)"
  have "case fst (AddServer sample_deps 5 ''d'' ''D'' True 10 member_leader) of Inr f \<Rightarrow> True | Inl _ \<Rightarrow> False"
    and l: "map Index (entries (log ?r')) = [0, 1, 2]" "map Index (entries (log member_leader)) = [0, 1]"
    and b: "cIndex sample_conf \<le> lastIdx member_leader" by code_simp+
  then obtain fut where r: "AddServer sample_deps 5 ''d'' ''D'' True 10 member_leader = (Inr fut, ?r')"
    by (cases "AddServer sample_deps 5 ''d'' ''D'' True 10 member_leader") (auto split: sum.splits)
  have c: "configuration member_leader = Some sample_conf" by (simp add: member_leader_def sample_node_def)
  have "log ?r' \<noteq> log member_leader" using l by auto
  from add_server_pending[OF member_leader_wf c b r this] show ?thesis by simp
qed

text \<open>C32. Membership changes are refused with the right error and without effect: by a node that is not the
leader, before an entry of the current term is committed, and while a change is pending. The future is
answered at once, with the empty configuration and that error, and no other field changes.\<close>

theorem membership_refused:
  assumes "AddServer D now i a v t r = (Inr fut, r') \<or> RemoveServer D now i t r = (Inr fut, r')"
    and "e = (if state r \<noteq> Leader then ErrNotLeader
              else if committedThisTerm r = Inr False then ErrNoCommitThisTerm else ErrPendingConfiguration)"
    and "state r \<noteq> Leader \<or> committedThisTerm r = Inr False \<or>
         (committedThisTerm r = Inr True \<and> pendingConfigurationChange r = Inr True)"
  shows "fut = newFuture (nextCh r) t \<and>
    r' = r\<lparr>confChans := (confChans r)(nextCh r := Some \<lparr>res_success = emptyConfiguration, res_err = Some e\<rparr>),
           nextCh := Suc (nextCh r)\<rparr>"
proof -
  let ?r1 = "r\<lparr>confChans := (confChans r)(nextCh r := None), nextCh := Suc (nextCh r)\<rparr>"
  have c: "committedThisTerm ?r1 = committedThisTerm r" "pendingConfigurationChange ?r1 = pendingConfigurationChange r"
    by (simp_all add: committedThisTerm_def pendingConfigurationChange_def confOf_def split: sum.split option.split bool.split)
  have g: "membershipGuard ?r1 = (Inr (Some e), ?r1)"
    using assms(2,3) by (cases "state r = Leader"; cases "committedThisTerm r = Inr False")
      (simp_all add: membershipGuard_def bindA_def c)
  have "respondConf (newFuture (nextCh r) t) emptyConfiguration (Some e) ?r1 = (Inr fut, r')"
    using assms(1) by (simp add: AddServer_def RemoveServer_def newConfigurationFuture_def bindA_def g)
  then show ?thesis by (auto simp: respondConf_def respond_def newFuture_def)
qed

theorem membership_refused_witness:
  "AddServer sample_deps 5 ''d'' ''D'' True 10 sample_follower =
     (Inr (newFuture 0 10), sample_follower\<lparr>confChans := (confChans sample_follower)(0 := Some \<lparr>res_success = emptyConfiguration, res_err = Some ErrNotLeader\<rparr>),
        nextCh := 1\<rparr>)"
proof -
  have "case fst (AddServer sample_deps 5 ''d'' ''D'' True 10 sample_follower) of Inr f \<Rightarrow> True | Inl _ \<Rightarrow> False" by code_simp
  then obtain fut where r: "AddServer sample_deps 5 ''d'' ''D'' True 10 sample_follower = (Inr fut, snd (AddServer sample_deps 5 ''d'' ''D'' True 10 sample_follower))"
    by (cases "AddServer sample_deps 5 ''d'' ''D'' True 10 sample_follower") (auto split: sum.splits)
  have s: "state sample_follower \<noteq> Leader" "nextCh sample_follower = 0" by (simp_all add: sample_follower_def sample_node_def)
  from membership_refused[OF disjI1[OF r] refl] s r show ?thesis by simp
qed

section \<open>Removing servers\<close>

text \<open>C38. \<^verbatim>\<open>RemoveServer\<close> never makes the new configuration the node's latest one: both configurations stay as
they were, so the guard against a second change does not see the first. On the sample leader two
removals in a row are both accepted, and two uncommitted configurations are in the log at once.\<close>

theorem remove_server_not_pending:
  "configuration (snd (RemoveServer D now i t r)) = configuration r \<and>
   committedConfiguration (snd (RemoveServer D now i t r)) = committedConfiguration r \<and>
   (let r1 = snd (RemoveServer sample_deps 5 ''c'' 10 member_leader) in
      map EntryType (logview (snd (RemoveServer sample_deps 6 ''b'' 10 r1))) =
        [NoOpEntry, OperationEntry, ConfigurationEntry, ConfigurationEntry] \<and> commitIndex r1 = 1)"
proof -
  let ?f = "\<lambda>r. (configuration r, committedConfiguration r)"
  have p1: "keepsA ?f (sendAppendEntriesToPeers now)" by (rule keeps_sendToPeers) simp_all
  have p2: "keepsA ?f (newConfigurationFuture t)"
    unfolding newConfigurationFuture_def by (intro keeps.from_get keeps.intros) simp
  have p3: "keepsA ?f (respondConf fut c e)" for fut c e
    unfolding respondConf_def by (intro keeps.intros) simp
  have "keepsA ?f (appendConfiguration D c)" for c
    unfolding appendConfiguration_def Let_def onLog_def nextIndexA_def
    by (intro keeps.from_get keeps.intros keeps.zoom) simp
  then have "keepsA ?f (RemoveServer D now i t)"
    unfolding RemoveServer_def membershipGuard_def
    by (intro keeps.from_get keeps.intros p1 p2 p3)
  moreover have "let r1 = snd (RemoveServer sample_deps 5 ''c'' 10 member_leader) in
      map EntryType (logview (snd (RemoveServer sample_deps 6 ''b'' 10 r1))) =
        [NoOpEntry, OperationEntry, ConfigurationEntry, ConfigurationEntry] \<and> commitIndex r1 = 1"
    by code_simp
  ultimately show ?thesis by (simp add: relA_def)
qed

end
