(* ===== verification/Apply.thy ===== *)
theory Apply
  imports Handlers
begin

text \<open>
  raft.go: \<^verbatim>\<open>applyLoop\<close> and \<^verbatim>\<open>readOnlyLoop\<close>. Both release the mutex around \<^verbatim>\<open>fsm.Apply\<close>: an
  iteration is the part that picks the operation, the call of the state machine, and the part
  that records it. \<open>applyEntries\<close> and \<open>serveReads\<close> compose the parts the way the loops do, when
  no other goroutine runs in between.
\<close>

section \<open>Replicated operations\<close>

text \<open>How an iteration of the inner loop goes on.\<close>

datatype applyNext =
    ApplyDone
  | ApplyNext
  | ApplyOperation Operation "nat option" u64

definition advanceApplied :: "('f, 'r) deps \<Rightarrow> ('f, 'r, unit) raftA" where
  "advanceApplied D =
     bindA (modifyA (\<lambda>r. r\<lparr>lastApplied := lastApplied r + 1\<rparr>)) (\<lambda>_.
     bindA getA (\<lambda>r.
     whenA (fsmNeedSnapshot D (fsm r) (Size (log r))) (broadcast snapshotCond)))"

definition applyNextEntry :: "('f, 'r) deps \<Rightarrow> time \<Rightarrow> ('f, 'r, applyNext) raftA" where
  "applyNextEntry D now =
     bindA getA (\<lambda>r.
     if \<not> (lastApplied r < commitIndex r \<and> state r \<noteq> Shutdown) then returnA ApplyDone
     else
       bindA (getEntryOrFatal (lastApplied r + 1)) (\<lambda>entry.
       if EntryType entry = NoOpEntry then bindA (advanceApplied D) (\<lambda>_. returnA ApplyNext)
       else if EntryType entry = ConfigurationEntry then
         bindA (applyConfiguration D now (Data entry)) (\<lambda>_.
         bindA (readA confOf) (\<lambda>c.
         bindA (modifyA (\<lambda>r. r\<lparr>confChans := respond (configurationResponseCh r) c None (confChans r)\<rparr>)) (\<lambda>_.
         bindA (advanceApplied D) (\<lambda>_. returnA ApplyNext))))
       else if EntryType entry = OperationEntry then
         bindA (modifyA (\<lambda>r. r\<lparr>manager := (manager r)\<lparr>pendingReplicated :=
           fmdrop (Index entry) (pendingReplicated (manager r))\<rparr>\<rparr>)) (\<lambda>_.
         returnA (ApplyOperation
           (zeroOperation\<lparr>op_Bytes := Data entry, op_Type := Replicated, op_LogIndex := Index entry,
                          op_LogTerm := Term entry\<rparr>)
           (fmlookup (pendingReplicated (manager r)) (Index entry)) (lastApplied r)))
       else raiseA (Fatal ''log entry has invalid type'')))"

text \<open>\<^verbatim>\<open>fsm.Apply\<close> and the response to the client, without the mutex.\<close>

definition applyOperation :: "('f, 'r) deps \<Rightarrow> Operation \<Rightarrow> nat option \<Rightarrow> ('f, 'r, unit) raftA" where
  "applyOperation D oper ch =
     modifyA (\<lambda>r. case fsmApply D oper (fsm r) of (x, f) \<Rightarrow>
       r\<lparr>fsm := f, opChans := respond ch \<lparr>or_Operation = oper, or_ApplicationResponse = Some x\<rparr> None (opChans r)\<rparr>)"

text \<open>The index moves only if no snapshot was installed meanwhile.\<close>

definition applyFinish :: "('f, 'r) deps \<Rightarrow> u64 \<Rightarrow> ('f, 'r, unit) raftA" where
  "applyFinish D la = bindA getA (\<lambda>r. whenA (lastApplied r = la) (advanceApplied D))"

text \<open>At most \<open>n\<close> iterations of the inner loop; \<open>True\<close>: the loop ended.\<close>

fun applyEntries :: "('f, 'r) deps \<Rightarrow> time \<Rightarrow> nat \<Rightarrow> ('f, 'r, bool) raftA" where
  "applyEntries D now 0 = returnA False"
| "applyEntries D now (Suc n) =
     bindA (applyNextEntry D now) (\<lambda>nxt.
     case nxt of
       ApplyDone \<Rightarrow> returnA True
     | ApplyNext \<Rightarrow> applyEntries D now n
     | ApplyOperation oper ch la \<Rightarrow>
         bindA (applyOperation D oper ch) (\<lambda>_.
         bindA (applyFinish D la) (\<lambda>_.
         applyEntries D now n)))"

text \<open>What follows the inner loop of \<^verbatim>\<open>applyLoop\<close>.\<close>

definition applyLoopEnd :: "('f, 'r, unit) raftA" where
  "applyLoopEnd = bindA getA (\<lambda>r. whenA (state r = Leader) (broadcast readOnlyCond))"

section \<open>Read-only operations\<close>

text \<open>The operations that a pass of \<^verbatim>\<open>readOnlyLoop\<close> takes over.\<close>

definition takeReads :: "('f, 'r, (Operation \<times> nat) list) raftA" where
  "takeReads =
     bindA getA (\<lambda>r.
     if state r \<noteq> Leader then returnA []
     else
       bindA (readA committedThisTerm) (\<lambda>ok.
       if \<not> ok then returnA []
       else
         case appliableReadOnlyOperations (lastApplied r) (manager r) of
           (ready, m) \<Rightarrow>
             bindA (modifyA (\<lambda>r. r\<lparr>manager := m\<rparr>)) (\<lambda>_.
             returnA (map (\<lambda>p. the (fmlookup ready p)) (sorted_list_of_fset (fmdom ready))))))"

text \<open>A lease-based read without a valid lease is refused; \<open>True\<close>: the operation is to be applied.\<close>

definition checkLease :: "time \<Rightarrow> Operation \<Rightarrow> nat \<Rightarrow> ('f, 'r, bool) raftA" where
  "checkLease now oper ch =
     bindA getA (\<lambda>r.
     if op_Type oper = LeaseBasedReadOnly \<and> \<not> isValid now (leaderLease (manager r)) then
       bindA (modifyA (\<lambda>r. r\<lparr>opChans := respond (Some ch) zeroResponse (Some ErrInvalidLease) (opChans r)\<rparr>)) (\<lambda>_.
       returnA False)
     else returnA True)"

fun serveReads :: "('f, 'r) deps \<Rightarrow> time \<Rightarrow> (Operation \<times> nat) list \<Rightarrow> ('f, 'r, unit) raftA" where
  "serveReads D now [] = returnA ()"
| "serveReads D now ((oper, ch) # ops) =
     bindA (checkLease now oper ch) (\<lambda>ok.
     if \<not> ok then serveReads D now ops
     else
       bindA (applyOperation D oper (Some ch)) (\<lambda>_.
       bindA getA (\<lambda>r.
       if state r \<noteq> Leader then returnA () else serveReads D now ops)))"

text \<open>One pass of \<^verbatim>\<open>readOnlyLoop\<close> after it is woken.\<close>

definition readOnlyLoop :: "('f, 'r) deps \<Rightarrow> time \<Rightarrow> ('f, 'r, unit) raftA" where
  "readOnlyLoop D now = bindA takeReads (serveReads D now)"

end
