(* ===== verification/ApplyProps.thy ===== *)
theory ApplyProps
  imports Apply ReplicationSpec Samples
begin

text \<open>
  The apply loop: it runs the committed entries through the state machine in log order, ends, and
  answers the clients that wait for them.
\<close>

section \<open>Specification\<close>

definition operationOf :: "LogEntry \<Rightarrow> Operation" where
  "operationOf e = zeroOperation\<lparr>op_Bytes := Data e, op_Type := Replicated, op_LogIndex := Index e, op_LogTerm := Term e\<rparr>"

text \<open>What an entry does to the state machine and to the channels of the waiting clients.\<close>

definition answer :: "('f, 'r) deps \<Rightarrow> (u64, nat) fmap \<Rightarrow> LogEntry \<Rightarrow> 'f \<times> 'r OperationResponse chans \<Rightarrow> 'f \<times> 'r OperationResponse chans" where
  "answer D pend e = (\<lambda>(f, cs).
     if EntryType e = OperationEntry
     then (case fsmApply D (operationOf e) f of (x, f') \<Rightarrow>
       (f', respond (fmlookup pend (Index e)) \<lparr>or_Operation = operationOf e, or_ApplicationResponse = Some x\<rparr> None cs))
     else (f, cs))"

definition applyEntry :: "('f, 'r) deps \<Rightarrow> LogEntry \<Rightarrow> 'f \<Rightarrow> 'f" where
  "applyEntry D e f = (if EntryType e = OperationEntry then snd (fsmApply D (operationOf e) f) else f)"

text \<open>The entries that are committed and not applied yet.\<close>

definition toApply :: "('f, 'r) raft \<Rightarrow> LogEntry list" where
  "toApply r = map (\<lambda>i. the (lookup (logview r) i)) (index_range (lastApplied r + 1) (commitIndex r))"

section \<open>One iteration\<close>

interpretation alive: action_rel "\<lambda>s s'. state s \<noteq> Shutdown \<longrightarrow> state s' \<noteq> Shutdown"
  by unfold_locales auto

definition seenOf :: "('f, 'r) raft \<Rightarrow> persistentLog \<times> u64 \<times> u64 \<times> 'f" where
  "seenOf r = (log r, commitIndex r, lastApplied r, fsm r)"

lemma seen_nextConfiguration: "keepsA seenOf (nextConfiguration now c)"
  by (rule keeps_nextConfiguration) (simp_all add: seenOf_def)

lemma seen_applyConfiguration: "keepsA seenOf (applyConfiguration D now dat)"
  unfolding applyConfiguration_def
  by (intro keeps.from_get keeps.intros seen_nextConfiguration) (simp add: seenOf_def)

lemma alive_resetSnapshotFiles: "relA (\<lambda>s s'. state s \<noteq> Shutdown \<longrightarrow> state s' \<noteq> Shutdown) (resetSnapshotFiles :: ('f, 'r, unit) raftA)"
  using keeps_resetSnapshotFiles[of "state :: ('f, 'r) raft \<Rightarrow> State"] by (auto simp: relA_def)

lemma alive_applyConfiguration: "relA (\<lambda>s s'. state s \<noteq> Shutdown \<longrightarrow> state s' \<noteq> Shutdown) (applyConfiguration D now dat)"
  unfolding applyConfiguration_def nextConfiguration_def stepdown_def cancelOperations_def option.case
  by (intro alive.from_get alive.intros alive_resetSnapshotFiles) (simp_all add: nextFollowers_def keeps_addFollowers[of state])

lemma advanceApplied_eq:
  "advanceApplied D r = (Inr (), r\<lparr>lastApplied := lastApplied r + 1,
     woken := woken r @ (if fsmNeedSnapshot D (fsm r) (Size (log r)) then [snapshotCond] else [])\<rparr>)"
  by (simp add: advanceApplied_def broadcast_def)

lemma applyNextEntry_eq:
  assumes "state r \<noteq> Shutdown" "lastApplied r < commitIndex r" "GetEntry (lastApplied r + 1) (log r) = Inr e"
  shows "EntryType e = NoOpEntry \<Longrightarrow> applyNextEntry D now r = bindA (advanceApplied D) (\<lambda>_. returnA ApplyNext) r"
    and "EntryType e = ConfigurationEntry \<Longrightarrow> applyNextEntry D now r =
       bindA (applyConfiguration D now (Data e)) (\<lambda>_.
         bindA (readA confOf) (\<lambda>c.
         bindA (modifyA (\<lambda>r. r\<lparr>confChans := respond (configurationResponseCh r) c None (confChans r)\<rparr>)) (\<lambda>_.
         bindA (advanceApplied D) (\<lambda>_. returnA ApplyNext)))) r"
    and "EntryType e = OperationEntry \<Longrightarrow> applyNextEntry D now r =
       (Inr (ApplyOperation (operationOf e) (fmlookup (pendingReplicated (manager r)) (Index e)) (lastApplied r)),
        r\<lparr>manager := (manager r)\<lparr>pendingReplicated := fmdrop (Index e) (pendingReplicated (manager r))\<rparr>\<rparr>)"
    and "EntryType e \<notin> {NoOpEntry, ConfigurationEntry, OperationEntry} \<Longrightarrow> applyNextEntry D now r = (Inl (Fatal ''log entry has invalid type''), r)"
proof -
  have g: "getEntryOrFatal (lastApplied r + 1) r = (Inr e, r)" using assms(3) by simp
  then show "EntryType e = NoOpEntry \<Longrightarrow> applyNextEntry D now r = bindA (advanceApplied D) (\<lambda>_. returnA ApplyNext) r"
    "EntryType e = ConfigurationEntry \<Longrightarrow> applyNextEntry D now r =
       bindA (applyConfiguration D now (Data e)) (\<lambda>_.
         bindA (readA confOf) (\<lambda>c.
         bindA (modifyA (\<lambda>r. r\<lparr>confChans := respond (configurationResponseCh r) c None (confChans r)\<rparr>)) (\<lambda>_.
         bindA (advanceApplied D) (\<lambda>_. returnA ApplyNext)))) r"
    "EntryType e = OperationEntry \<Longrightarrow> applyNextEntry D now r =
       (Inr (ApplyOperation (operationOf e) (fmlookup (pendingReplicated (manager r)) (Index e)) (lastApplied r)),
        r\<lparr>manager := (manager r)\<lparr>pendingReplicated := fmdrop (Index e) (pendingReplicated (manager r))\<rparr>\<rparr>)"
    "EntryType e \<notin> {NoOpEntry, ConfigurationEntry, OperationEntry} \<Longrightarrow> applyNextEntry D now r = (Inl (Fatal ''log entry has invalid type''), r)"
    using assms(1,2)
    by (simp_all add: applyNextEntry_def bindA_Inr operationOf_def NoOpEntry_def ConfigurationEntry_def OperationEntry_def)
qed

text \<open>What an iteration does, by the kind of entry it meets.\<close>

lemma applyNextEntry_ok:
  assumes a: "applyNextEntry D now r = (Inr x, r')" "state r \<noteq> Shutdown"
  shows "(x = ApplyDone \<and> r' = r \<and> commitIndex r \<le> lastApplied r) \<or>
    (lastApplied r < commitIndex r \<and> (\<exists>e. GetEntry (lastApplied r + 1) (log r) = Inr e \<and>
      ((x = ApplyNext \<and> EntryType e \<noteq> OperationEntry \<and> state r' \<noteq> Shutdown \<and>
          seenOf r' = (log r, commitIndex r, lastApplied r + 1, fsm r)) \<or>
       (x = ApplyOperation (operationOf e) (fmlookup (pendingReplicated (manager r)) (Index e)) (lastApplied r) \<and>
          EntryType e = OperationEntry \<and>
          r' = r\<lparr>manager := (manager r)\<lparr>pendingReplicated := fmdrop (Index e) (pendingReplicated (manager r))\<rparr>\<rparr>))))"
proof (cases "lastApplied r < commitIndex r")
  case False
  with a show ?thesis by (auto simp: applyNextEntry_def)
next
  case True
  with a obtain e where e: "GetEntry (lastApplied r + 1) (log r) = Inr e"
    by (auto simp: applyNextEntry_def bindA_eq_Inr)
  note eq = applyNextEntry_eq[OF a(2) True e]
  consider "EntryType e = NoOpEntry" | "EntryType e = ConfigurationEntry" | "EntryType e = OperationEntry"
    using a eq(4)[of D now] by auto
  then show ?thesis
  proof cases
    case 1
    then show ?thesis using a eq(1) True e by (auto simp: bindA_eq_Inr advanceApplied_eq seenOf_def NoOpEntry_def OperationEntry_def)
  next
    case 2
    with a eq(2) obtain r1 c where r1: "applyConfiguration D now (Data e) r = (Inr (), r1)"
      and r': "bindA (advanceApplied D) (\<lambda>_. returnA ApplyNext) (r1\<lparr>confChans := respond (configurationResponseCh r1) c None (confChans r1)\<rparr>) = (Inr x, r')"
      by (auto simp: bindA_eq_Inr)
    have "state r1 \<noteq> Shutdown" using relAD[OF alive_applyConfiguration r1] a(2) by simp
    with r' have "x = ApplyNext" "seenOf r' = (log r1, commitIndex r1, lastApplied r1 + 1, fsm r1)" "state r' \<noteq> Shutdown"
      by (auto simp: bindA_eq_Inr advanceApplied_eq seenOf_def)
    then show ?thesis using relAD[OF seen_applyConfiguration r1] True e 2
      by (simp add: seenOf_def ConfigurationEntry_def OperationEntry_def)
  next
    case 3
    then show ?thesis using a eq(3) True e by auto
  qed
qed

section \<open>The loop\<close>

text \<open>The number of iterations left, and the entries they take.\<close>

definition unapplied :: "('f, 'r) raft \<Rightarrow> nat" where
  "unapplied r = unat (commitIndex r) - unat (lastApplied r)"

lemma toApply_cases:
  assumes wf: "wf_log mar (log r)" and c: "lastApplied r \<le> commitIndex r" "commitIndex r \<le> lastIdx r"
  shows "commitIndex r \<le> lastApplied r \<Longrightarrow> toApply r = [] \<and> lastApplied r = commitIndex r"
    and "lastApplied r < commitIndex r \<Longrightarrow> GetEntry (lastApplied r + 1) (log r) = Inr e \<Longrightarrow>
      log r' = log r \<Longrightarrow> commitIndex r' = commitIndex r \<Longrightarrow> lastApplied r' = lastApplied r + 1 \<Longrightarrow>
      toApply r = strip e # toApply r' \<and> unapplied r = Suc (unapplied r') \<and> lastApplied r' \<le> commitIndex r'"
proof -
  have b: "unat (commitIndex r) + 1 < 2 ^ 64" using lastIdx_bound[OF wf] c(2) by (simp add: word_le_nat_alt)
  have s: "unat (lastApplied r + 1) = unat (lastApplied r) + 1"
    using c(1) b unat_Suc_word[of "lastApplied r"] by (simp add: word_le_nat_alt)
  show "toApply r = [] \<and> lastApplied r = commitIndex r" if "commitIndex r \<le> lastApplied r"
    using that c(1) s by (simp add: toApply_def index_range_def)
  show "toApply r = strip e # toApply r' \<and> unapplied r = Suc (unapplied r') \<and> lastApplied r' \<le> commitIndex r'"
    if "lastApplied r < commitIndex r" "GetEntry (lastApplied r + 1) (log r) = Inr e"
      "log r' = log r" "commitIndex r' = commitIndex r" "lastApplied r' = lastApplied r + 1"
  proof -
    have l: "lastApplied r + 1 \<le> commitIndex r" using that(1) s by (auto simp: word_less_nat_alt word_le_nat_alt)
    then have "toApply r = strip e # toApply r'"
      using index_range_loop[OF b, of "lastApplied r + 1"] plog.get_law[OF wf that(2)] by (simp add: toApply_def that)
    with l that(1) show ?thesis by (auto simp: unapplied_def that s word_less_nat_alt)
  qed
qed

lemma applyEntries_ok:
  "wf_log (marshalEntry D) (log r) \<Longrightarrow> lastApplied r \<le> commitIndex r \<Longrightarrow> commitIndex r \<le> lastIdx r \<Longrightarrow> state r \<noteq> Shutdown \<Longrightarrow>
   unapplied r < n \<Longrightarrow> applyEntries D now n r = (Inr b, r') \<Longrightarrow>
   b \<and> log r' = log r \<and> commitIndex r' = commitIndex r \<and> lastApplied r' = commitIndex r \<and>
     fsm r' = fold (applyEntry D) (toApply r) (fsm r)"
proof (induction n arbitrary: r)
  case (Suc n)
  note wf = Suc.prems(1) and tc = toApply_cases[OF Suc.prems(1,2,3)]
  from Suc.prems(6) obtain x r1 where x: "applyNextEntry D now r = (Inr x, r1)"
    and rest: "(case x of ApplyDone \<Rightarrow> returnA True | ApplyNext \<Rightarrow> applyEntries D now n
       | ApplyOperation oper ch la \<Rightarrow> bindA (applyOperation D oper ch) (\<lambda>_. bindA (applyFinish D la) (\<lambda>_. applyEntries D now n))) r1 = (Inr b, r')"
    by (auto simp: bindA_eq_Inr)
  from applyNextEntry_ok[OF x Suc.prems(4)] show ?case
  proof (elim disjE conjE exE, goal_cases)
    case 1
    then show ?case using rest tc(1) by simp
  next
    case (2 e)
    then have s: "log r1 = log r" "commitIndex r1 = commitIndex r" "lastApplied r1 = lastApplied r + 1" "fsm r1 = fsm r"
      by (simp_all add: seenOf_def)
    note t = tc(2)[OF 2(1,2) s(1-3)]
    have "applyEntries D now n r1 = (Inr b, r')" using rest 2 by simp
    from Suc.IH[OF _ _ _ _ _ this] show ?case
      using t s 2 wf Suc.prems(3,5) by (simp add: applyEntry_def)
  next
    case (3 e)
    obtain y f' where y: "fsmApply D (operationOf e) (fsm r) = (y, f')" by (cases "fsmApply D (operationOf e) (fsm r)")
    let ?ch = "fmlookup (pendingReplicated (manager r)) (Index e)"
    let ?r2 = "r1\<lparr>fsm := f', opChans := respond ?ch \<lparr>or_Operation = operationOf e, or_ApplicationResponse = Some y\<rparr> None (opChans r1)\<rparr>"
    let ?r3 = "snd (advanceApplied D ?r2)"
    have "applyEntries D now n ?r3 = (Inr b, r')"
      using rest 3 y by (simp add: applyOperation_def applyFinish_def advanceApplied_eq bindA_def)
    moreover have s: "log ?r3 = log r" "commitIndex ?r3 = commitIndex r" "lastApplied ?r3 = lastApplied r + 1" "fsm ?r3 = f'" "state ?r3 = state r"
      using 3 by (simp_all add: advanceApplied_eq)
    note t = tc(2)[OF 3(1,2) s(1-3)]
    from calculation Suc.IH[of ?r3] show ?case
      using t s 3 y wf Suc.prems(3,4,5) by (simp add: applyEntry_def operationOf_def)
  qed
qed simp

text \<open>C8. The apply loop runs the committed entries through the state machine: it ends within as many iterations as
there are unapplied entries (plus the one that finds none), and then the last applied index is the commit index,
the log is as it was, and the state machine is in the state that results from applying the operations among those
entries, once each and in log order.\<close>

theorem apply_refines:
  assumes "wf_node D r" "lastApplied r \<le> commitIndex r" "commitIndex r \<le> lastIdx r" "state r \<noteq> Shutdown"
    and "unat (commitIndex r) - unat (lastApplied r) < n" "applyEntries D now n r = (Inr ended, r')"
  shows "ended \<and> lastApplied r' = commitIndex r \<and> commitIndex r' = commitIndex r \<and> log r' = log r \<and>
    fsm r' = fold (applyEntry D) (map (\<lambda>i. the (lookup (logview r) i)) (index_range (lastApplied r + 1) (commitIndex r))) (fsm r)"
  using applyEntries_ok[OF _ assms(2-4) _ assms(6)] assms(1,5) by (simp add: wf_node_def unapplied_def toApply_def)

section \<open>Progress and answers\<close>

definition applicable :: "('f, 'r) raft \<Rightarrow> bool" where
  "applicable r \<longleftrightarrow> Index (hd (logview r)) \<le> lastApplied r \<and> lastApplied r \<le> commitIndex r \<and> commitIndex r \<le> lastIdx r \<and>
     state r \<noteq> Shutdown \<and> set (map EntryType (toApply r)) \<subseteq> {NoOpEntry, OperationEntry}"

lemma toApply_later:
  assumes "wf_log mar (log r)" "applicable r" "e \<in> set (toApply r)"
  shows "lastApplied r < Index e"
proof -
  have b: "unat (commitIndex r) + 1 < 2 ^ 64" using lastIdx_bound[OF assms(1)] assms(2) by (simp add: word_le_nat_alt applicable_def)
  have s: "unat (lastApplied r + 1) = unat (lastApplied r) + 1"
    using assms(2) b unat_Suc_word[of "lastApplied r"] by (simp add: word_le_nat_alt applicable_def)
  from assms(3) obtain i where i: "lastApplied r + 1 \<le> i" "i \<le> commitIndex r" "e = the (lookup (logview r) i)"
    by (auto simp: toApply_def set_index_range)
  have "lastApplied r < i" using i(1) s by (simp add: word_le_nat_alt word_less_nat_alt)
  then have "Index (hd (logview r)) < i" "i \<le> lastIdx r" using assms(2) i(2) by (auto simp: applicable_def)
  then obtain e' where "lookup (logview r) i = Some e'" by (auto simp: lookup_def)
  then show ?thesis using i(3) \<open>lastApplied r < i\<close> lookup_Index[OF plog.inv_wf[OF assms(1)]] by simp
qed

lemma answer_fmdrop: "i \<noteq> Index e \<Longrightarrow> answer D (fmdrop i pend) e x = answer D pend e x"
  by (cases x) (simp add: answer_def split: prod.split)

lemma applyEntries_total:
  "wf_log (marshalEntry D) (log r) \<Longrightarrow> applicable r \<Longrightarrow> unapplied r < n \<Longrightarrow>
   \<exists>r'. applyEntries D now n r = (Inr True, r') \<and>
     (fsm r', opChans r') = fold (answer D (pendingReplicated (manager r))) (toApply r) (fsm r, opChans r)"
proof (induction n arbitrary: r)
  case (Suc n)
  note wf = Suc.prems(1)
  have ap: "lastApplied r \<le> commitIndex r" "commitIndex r \<le> lastIdx r" "state r \<noteq> Shutdown" using Suc.prems(2) by (auto simp: applicable_def)
  note tc = toApply_cases[OF wf ap(1,2)]
  show ?case
  proof (cases "lastApplied r < commitIndex r")
    case False
    then have "applyNextEntry D now r = (Inr ApplyDone, r)" by (simp add: applyNextEntry_def)
    with False show ?thesis using tc(1) by (simp add: bindA_def)
  next
    case True
    have b: "unat (lastApplied r + 1) = unat (lastApplied r) + 1"
      using ap lastIdx_bound[OF wf] unat_Suc_word[of "lastApplied r"] by (simp add: word_le_nat_alt)
    have "Index (hd (logview r)) < lastApplied r + 1 \<and> lastApplied r + 1 \<le> lastIdx r"
      using Suc.prems(2) True ap b by (auto simp: applicable_def word_less_nat_alt word_le_nat_alt)
    then obtain e where e: "GetEntry (lastApplied r + 1) (log r) = Inr e"
      using plog.get_total[OF wf, of "lastApplied r + 1"] by (auto simp: lookup_def)
    have ie: "Index e = lastApplied r + 1" using plog.get_term(1)[OF wf e] .
    note eq = applyNextEntry_eq[OF ap(3) True e]
    have ty: "EntryType e = NoOpEntry \<or> EntryType e = OperationEntry"
      using tc(2)[OF True e, of "r\<lparr>lastApplied := lastApplied r + 1\<rparr>"] Suc.prems(2) by (auto simp: applicable_def)
    obtain y f' where y: "fsmApply D (operationOf e) (fsm r) = (y, f')" by (cases "fsmApply D (operationOf e) (fsm r)")
    define r2 where "r2 = (if EntryType e = NoOpEntry then r else r\<lparr>manager := (manager r)\<lparr>pendingReplicated := fmdrop (Index e) (pendingReplicated (manager r))\<rparr>,
      fsm := f', opChans := respond (fmlookup (pendingReplicated (manager r)) (Index e)) \<lparr>or_Operation = operationOf e, or_ApplicationResponse = Some y\<rparr> None (opChans r)\<rparr>)"
    define r3 where "r3 = snd (advanceApplied D r2)"
    have run: "applyEntries D now (Suc n) r = applyEntries D now n r3"
      using ty eq(1,3)[of D now] y
      by (auto simp: bindA_def r3_def r2_def advanceApplied_eq applyOperation_def applyFinish_def NoOpEntry_def OperationEntry_def)
    have s: "log r3 = log r" "commitIndex r3 = commitIndex r" "lastApplied r3 = lastApplied r + 1" "state r3 = state r"
      by (simp_all add: r3_def r2_def advanceApplied_eq)
    have f: "(fsm r3, opChans r3) = answer D (pendingReplicated (manager r)) (strip e) (fsm r, opChans r)"
      using ty y by (auto simp: r3_def r2_def advanceApplied_eq answer_def operationOf_def NoOpEntry_def OperationEntry_def)
    have t: "toApply r = strip e # toApply r3" "unapplied r = Suc (unapplied r3)" "lastApplied r3 \<le> commitIndex r3"
      using tc(2)[OF True e s(1-3)] by auto
    have a3: "applicable r3"
      using Suc.prems(2) t s b by (auto simp: applicable_def word_le_nat_alt)
    have "answer D (pendingReplicated (manager r3)) x = answer D (pendingReplicated (manager r)) x" if "x \<in> set (toApply r3)" for x
      using toApply_later[OF _ a3 that] wf s ie
      by (auto simp: r3_def r2_def advanceApplied_eq fun_eq_iff intro!: answer_fmdrop split: if_splits)
    then have "fold (answer D (pendingReplicated (manager r3))) (toApply r3) z = fold (answer D (pendingReplicated (manager r))) (toApply r3) z" for z
      by (intro fold_cong) auto
    with Suc.IH[of r3] run a3 t f s wf Suc.prems(3) show ?thesis by simp
  qed
qed simp

text \<open>C24. The apply loop makes progress and answers: if the entries to apply are operations and no-ops, the loop
does return, and every client waiting for one of them gets the response that the state machine gave when it
reached that operation.\<close>

theorem apply_answers:
  assumes "wf_node D r" "lastIncludedIndex r \<le> lastApplied r" "lastApplied r \<le> commitIndex r" "commitIndex r \<le> lastIdx r"
    and "state r \<noteq> Shutdown" "set (map EntryType (toApply r)) \<subseteq> {NoOpEntry, OperationEntry}"
    and "unat (commitIndex r) - unat (lastApplied r) < n"
  shows "\<exists>r'. applyEntries D now n r = (Inr True, r') \<and>
     (fsm r', opChans r') = fold (answer D (pendingReplicated (manager r))) (toApply r) (fsm r, opChans r)"
  using applyEntries_total[of D r n now] assms by (auto simp: wf_node_def applicable_def unapplied_def)

definition sample_applier :: "(bytes list, nat) raft" where
  "sample_applier = (let r = sample_node ''a'' Leader 2 ''a'' [emptyEntry, sample_entry 1 1 [7], NewLogEntry 2 2 [] NoOpEntry, sample_entry 3 2 [8]]
     in r\<lparr>commitIndex := 3, manager := (manager r)\<lparr>pendingReplicated := fmap_of_list [(3, 0)]\<rparr>\<rparr>)"

lemma sample_applier_ok:
  "wf_node sample_deps sample_applier" "lastApplied sample_applier \<le> commitIndex sample_applier" "commitIndex sample_applier \<le> lastIdx sample_applier"
  "state sample_applier \<noteq> Shutdown" "unat (commitIndex sample_applier) - unat (lastApplied sample_applier) < 4"
  "lastIncludedIndex sample_applier \<le> lastApplied sample_applier"
  "set (map EntryType (toApply sample_applier)) \<subseteq> {NoOpEntry, OperationEntry}"
proof -
  show "wf_node sample_deps sample_applier"
    by (simp add: wf_node_def sample_applier_def sample_defs NoOpEntry_def wf_log_def wf_entries_def encodable_def view_def strip_def)
qed code_simp+

theorem apply_refines_witness:
  "\<exists>r'. applyEntries sample_deps 5 4 sample_applier = (Inr True, r') \<and> fsm r' = [[7], [8]] \<and> lastApplied r' = 3"
proof -
  have "case fst (applyEntries sample_deps 5 4 sample_applier) of Inr b \<Rightarrow> b | Inl _ \<Rightarrow> False"
    and f: "fold (applyEntry sample_deps) (map (\<lambda>i. the (lookup (logview sample_applier) i))
      (index_range (lastApplied sample_applier + 1) (commitIndex sample_applier))) (fsm sample_applier) = [[7], [8]]" "commitIndex sample_applier = 3"
    by code_simp+
  then obtain r' where r: "applyEntries sample_deps 5 4 sample_applier = (Inr True, r')"
    by (cases "applyEntries sample_deps 5 4 sample_applier") (auto split: sum.splits)
  from apply_refines[OF sample_applier_ok(1-5) r] r f show ?thesis by auto
qed

theorem apply_answers_witness:
  "\<exists>r'. applyEntries sample_deps 5 4 sample_applier = (Inr True, r') \<and>
     opChans r' 0 = Some \<lparr>res_success = \<lparr>or_Operation = operationOf (sample_entry 3 2 [8]), or_ApplicationResponse = Some 1\<rparr>, res_err = None\<rparr>"
proof -
  have "snd (fold (answer sample_deps (pendingReplicated (manager sample_applier))) (toApply sample_applier) (fsm sample_applier, opChans sample_applier)) 0 =
     Some \<lparr>res_success = \<lparr>or_Operation = operationOf (sample_entry 3 2 [8]), or_ApplicationResponse = Some 1\<rparr>, res_err = None\<rparr>"
    by code_simp
  with apply_answers[OF sample_applier_ok(1,6,2,3,4,7,5), of 5] show ?thesis by (metis snd_conv)
qed

end
