(* ===== verification/Snapshots.thy ===== *)
theory Snapshots
  imports Handlers
begin

text \<open>
  raft.go: \<^verbatim>\<open>snapshotLoop\<close> and \<^verbatim>\<open>takeSnapshot\<close>, cut where the mutex is released while the state
  machine writes its snapshot.
\<close>

text \<open>\<open>None\<close>: no snapshot is taken now.\<close>

definition takeSnapshot_begin :: "('f, 'r) deps \<Rightarrow> time \<Rightarrow> ('f, 'r, (LogEntry \<times> snapshotFile) option) raftA" where
  "takeSnapshot_begin D now =
     bindA getA (\<lambda>r.
     if lastApplied r \<le> lastIncludedIndex r then returnA None
     else
       case committedConfiguration r of
         None \<Rightarrow> returnA None
       | Some cc \<Rightarrow>
           if cIndex cc > lastApplied r then returnA None
           else
             bindA (getEntryOrFatal (lastApplied r)) (\<lambda>entry.
             bindA (readA (\<lambda>_. r_encodeConfiguration D cc)) (\<lambda>dat.
             bindA (fatalA ''failed to create snapshot file''
               (onSnapshots (NewSnapshotFile now (Index entry) (Term entry) dat))) (\<lambda>s.
             returnA (Some (entry, s))))))"

text \<open>Without the mutex: the state machine writes its state and the file is closed.\<close>

definition takeSnapshot_write :: "('f, 'r) deps \<Rightarrow> snapshotFile \<Rightarrow> ('f, 'r, unit) raftA" where
  "takeSnapshot_write D s =
     bindA getA (\<lambda>r.
     case fsmSnapshot D (fsm r) of
       None \<Rightarrow> raiseA (Fatal ''failed to take snapshot of state machine'')
     | Some bs \<Rightarrow>
         bindA (fatalA ''failed to take snapshot of state machine'' (onSnapshots (SF_Write bs s))) (\<lambda>s.
         bindA (fatalA ''failed to close snapshot file'' (onSnapshots (SF_Close s))) (\<lambda>_.
         returnA ())))"

definition takeSnapshot_end :: "('f, 'r) deps \<Rightarrow> LogEntry \<Rightarrow> ('f, 'r, unit) raftA" where
  "takeSnapshot_end D entry =
     bindA getA (\<lambda>r.
     if Index entry \<le> lastIncludedIndex r then returnA ()
     else
       bindA (modifyA (\<lambda>r. r\<lparr>lastIncludedIndex := Index entry, lastIncludedTerm := Term entry\<rparr>)) (\<lambda>_.
       bindA (fatalA ''failed to compact log'' (onLog (Compact (marshalEntry D) (Index entry)))) (\<lambda>_.
       resetSnapshotFiles)))"

text \<open>A whole snapshot, when no other goroutine runs while the mutex is released.\<close>

definition takeSnapshot :: "('f, 'r) deps \<Rightarrow> time \<Rightarrow> ('f, 'r, unit) raftA" where
  "takeSnapshot D now =
     bindA (takeSnapshot_begin D now) (\<lambda>res.
     case res of
       None \<Rightarrow> returnA ()
     | Some (entry, s) \<Rightarrow> bindA (takeSnapshot_write D s) (\<lambda>_. takeSnapshot_end D entry))"

text \<open>One pass of \<^verbatim>\<open>snapshotLoop\<close> after it is woken.\<close>

definition snapshotLoop :: "('f, 'r) deps \<Rightarrow> time \<Rightarrow> ('f, 'r, unit) raftA" where
  "snapshotLoop D now =
     bindA getA (\<lambda>r. whenA (fsmNeedSnapshot D (fsm r) (Size (log r))) (takeSnapshot D now))"

end
