(* ===== verification/Lifecycle.thy ===== *)
theory Lifecycle
  imports Handlers
begin

text \<open>
  raft.go: \<^verbatim>\<open>restore\<close>, \<^verbatim>\<open>Bootstrap\<close>, \<^verbatim>\<open>start\<close> and \<^verbatim>\<open>Stop\<close>. Returned errors are \<open>Error\<close>.
\<close>

definition onState :: "'a stateA \<Rightarrow> ('f, 'r, 'a) raftA" where
  "onState m = zoomA stateStorage (\<lambda>s r. r\<lparr>stateStorage := s\<rparr>) m"

definition decodeConfA :: "('f, 'r) deps \<Rightarrow> bytes \<Rightarrow> ('f, 'r, Configuration) raftA" where
  "decodeConfA D bs = readA (\<lambda>_. case DecodeConfiguration (unmarshalConf D) bs of Inl e \<Rightarrow> Inl (Error e) | Inr c \<Rightarrow> Inr c)"

text \<open>Restoring the state machine and the configuration from a snapshot.\<close>

definition restoreSnapshot :: "('f, 'r) deps \<Rightarrow> snapshotFile \<Rightarrow> ('f, 'r, unit) raftA" where
  "restoreSnapshot D s =
     (let metadata = SF_Metadata s in
      bindA (modifyA (\<lambda>r. r\<lparr>lastIncludedIndex := md_LastIncludedIndex metadata,
        lastIncludedTerm := md_LastIncludedTerm metadata, commitIndex := md_LastIncludedIndex metadata,
        lastApplied := md_LastIncludedIndex metadata\<rparr>)) (\<lambda>_.
      bindA (wrapA ''could not restore state machine with snapshot''
        (bindA (onSnapshots (SF_ReadAll s)) (\<lambda>(bs, s').
         bindA getA (\<lambda>r.
         case fsmRestore D bs (fsm r) of
           None \<Rightarrow> raiseA (Error SysErr)
         | Some f \<Rightarrow> bindA (modifyA (\<lambda>r. r\<lparr>fsm := f\<rparr>)) (\<lambda>_. returnA s'))))) (\<lambda>s'.
      bindA (wrapA ''could not decode snapshot configuration'' (decodeConfA D (md_Configuration metadata))) (\<lambda>c.
      bindA (modifyA (\<lambda>r. r\<lparr>configuration := Some c, committedConfiguration := Some c\<rparr>)) (\<lambda>_.
      bindA (wrapA ''could not close snapshot file'' (onSnapshots (SF_Close s'))) (\<lambda>_.
      returnA ()))))))"

text \<open>The scan for the most recent configuration of the log.\<close>

fun restoreConfigurations :: "('f, 'r) deps \<Rightarrow> u64 list \<Rightarrow> ('f, 'r, unit) raftA" where
  "restoreConfigurations D [] = returnA ()"
| "restoreConfigurations D (index # is) =
     bindA (wrapA ''could not get entry from log'' (readA (\<lambda>r. GetEntry index (log r)))) (\<lambda>entry.
     if EntryType entry \<noteq> ConfigurationEntry then restoreConfigurations D is
     else
       bindA (wrapA ''could not decode log entry configuration'' (decodeConfA D (Data entry))) (\<lambda>c.
       bindA (modifyA (\<lambda>r. case configuration r of
           None \<Rightarrow> r
         | Some old \<Rightarrow> r\<lparr>committedConfiguration := Some (Clone old)\<rparr>)) (\<lambda>_.
       bindA (modifyA (\<lambda>r. r\<lparr>configuration := Some c\<rparr>)) (\<lambda>_.
       restoreConfigurations D is))))"

definition restore :: "('f, 'r) deps \<Rightarrow> ('f, 'r, unit) raftA" where
  "restore D =
     bindA (wrapA ''could not open log'' (onLog Log_Open)) (\<lambda>_.
     bindA (wrapA ''could not replay log'' (onLog (Replay (marshalEntry D) (unmarshalEntry D)))) (\<lambda>_.
     bindA (wrapA ''could not recover state from storage'' (onState (StateOf (unmarshalState D)))) (\<lambda>(trm, vote).
     bindA (modifyA (\<lambda>r. r\<lparr>currentTerm := trm, votedFor := vote\<rparr>)) (\<lambda>_.
     bindA (wrapA ''could not get snapshot file'' (onSnapshots SnapshotFile)) (\<lambda>snapshot.
     bindA (case snapshot of None \<Rightarrow> returnA () | Some s \<Rightarrow> restoreSnapshot D s) (\<lambda>_.
     bindA getA (\<lambda>r.
     bindA lastIndexA (\<lambda>li.
     restoreConfigurations D (index_range (lastIncludedIndex r + 1) li)))))))))"

definition Bootstrap :: "('f, 'r) deps \<Rightarrow> (string, string) fmap \<Rightarrow> ('f, 'r, unit) raftA" where
  "Bootstrap D members =
     bindA getA (\<lambda>r.
     if raft_id r |\<notin>| fmdom members then raiseA (Error (ErrNew ''configuration must contain this node''))
     else case configuration r of
       Some c \<Rightarrow> raiseA (Error (ErrNew (''node already has an existing configuration: Bootstrap should only be called '' @
         ''for a cluster starting for the first time: configuration = '' @ Configuration_String c)))
     | None \<Rightarrow>
       bindA lastIndexA (\<lambda>li.
       if li > 0 then raiseA (Error (ErrNew (''node already has existing state: Bootstrap should only be called '' @
         ''for a cluster starting for the first time'')))
       else
         let c = NewConfiguration 1 members in
         bindA (modifyA (\<lambda>r. r\<lparr>configuration := Some c\<rparr>)) (\<lambda>_.
         bindA (readA (\<lambda>_. case EncodeConfiguration (marshalConf D) c of Inl e \<Rightarrow> Inl (Error e) | Inr bs \<Rightarrow> Inr bs)) (\<lambda>dat.
         onLog (AppendEntry (marshalEntry D) (NewLogEntry 1 1 dat ConfigurationEntry))))))"

text \<open>
  \<^verbatim>\<open>start\<close>: \<open>run\<close> is the outcome of \<^verbatim>\<open>transport.Run()\<close>. The loops it starts are the other definitions of
  the development.
\<close>

definition start :: "('f, 'r) deps \<Rightarrow> time \<Rightarrow> err option \<Rightarrow> bool \<Rightarrow> ('f, 'r, unit) raftA" where
  "start D now run restoring =
     bindA getA (\<lambda>r.
     if state r \<noteq> Shutdown then returnA ()
     else
       bindA (whenA restoring (wrapA ''could not restore state'' (restore D))) (\<lambda>_.
       bindA (modifyA (\<lambda>r. if configuration r = None then r\<lparr>configuration := Some emptyConfiguration\<rparr> else r)) (\<lambda>_.
       bindA (readA confOf) (\<lambda>c.
       bindA (modifyA (\<lambda>r. fold (addFollower newFollower) (sorted_list_of_fset (fmdom (Members c)))
         (r\<lparr>followers := fmempty\<rparr>))) (\<lambda>_.
       bindA (modifyA (\<lambda>r. r\<lparr>lastContact := now, state := Follower\<rparr>)) (\<lambda>_.
       case run of None \<Rightarrow> returnA () | Some e \<Rightarrow> raiseA (Error (Wrapf ''could not run transport'' e))))))))"

definition Start :: "('f, 'r) deps \<Rightarrow> time \<Rightarrow> err option \<Rightarrow> ('f, 'r, unit) raftA" where
  "Start D now run = start D now run False"

definition Restart :: "('f, 'r) deps \<Rightarrow> time \<Rightarrow> err option \<Rightarrow> ('f, 'r, unit) raftA" where
  "Restart D now run = start D now run True"

text \<open>
  \<^verbatim>\<open>Stop\<close>: the node is shut down and the loops are woken; when they have ended (\<^verbatim>\<open>r.wg.Wait()\<close>) the log is
  closed, whose error is only logged, and the snapshot files are reset.
\<close>

definition Stop_begin :: "('f, 'r, bool) raftA" where
  "Stop_begin =
     bindA getA (\<lambda>r.
     if state r = Shutdown then returnA False
     else
       bindA (modifyA (\<lambda>r. r\<lparr>state := Shutdown, woken := woken r @
         [applyCond, commitCond, readOnlyCond, electionCond, snapshotCond]\<rparr>)) (\<lambda>_.
       returnA True))"

definition Stop_end :: "('f, 'r, unit) raftA" where
  "Stop_end = bindA (tryA (onLog Log_Close)) (\<lambda>_. resetSnapshotFiles)"

end
