(* ===== verification/Machine.thy ===== *)
theory Machine
  imports Replication Election Apply Snapshots Client Lifecycle VoteSpec ReplicationSpec
begin

text \<open>
  A node as a state machine: its steps are the operations of the other theories, each run under the
  mutex, in any order and with any arguments. The invariant is about the term and the vote.
\<close>

section \<open>What leaves the term and the vote alone\<close>

definition stateOf :: "('f, 'r) raft \<Rightarrow> u64 \<times> string \<times> persistentStateStorage" where
  "stateOf r = (currentTerm r, votedFor r, stateStorage r)"

lemma stateOf_upd [simp]:
  "stateOf (r\<lparr>log := a1\<rparr>) = stateOf r" "stateOf (r\<lparr>snapshotStorage := a2\<rparr>) = stateOf r" "stateOf (r\<lparr>followerAt := a3\<rparr>) = stateOf r"
  "stateOf (r\<lparr>r_snapshot := a4\<rparr>) = stateOf r" "stateOf (r\<lparr>manager := a5\<rparr>) = stateOf r" "stateOf (r\<lparr>opChans := a6\<rparr>) = stateOf r"
  "stateOf (r\<lparr>confChans := a7\<rparr>) = stateOf r" "stateOf (r\<lparr>state := a8\<rparr>) = stateOf r" "stateOf (r\<lparr>followers := a9\<rparr>) = stateOf r"
  "stateOf (r\<lparr>nextPtr := b1\<rparr>) = stateOf r" "stateOf (r\<lparr>configuration := b2\<rparr>) = stateOf r" "stateOf (r\<lparr>committedConfiguration := b3\<rparr>) = stateOf r"
  "stateOf (r\<lparr>commitIndex := b4\<rparr>) = stateOf r" "stateOf (r\<lparr>lastApplied := b5\<rparr>) = stateOf r" "stateOf (r\<lparr>fsm := b6\<rparr>) = stateOf r"
  "stateOf (r\<lparr>lastIncludedIndex := b7\<rparr>) = stateOf r" "stateOf (r\<lparr>lastIncludedTerm := b8\<rparr>) = stateOf r" "stateOf (r\<lparr>lastContact := b9\<rparr>) = stateOf r"
  "stateOf (r\<lparr>woken := c1\<rparr>) = stateOf r" "stateOf (r\<lparr>spawned := c2\<rparr>) = stateOf r" "stateOf (r\<lparr>cells := c3\<rparr>) = stateOf r"
  "stateOf (r\<lparr>nextCell := c4\<rparr>) = stateOf r" "stateOf (r\<lparr>nextCh := c5\<rparr>) = stateOf r" "stateOf (r\<lparr>nextOp := c6\<rparr>) = stateOf r"
  "stateOf (r\<lparr>leaderID := c7\<rparr>) = stateOf r"
  by (simp_all add: stateOf_def)

named_theorems quiet \<open>operations that do not touch the term and the vote\<close>

lemma quiet_basic [quiet]:
  "keepsA stateOf (onLog m1)" "keepsA stateOf (onSnapshots m2)" "keepsA stateOf (getEntryOrFatal i)" "keepsA stateOf (lastIndexA)"
  "keepsA stateOf lastTermA" "keepsA stateOf nextIndexA" "keepsA stateOf (broadcast c)" "keepsA stateOf (newCell v)"
  unfolding onLog_def onSnapshots_def getEntryOrFatal_def lastIndexA_def lastTermA_def nextIndexA_def broadcast_def newCell_def
  by (intro keeps.from_get keeps.intros keeps.zoom; simp)+

lemma quiet_node [quiet]:
  "keepsA stateOf resetSnapshotFiles" "keepsA stateOf (cancelOperations now)" "keepsA stateOf (nextConfiguration now c)"
  "keepsA stateOf (sendAppendEntriesToPeers now)" "keepsA stateOf (tryApplyReadOnlyOperations now)"
  by ((rule keeps_resetSnapshotFiles keeps_cancelOperations keeps_nextConfiguration keeps_sendToPeers; simp)+,
      unfold tryApplyReadOnlyOperations_def, intro keeps.intros quiet_basic, simp)

lemmas quietI = keeps.from_get keeps.intros

lemma quiet_mergeEntries [quiet]: "keepsA stateOf (mergeEntries now es)"
proof (induction es)
  case (Cons e es)
  then show ?case by (simp, intro quietI quiet)
qed (simp add: relA_def)

lemma quiet_handlers [quiet]:
  "keepsA stateOf (checkPrevious req)" "keepsA stateOf (acceptEntries D now req)" "keepsA stateOf (logUpToDate vreq)"
  "keepsA stateOf (completeSnapshot ireq res)" "keepsA stateOf (installCompact D ireq res)"
  "keepsA stateOf (installRestore D snapshot)" "keepsA stateOf (applyConfiguration D now dat)"
  unfolding checkPrevious_def acceptEntries_def logUpToDate_def completeSnapshot_def openSnapshot_def installCompact_def
    installRestore_def applyConfiguration_def
  by ((intro quietI quiet; simp)+)

lemma quiet_install [quiet]: "keepsA stateOf (receiveChunk now ireq trm)" "keepsA stateOf (installFinish D now ireq)"
  unfolding receiveChunk_def openSnapshot_def installFinish_def Let_def
  by ((intro quietI quiet; simp)+)

lemma quiet_updFollower [simp]: "stateOf (updFollower p f r) = stateOf r" "stateOf (addFollower g i r) = stateOf r"
  by (simp_all add: updFollower_def addFollower_def stateOf_def)

lemma quiet_readEntries [quiet]: "keepsA stateOf (readEntries is)"
proof (induction "is")
  case (Cons i "is")
  then show ?case by (simp, intro quietI quiet)
qed (simp add: relA_def)

lemma quiet_replication [quiet]:
  "keepsA stateOf (sendInstallSnapshot_request i)" "keepsA stateOf (prevTerm k)" "keepsA stateOf (makeEntriesSlice n)"
  "keepsA stateOf (advanceFollower p req)" "keepsA stateOf (countResponse now k')" "keepsA stateOf (heartbeatLoop now)"
  unfolding sendInstallSnapshot_request_def followerSnapshot_def prevTerm_def makeEntriesSlice_def advanceFollower_def
    countResponse_def heartbeatLoop_def Let_def
  by ((intro quietI quiet; simp)+)

lemma quiet_sendAppendEntries [quiet]: "keepsA stateOf (sendAppendEntries_request i)"
  unfolding sendAppendEntries_request_def Let_def by (intro quietI quiet)

lemma quiet_commitScan [quiet]: "keepsA stateOf (commitScan is b)"
proof (induction "is" arbitrary: b)
  case (Cons i "is")
  then show ?case by (simp, intro quietI quiet) simp_all
qed (simp add: relA_def)

lemma quiet_commitLoop [quiet]: "keepsA stateOf (commitLoop now)"
  unfolding commitLoop_def by (intro quietI quiet)

lemma quiet_election [quiet]:
  "keepsA stateOf electionTicker" "keepsA stateOf becomePreCandidate" "keepsA stateOf (becomeLeader D now)"
  "keepsA stateOf (sendRequestVote_request i prevote)"
  unfolding electionTicker_def becomePreCandidate_def becomeLeader_def sendRequestVote_request_def
  by ((intro quietI quiet; simp)+)

lemma quiet_sendRequestVoteToPeers [quiet]: "keepsA stateOf (sendRequestVoteToPeers D now)"
  unfolding sendRequestVoteToPeers_def by (intro quietI quiet) simp

lemma quiet_apply [quiet]:
  "keepsA stateOf (advanceApplied D)" "keepsA stateOf (applyOperation D oper ch)" "keepsA stateOf applyLoopEnd"
  "keepsA stateOf takeReads" "keepsA stateOf (checkLease now oper ch')"
  unfolding advanceApplied_def applyOperation_def applyLoopEnd_def takeReads_def checkLease_def
  by ((intro quietI quiet; simp split: prod.split)+)

lemma quiet_applyNext [quiet]: "keepsA stateOf (applyNextEntry D now)" "keepsA stateOf (applyFinish D la)"
  unfolding applyNextEntry_def applyFinish_def by ((intro quietI quiet; simp)+)

lemma quiet_serveReads [quiet]: "keepsA stateOf (serveReads D now ops)"
proof (induction ops)
  case (Cons x ops)
  obtain oper ch where "x = (oper, ch)" by (cases x)
  with Cons show ?case by (simp, intro quietI quiet)
qed (simp add: relA_def)

lemma quiet_snapshots [quiet]:
  "keepsA stateOf (readOnlyLoop D now)" "keepsA stateOf (takeSnapshot_begin D now)" "keepsA stateOf (takeSnapshot_write D s)"
  "keepsA stateOf (takeSnapshot_end D e)"
  unfolding readOnlyLoop_def takeSnapshot_begin_def takeSnapshot_write_def takeSnapshot_end_def
  by ((intro quietI quiet; simp)+)

lemma quiet_client [quiet]:
  "keepsA stateOf (newConfigurationFuture t)" "keepsA stateOf (newOperationFuture t)" "keepsA stateOf (respondConf fut c e)"
  "keepsA stateOf (respondOp fut' e)" "keepsA stateOf membershipGuard" "keepsA stateOf (appendConfiguration D c)"
  unfolding newConfigurationFuture_def newOperationFuture_def respondConf_def respondOp_def membershipGuard_def appendConfiguration_def Let_def
  by ((intro quietI quiet; simp)+)

lemma quiet_membership [quiet]: "keepsA stateOf (AddServer D now i a v t)" "keepsA stateOf (RemoveServer D now i t)"
  unfolding AddServer_def RemoveServer_def by ((intro quietI quiet; simp)+)

lemma quiet_submit [quiet]: "keepsA stateOf (SubmitOperation D now bs ty t)"
  unfolding SubmitOperation_def submitReplicatedOperation_def submitReadOnlyOperation_def Let_def
  by (cases ty) (simp_all, (intro quietI quiet; simp)+)

lemma quiet_lifecycle [quiet]: "keepsA stateOf (Bootstrap D members)" "keepsA stateOf Stop_begin" "keepsA stateOf Stop_end"
  "keepsA stateOf (Start D now run)"
  unfolding Bootstrap_def Stop_begin_def Stop_end_def Start_def start_def Let_def
  by ((intro quietI quiet; simp add: keeps_addFollowers[of stateOf])+)

section \<open>The term and the vote\<close>

text \<open>
  Either nothing changed, or the new term and vote were stored on disk and the term did not decrease.
\<close>

definition term_rel :: "('f, 'r) deps \<Rightarrow> ('f, 'r) raft \<Rightarrow> ('f, 'r) raft \<Rightarrow> bool" where
  "term_rel D s s' \<longleftrightarrow> stateOf s' = stateOf s \<or> (synced D s' \<and> currentTerm s \<le> currentTerm s')"

lemma synced_stateOf: "stateOf s' = stateOf s \<Longrightarrow> synced D s' = synced D s"
  by (simp add: synced_def stateOf_def)

interpretation terms: action_rel "term_rel D" for D
proof
  fix s t u assume "term_rel D s t" "term_rel D t u"
  then show "term_rel D s u"
    using synced_stateOf[of u t D] by (auto simp: term_rel_def stateOf_def)
qed (simp add: term_rel_def)

lemma quiet_at: "keepsA stateOf m \<Longrightarrow> liveAt (term_rel D) s m"
  by (simp add: liveAt_def relA_def term_rel_def)

abbreviation codecOK :: "('f, 'r) deps \<Rightarrow> bool" where
  "codecOK D \<equiv> proto_codec (marshalState D) (unmarshalState D)"

text \<open>The functions that only fail by ending the process.\<close>

definition noErr :: "('s, 'a) action \<Rightarrow> bool" where
  "noErr m \<longleftrightarrow> (\<forall>s e s'. m s \<noteq> (Inl (Error e), s'))"

lemma noErr_intros:
  "noErr m \<Longrightarrow> (\<And>x. noErr (f x)) \<Longrightarrow> noErr (bindA m f)" "noErr (fatalA msg m')" "noErr (modifyA g)" "noErr getA" "noErr (returnA y)"
  "noErr m1 \<Longrightarrow> (\<And>x. noErr (h x)) \<Longrightarrow> noErr (case v of None \<Rightarrow> m1 | Some x \<Rightarrow> h x)"
  by (auto simp: noErr_def bindA_eq_Inl fatalA_not_Error split: option.split)

lemma noErr_closeFollowerSnapshots: "noErr (closeFollowerSnapshots ps)"
proof (induction ps)
  case (Cons p ps)
  then show ?case unfolding closeFollowerSnapshots.simps by (intro noErr_intros)
qed (simp add: noErr_def)

lemma noErr_becomeFollower: "noErr (becomeFollower D now leader t)"
  unfolding becomeFollower_def persistTermAndVote_def resetSnapshotFiles_def cancelOperations_def
  by (intro noErr_intros noErr_closeFollowerSnapshots)

lemma noErr_runs: "noErr m \<Longrightarrow> m s = (res, s') \<Longrightarrow> \<not> died res \<Longrightarrow> \<exists>x. res = Inr x"
  by (cases res) (auto simp: noErr_def elim: ends.elims)

lemma becomeFollower_at:
  assumes "proto_codec (marshalState D) (unmarshalState D)" "currentTerm s \<le> t"
  shows "liveAt (term_rel D) s (becomeFollower D now leader t)"
proof (cases "becomeFollower D now leader t s")
  case (Pair res s')
  show ?thesis
  proof (cases "died res")
    case False
    with noErr_runs[OF noErr_becomeFollower Pair] obtain u where u: "becomeFollower D now leader t s = (Inr u, s')" using Pair by auto
    then have "currentTerm s' = t" using becomeFollower_ok[OF u] by auto
    then show ?thesis using becomeFollower_synced[OF assms(1) u] assms(2) Pair by (simp add: liveAt_def term_rel_def)
  qed (simp add: liveAt_def Pair)
qed

lemma persist_stores:
  assumes "codecOK D" "\<not> died (fst (persistTermAndVote D s))"
  shows "synced D (snd (persistTermAndVote D s)) \<and> currentTerm (snd (persistTermAndVote D s)) = currentTerm s"
proof (cases "persistTermAndVote D s")
  case (Pair res s')
  have ne: "noErr (persistTermAndVote D)" unfolding persistTermAndVote_def by (rule noErr_intros)
  have "\<exists>u. persistTermAndVote D s = (Inr u, s')" using noErr_runs[OF ne Pair] assms(2) Pair by auto
  moreover have "synced D s' \<and> currentTerm s' = currentTerm s" if "persistTermAndVote D s = (Inr u, s')" for u
    using that SetState_synced[OF assms(1), of s'] by (auto simp: persist_ok)
  ultimately show ?thesis using Pair by auto
qed

lemma persist_at:
  assumes "codecOK D" "currentTerm s \<le> currentTerm (g s)"
  shows "liveAt (term_rel D) s (bindA (modifyA g) (\<lambda>_. persistTermAndVote D))"
  using persist_stores[OF assms(1), of "g s"] assms(2) by (auto simp: liveAt_def term_rel_def)

lemma recognizeLeader_at:
  assumes "proto_codec (marshalState D) (unmarshalState D)"
  shows "liveAt (term_rel D) s (recognizeLeader D now leader t)"
  unfolding recognizeLeader_def
  by (intro terms.at_get terms.at_bind terms.at_when becomeFollower_at assms) auto

text \<open>The operations that may change the term, each in the state it starts from.\<close>

lemmas atI = terms.at_get terms.at_if terms.at_bind terms.at_when

lemma AppendEntries_at: "codecOK D \<Longrightarrow> liveAt (term_rel D) s (AppendEntries D now req)"
  unfolding AppendEntries_def
  by (intro terms.at_get terms.at_if terms.at_bind recognizeLeader_at quiet_at quietI quiet) auto

lemma InstallSnapshot_at: "codecOK D \<Longrightarrow> liveAt (term_rel D) s (InstallSnapshot D now req)"
  unfolding InstallSnapshot_def
  by (intro terms.at_get terms.at_if terms.at_bind recognizeLeader_at quiet_at quietI quiet) auto

lemma RequestVote_at: "codecOK D \<Longrightarrow> liveAt (term_rel D) s (RequestVote D now req)"
  unfolding RequestVote_def
  by (intro atI becomeFollower_at persist_at) (auto intro!: quiet_at quietI quiet)

lemma sendAppendEntries_response_at: "codecOK D \<Longrightarrow> liveAt (term_rel D) s (sendAppendEntries_response D now i p k req reply)"
  unfolding sendAppendEntries_response_def
  by (cases reply; simp only: sum.case)
     (intro terms.at_read atI becomeFollower_at; (assumption | (rule quiet_at, (intro quietI quiet; simp)) | auto))+

lemma sendInstallSnapshot_response_at: "codecOK D \<Longrightarrow> liveAt (term_rel D) s (sendInstallSnapshot_response D now i p req reply)"
proof -
  assume c: "codecOK D"
  show ?thesis
  proof (cases "f_snapshot (followerAt s p)"; cases reply)
    fix f res assume [simp]: "f_snapshot (followerAt s p) = Some f" "reply = Inr res"
    show ?thesis unfolding sendInstallSnapshot_response_def
      by (rule terms.at_get) (simp, intro impI conjI becomeFollower_at[OF c] quiet_at quietI quiet, auto)
  qed (simp_all add: sendInstallSnapshot_response_def liveAt_def term_rel_def)
qed

lemma sendRequestVote_response_at: "codecOK D \<Longrightarrow> liveAt (term_rel D) s (sendRequestVote_response D now i votes prevote req reply)"
proof -
  assume c: "codecOK D"
  show ?thesis
  proof (cases reply)
    case (Inr res)
    show ?thesis unfolding sendRequestVote_response_def Inr sum.case
      by (intro terms.at_get terms.at_if terms.at_bind becomeFollower_at[OF c])
         ((auto simp: whenA_def split: if_splits intro!: quiet_at quietI quiet)[1])+
  qed (simp add: sendRequestVote_response_def liveAt_def term_rel_def)
qed

lemma becomeCandidate_at:
  assumes "codecOK D" "currentTerm s \<le> currentTerm s + 1"
  shows "liveAt (term_rel D) s (becomeCandidate D)"
  unfolding becomeCandidate_def by (rule persist_at) (simp_all add: assms)

text \<open>Without the bound on the term the stored state still follows the one in memory.\<close>

definition sync_rel :: "('f, 'r) deps \<Rightarrow> ('f, 'r) raft \<Rightarrow> ('f, 'r) raft \<Rightarrow> bool" where
  "sync_rel D s s' \<longleftrightarrow> stateOf s' = stateOf s \<or> synced D s'"

interpretation syncs: action_rel "sync_rel D" for D
proof
  fix s t u assume "sync_rel D s t" "sync_rel D t u"
  then show "sync_rel D s u" using synced_stateOf[of u t D] by (auto simp: sync_rel_def)
qed (simp add: sync_rel_def)

lemma quiet_sync: "keepsA stateOf m \<Longrightarrow> liveAt (sync_rel D) s m"
  by (simp add: liveAt_def relA_def sync_rel_def)

lemma becomeCandidate_sync: "codecOK D \<Longrightarrow> liveAt (sync_rel D) s (becomeCandidate D)"
  using persist_stores[of D] unfolding becomeCandidate_def by (auto simp: liveAt_def sync_rel_def)

lemma election_sync: "codecOK D \<Longrightarrow> liveAt (sync_rel D) s (election D now)"
  unfolding election_def
  by (intro syncs.at_get syncs.at_if syncs.at_read syncs.at_bind syncs.at_when becomeCandidate_sync)
     (auto intro!: quiet_sync quietI quiet)

lemma election_at:
  assumes "codecOK D" "currentTerm s \<le> currentTerm s + 1"
  shows "liveAt (term_rel D) s (election D now)"
  unfolding election_def
  by (intro terms.at_get terms.at_if terms.at_read terms.at_bind terms.at_when becomeCandidate_at assms(1))
     (use assms(2) in \<open>auto simp: becomePreCandidate_def whenA_def split: if_splits intro!: quiet_at quietI quiet\<close>)

text \<open>A restart reads the state that is on disk.\<close>

lemma quiet_restoreConfigurations [quiet]: "keepsA stateOf (restoreConfigurations D is)"
proof (induction "is")
  case (Cons i "is")
  then show ?case unfolding restoreConfigurations.simps decodeConfA_def
    by (intro quietI quiet) (simp_all split: option.split)
qed (simp add: relA_def)

lemma quiet_restoreSnapshot [quiet]: "keepsA stateOf (restoreSnapshot D s)"
  unfolding restoreSnapshot_def Let_def decodeConfA_def case_prod_unfold
  by (intro quietI quiet) simp_all

lemma restore_synced:
  assumes "synced D r" "restore D r = (Inr u, r')"
  shows "synced D r'" "currentTerm r' = currentTerm r"
proof -
  have q: "keepsA stateOf (case sf of None \<Rightarrow> returnA () | Some s \<Rightarrow> restoreSnapshot D s)" for sf by (intro quietI quiet)
  from assms(2) obtain l1 trm vote s2 sf r2 r3 li r4 where
    s2: "StateOf (unmarshalState D) (stateStorage r) = (Inr (trm, vote), s2)"
    and r2: "onSnapshots SnapshotFile (r\<lparr>log := l1, stateStorage := s2, currentTerm := trm, votedFor := vote\<rparr>) = (Inr sf, r2)"
    and r3: "(case sf of None \<Rightarrow> returnA () | Some s \<Rightarrow> restoreSnapshot D s) r2 = (Inr (), r3)"
    and r4: "lastIndexA r3 = (Inr li, r4)" "restoreConfigurations D (index_range (lastIncludedIndex r3 + 1) li) r4 = (Inr u, r')"
    unfolding restore_def onLog_def onState_def by (auto simp: bindA_eq_Inr zoomA_eq_Inr)
  have st: "stateOf r' = (trm, vote, s2)"
    using relAD[OF quiet_basic(2) r2] relAD[OF q r3] relAD[OF quiet_basic(4) r4(1)] relAD[OF quiet_restoreConfigurations r4(2)]
    by (simp add: stateOf_def)
  have c: "codecOK D" "wf_state (marshalState D) (unmarshalState D) (stateStorage r)"
    and d: "durable (unmarshalState D) (stateStorage r) = (currentTerm r, votedFor r)"
    using assms(1) by (auto simp: synced_def)
  show "synced D r'" "currentTerm r' = currentTerm r"
    using StateOf_ok[OF c s2] st c d by (auto simp: synced_def stateOf_def)
qed

lemma Restart_synced:
  assumes "synced D r" "Restart D now run r = (Inr u, r')"
  shows "synced D r' \<and> currentTerm r' = currentTerm r"
proof (cases "state r = Shutdown")
  case True
  then obtain r1 where r1: "restore D r = (Inr (), r1)" and rest: "stateOf r' = stateOf r1"
    using assms(2)
    by (auto simp: Restart_def start_def bindA_eq_Inr keeps_addFollowers[of stateOf] split: option.splits if_splits)
  then show ?thesis using restore_synced[OF assms(1) r1] synced_stateOf[OF rest] by (auto simp: stateOf_def)
next
  case False
  then show ?thesis using assms by (simp add: Restart_def start_def)
qed

section \<open>Steps\<close>

text \<open>A run of an operation that does not end the process; errors that are returned are allowed.\<close>

definition runs :: "('s, 'a) action \<Rightarrow> 's \<Rightarrow> 's \<Rightarrow> bool" where
  "runs m s s' \<longleftrightarrow> (\<exists>res. m s = (res, s') \<and> \<not> died res)"

inductive node_step :: "('f, 'r) deps \<Rightarrow> ('f, 'r) raft \<Rightarrow> ('f, 'r) raft \<Rightarrow> bool" for D where
  on_AppendEntries: "runs (AppendEntries D now areq) r r' \<Longrightarrow> node_step D r r'"
| on_RequestVote: "runs (RequestVote D now vreq) r r' \<Longrightarrow> node_step D r r'"
| on_InstallSnapshot: "runs (InstallSnapshot D now ireq) r r' \<Longrightarrow> node_step D r r'"
| on_installCompact: "runs (installCompact D ireq ires) r r' \<Longrightarrow> node_step D r r'"
| on_installRestore: "runs (installRestore D snapshot) r r' \<Longrightarrow> node_step D r r'"
| on_installFinish: "runs (installFinish D now ireq) r r' \<Longrightarrow> node_step D r r'"
| on_sendAppendEntries: "runs (sendAppendEntries_request i) r r' \<Longrightarrow> node_step D r r'"
| on_appendResponse: "runs (sendAppendEntries_response D now i p k areq areply) r r' \<Longrightarrow> node_step D r r'"
| on_sendInstallSnapshot: "runs (sendInstallSnapshot_request i) r r' \<Longrightarrow> node_step D r r'"
| on_installResponse: "runs (sendInstallSnapshot_response D now i p ireq ireply) r r' \<Longrightarrow> node_step D r r'"
| on_heartbeat: "runs (heartbeatLoop now) r r' \<Longrightarrow> node_step D r r'"
| on_commit: "runs (commitLoop now) r r' \<Longrightarrow> node_step D r r'"
| on_ticker: "runs electionTicker r r' \<Longrightarrow> node_step D r r'"
| on_election: "runs (election D now) r r' \<Longrightarrow> node_step D r r'"
| on_sendRequestVote: "runs (sendRequestVote_request i prevote) r r' \<Longrightarrow> node_step D r r'"
| on_voteResponse: "runs (sendRequestVote_response D now i k prevote vreq vreply) r r' \<Longrightarrow> node_step D r r'"
| on_applyNext: "runs (applyNextEntry D now) r r' \<Longrightarrow> node_step D r r'"
| on_applyOperation: "runs (applyOperation D oper ch) r r' \<Longrightarrow> node_step D r r'"
| on_applyFinish: "runs (applyFinish D la) r r' \<Longrightarrow> node_step D r r'"
| on_applyEnd: "runs applyLoopEnd r r' \<Longrightarrow> node_step D r r'"
| on_readOnly: "runs (readOnlyLoop D now) r r' \<Longrightarrow> node_step D r r'"
| on_snapshotBegin: "runs (takeSnapshot_begin D now) r r' \<Longrightarrow> node_step D r r'"
| on_snapshotWrite: "runs (takeSnapshot_write D s) r r' \<Longrightarrow> node_step D r r'"
| on_snapshotEnd: "runs (takeSnapshot_end D e) r r' \<Longrightarrow> node_step D r r'"
| on_AddServer: "runs (AddServer D now i a v t) r r' \<Longrightarrow> node_step D r r'"
| on_RemoveServer: "runs (RemoveServer D now i t) r r' \<Longrightarrow> node_step D r r'"
| on_SubmitOperation: "runs (SubmitOperation D now bs ty t) r r' \<Longrightarrow> node_step D r r'"
| on_Bootstrap: "runs (Bootstrap D members) r r' \<Longrightarrow> node_step D r r'"
| on_Start: "runs (Start D now run) r r' \<Longrightarrow> node_step D r r'"
| on_Restart: "Restart D now run r = (Inr (), r') \<Longrightarrow> node_step D r r'"
| on_Stop: "runs Stop_begin r r' \<Longrightarrow> node_step D r r'"
| on_stopped: "runs Stop_end r r' \<Longrightarrow> node_step D r r'"

inductive node_reach :: "('f, 'r) deps \<Rightarrow> ('f, 'r) raft \<Rightarrow> ('f, 'r) raft \<Rightarrow> bool" for D where
  reach_refl: "node_reach D r r"
| reach_next: "node_reach D r0 r \<Longrightarrow> node_step D r r' \<Longrightarrow> node_reach D r0 r'"

lemma runs_at: "runs m r r' \<Longrightarrow> liveAt R r m \<Longrightarrow> R r r'"
  by (auto simp: runs_def liveAt_def)

lemma runs_quiet: "runs m r r' \<Longrightarrow> keepsA stateOf m \<Longrightarrow> term_rel D r r'"
  by (auto simp: runs_def term_rel_def dest: relAD)

lemma runs_sync: "runs m r r' \<Longrightarrow> keepsA stateOf m \<Longrightarrow> sync_rel D r r'"
  by (auto simp: runs_def sync_rel_def dest: relAD)

lemma node_step_terms:
  assumes "node_step D r r'" "synced D r"
  shows "sync_rel D r r' \<and> (currentTerm r \<le> currentTerm r + 1 \<longrightarrow> term_rel D r r')"
proof -
  have c: "codecOK D" using assms(2) by (simp add: synced_def)
  have t: ?thesis if "term_rel D r r'" using that by (auto simp: term_rel_def sync_rel_def)
  note at = AppendEntries_at RequestVote_at InstallSnapshot_at sendAppendEntries_response_at
    sendInstallSnapshot_response_at sendRequestVote_response_at
  from assms(1) show ?thesis
  proof cases
    case (on_election now)
    then show ?thesis using runs_at[OF _ election_at[OF c]] runs_at[OF _ election_sync[OF c]] by blast
  next
    case (on_Restart now run)
    then show ?thesis using Restart_synced[OF assms(2)] by (intro t) (simp add: term_rel_def)
  qed (rule t, (erule runs_at, rule at[OF c] | erule runs_quiet, rule quiet))+
qed

end
