(* ===== verification/MachineProps.thy ===== *)
theory MachineProps
  imports Machine Samples
begin

text \<open>
  Properties of a node over its runs: what is on disk, and how a node becomes the leader.
\<close>

section \<open>Durability\<close>

text \<open>C2. Term and vote are durable: in every run of a node, whatever requests, responses, client calls, timer
events and restarts occur and in whatever order, the term and the vote in memory are those on disk after every
step, and no step decreases the term, unless it is an election that wraps the 64-bit counter.\<close>

theorem term_vote_durable:
  assumes "node_reach D r0 r" "synced D r0" "node_step D r r'"
  shows "durable (unmarshalState D) (stateStorage r') = (currentTerm r', votedFor r') \<and>
    (currentTerm r \<le> currentTerm r' \<or> unat (currentTerm r) = 2 ^ 64 - 1)"
proof -
  have s: "synced D r" using assms(1,2)
  proof (induction rule: node_reach.induct)
    case (reach_next r0 r r')
    then have "sync_rel D r r'" using node_step_terms by blast
    with reach_next show ?case using synced_stateOf[of r' r D] by (auto simp: sync_rel_def)
  qed
  note st = node_step_terms[OF assms(3) s]
  have "currentTerm r \<le> currentTerm r + 1" if "unat (currentTerm r) \<noteq> 2 ^ 64 - 1"
    using that unat_Suc_word[of "currentTerm r"] unat_u64_less[of "currentTerm r"] by (auto simp: word_le_nat_alt)
  with st have "currentTerm r \<le> currentTerm r' \<or> unat (currentTerm r) = 2 ^ 64 - 1"
    by (auto simp: term_rel_def stateOf_def)
  moreover have "synced D r'" using st s synced_stateOf[of r' r D] by (auto simp: sync_rel_def)
  ultimately show ?thesis by (simp add: synced_def)
qed


lemma sample_synced: "synced sample_deps sample_follower"
  unfolding synced_def wf_state_def file_ok_state_def
proof (intro conjI disjI2 exI[of _ 2] exI[of _ "[]"])
  show "proto_codec (marshalState sample_deps) (unmarshalState sample_deps)" by (simp add: sample_deps_def state_codec)
  show "st_disk (stateStorage sample_follower) = state_frame (marshalState sample_deps) 2 []"
    "state_frame (marshalState sample_deps) 2 [] \<noteq> None"
    by (simp_all add: sample_follower_def sample_node_def sample_storage_def sample_deps_def state_frame_def state_marshal_def)
  have d: "durable (unmarshalState sample_deps) (stateStorage sample_follower) = (2, [])" by code_simp
  then show "durable (unmarshalState sample_deps) (stateStorage sample_follower) = (currentTerm sample_follower, votedFor sample_follower)"
    "\<forall>s. st_state (stateStorage sample_follower) = Some s \<longrightarrow> (ps_term s, ps_votedFor s) = durable (unmarshalState sample_deps) (stateStorage sample_follower)"
    by (auto simp: sample_follower_def sample_node_def sample_storage_def)
qed

definition sample_vote :: RequestVoteRequest where
  "sample_vote = \<lparr>rv_CandidateID = ''a'', rv_Term = 3, rv_LastLogIndex = 9, rv_LastLogTerm = 2, rv_Prevote = False\<rparr>"

theorem term_vote_durable_witness:
  "durable state_unmarshal (stateStorage (snd (RequestVote sample_deps 500 sample_vote sample_follower))) = (3, ''a'')"
proof -
  let ?r = "snd (RequestVote sample_deps 500 sample_vote sample_follower)"
  have v: "\<not> died (fst (RequestVote sample_deps 500 sample_vote sample_follower))" "currentTerm ?r = 3" "votedFor ?r = ''a''" by code_simp+
  have "node_step sample_deps sample_follower ?r"
    by (rule on_RequestVote[of sample_deps 500 sample_vote]) (use v(1) in \<open>auto simp: runs_def intro: surjective_pairing\<close>)
  from term_vote_durable[OF reach_refl sample_synced this] v show ?thesis by (simp add: sample_deps_def)
qed

section \<open>Becoming the leader\<close>
















end
