(* ===== verification/StorageProps.thy ===== *)
theory StorageProps
  imports SnapshotStore
begin

text \<open>
  The snapshot storage: when a snapshot becomes visible to readers, and the storage over its whole life: files are created, written, closed, discarded and read in any order,
  any system call may fail, the process may crash and restart at any time.
\<close>

section \<open>The order of the directories\<close>

lemma sscanf_path: "take 9 d \<noteq> ''snapshot-'' \<Longrightarrow> sscanfTimestamp (joinPath d n) = 0"
proof -
  assume d: "take 9 d \<noteq> ''snapshot-''"
  have "take 9 (joinPath d n) \<noteq> ''snapshot-''"
  proof
    assume t: "take 9 (joinPath d n) = ''snapshot-''"
    show False
    proof (cases "length d < 9")
      case True
      then have "''snapshot-'' ! length d = take 9 (joinPath d n) ! length d" using t by simp
      also have "\<dots> = CHR ''/''" using True by (simp add: joinPath_def nth_append)
      finally show False using True by (auto simp: less_Suc_eq numeral_eq_Suc)
    qed (use t d in \<open>simp add: joinPath_def\<close>)
  qed
  then show ?thesis by (simp add: sscanfTimestamp_def)
qed

lemma matches_snapshot_name: "matchesPattern (buildDirectoryBase now)"
proof -
  have "list_ex (\<lambda>k. let s = drop k (''snapshot-'' @ decimal (nat now)) in
       take 9 s = ''snapshot-'' \<and> drop 9 s \<noteq> [] \<and> list_all isDigit (drop 9 s)) [0..<length (''snapshot-'' @ decimal (nat now))]"
    using decimal_digits[of "nat now"] by (auto simp: list_ex_iff Let_def intro!: bexI[of _ 0])
  then show ?thesis by (simp add: matchesPattern_def buildDirectoryBase_def)
qed

lemma matches_dash: "matchesPattern name \<Longrightarrow> \<exists>k. k + 9 \<le> length name \<and> name ! (k + 8) = CHR ''-''"
proof -
  assume "matchesPattern name"
  then obtain k where k: "take 9 (drop k name) = ''snapshot-''" by (auto simp: matchesPattern_def list_ex_iff Let_def)
  have l: "k + 9 \<le> length name" using arg_cong[OF k, of length] by simp
  have "take 9 (drop k name) ! 8 = ''snapshot-'' ! 8" by (rule arg_cong[OF k])
  with l show ?thesis by (intro exI[of _ k]) (simp add: add.commute)
qed

lemma sorted_fset: "sorted (sorted_list_of_fset A)" "distinct (sorted_list_of_fset A)"
  by (simp_all add: sorted_list_of_fset.rep_eq)

lemma tmp_name_hidden: "\<not> matchesPattern (''tmp-snapshot'' @ decimal n)"
proof
  let ?name = "''tmp-snapshot'' @ decimal n"
  assume "matchesPattern ?name"
  then obtain k where len: "k + 9 \<le> length ?name" and m: "?name ! (k + 8) = CHR ''-''" using matches_dash by blast
  show False
  proof (cases "k + 8 < 12")
    case True
    then have "k \<in> {0, 1, 2, 3}" by auto
    then show False using m by auto
  next
    case False
    then have "decimal n ! (k + 8 - 12) = CHR ''-''" using m by (simp add: nth_append numeral_eq_Suc)
    moreover have "isDigit (decimal n ! (k + 8 - 12))"
      using decimal_digits[of n] False len by (auto simp: list_all_length)
    ultimately show False by (simp add: isDigit_def)
  qed
qed

definition visible :: "persistentSnapshotStorage \<Rightarrow> string list" where
  "visible s = filter matchesPattern (sorted_list_of_fset (fmdom (ss_dirs s)))"

lemma directories_ok:
  assumes "take 9 (snapshotDir s) \<noteq> ''snapshot-''" "directories s = (Inr ds, s')"
  shows "ds = map (joinPath (snapshotDir s)) (visible s)" "ss_dirs s' = ss_dirs s" "snapshotDir s' = snapshotDir s"
proof -
  have "sort_key sscanfTimestamp (map (joinPath (snapshotDir s)) ns) = map (joinPath (snapshotDir s)) ns" for ns
    using sscanf_path[OF assms(1)] by (intro sort_key_id_if_sorted) (simp add: o_def map_replicate_const)
  then show "ds = map (joinPath (snapshotDir s)) (visible s)" "ss_dirs s' = ss_dirs s" "snapshotDir s' = snapshotDir s"
    using assms(2) by (auto simp: directories_def bindA_eq_Inr ss_syscall_def visible_def)
qed

section \<open>Publishing a snapshot\<close>

lemma last_greatest: "sorted xs \<Longrightarrow> m \<in> set xs \<Longrightarrow> (\<And>x. x \<in> set xs \<Longrightarrow> x \<le> m) \<Longrightarrow> last xs = (m :: string)"
  using last_sorted_max[of xs m] by (metis antisym empty_iff last_in_set list.set(1))

lemma visible_props: "sorted (visible s)" "set (visible s) = {n. n |\<in>| fmdom (ss_dirs s) \<and> matchesPattern n}"
  by (auto simp: visible_def sorted_fset sorted_wrt_filter)

text \<open>A directory with both files complete.\<close>

definition snapDirOf :: "bytes \<Rightarrow> SnapshotMetadata \<Rightarrow> snapDir" where
  "snapDirOf bs md = \<lparr>sd_data = Some bs, sd_meta = Some (textBytes (marshalMetadata md))\<rparr>"

lemma openFile_ok: "openFile g s = (Inr bs, s') \<Longrightarrow> g s' = Some bs \<and> ss_dirs s' = ss_dirs s \<and> snapshotDir s' = snapshotDir s"
  by (auto simp: openFile_def bindA_eq_Inr ss_syscall_def split: option.splits)

lemma decodeMetadata_ok: "decodeMetadata bs s = (Inr md, s') \<Longrightarrow> unmarshalMetadata (bytesText bs) = Some md \<and> ss_dirs s' = ss_dirs s"
  by (auto simp: decodeMetadata_def bindA_eq_Inr ss_syscall_def split: option.splits)

lemma SnapshotFile_ok:
  assumes "take 9 (snapshotDir s) \<noteq> ''snapshot-''" "SnapshotFile s = (Inr sf, s')"
  shows "ss_dirs s' = ss_dirs s \<and>
    (if visible s = [] then sf = None else \<exists>txt md. metaOfDir s (last (visible s)) = Some txt \<and> unmarshalMetadata (bytesText txt) = Some md \<and>
      sf = Some \<lparr>sf_dir = [], sf_tmpDir = [], sf_file = Some (last (visible s), 0), sf_metadata = md\<rparr>)"
proof -
  from assms(2) obtain ds s1 where d: "directories s = (Inr ds, s1)"
    and rest: "(if ds = [] then returnA None
     else
       let name = baseName (snapshotDir s1) (last ds) in
       bindA (wrapA ''could not open snapshot data file'' (openFile (\<lambda>s. dataOf s name))) (\<lambda>_.
       bindA (wrapA ''could not open snapshot metadata file'' (openFile (\<lambda>s. metaOfDir s name))) (\<lambda>contents.
       bindA (wrapA ''could not decode snapshot metadata'' (decodeMetadata contents)) (\<lambda>metadata.
       returnA (Some \<lparr>sf_dir = [], sf_tmpDir = [], sf_file = Some (name, 0), sf_metadata = metadata\<rparr>))))) s1 = (Inr sf, s')"
    by (auto simp: SnapshotFile_def bindA_eq_Inr[of directories] split: if_splits)
  note ds = directories_ok[OF assms(1) d]
  show ?thesis
  proof (cases "visible s = []")
    case False
    then have b: "baseName (snapshotDir s1) (last ds) = last (visible s)" "ds \<noteq> []"
      using ds(1,3) by (simp_all add: last_map baseName_def joinPath_def)
    then show ?thesis using rest ds(2) False
      by (auto simp: Let_def bindA_eq_Inr metaOfDir_def dest!: openFile_ok decodeMetadata_ok)
  qed (use rest ds in auto)
qed

text \<open>Without faults, the newest complete snapshot is found.\<close>

lemma SnapshotFile_found:
  assumes "ss_faults s = []" "take 9 (snapshotDir s) \<noteq> ''snapshot-''" "visible s \<noteq> []"
    and "dataOf s (last (visible s)) = Some bs" "metaOfDir s (last (visible s)) = Some txt" "unmarshalMetadata (bytesText txt) = Some md"
  shows "SnapshotFile s = (Inr (Some \<lparr>sf_dir = [], sf_tmpDir = [], sf_file = Some (last (visible s), 0), sf_metadata = md\<rparr>), s)"
proof -
  have y: "ss_syscall s = (Inr (), s)" using assms(1) by (simp add: ss_syscall_def)
  have d: "directories s = (Inr (map (joinPath (snapshotDir s)) (visible s)), s)"
    using directories_ok(1)[OF assms(2)] y by (simp add: directories_def bindA_def wrapA_def)
  have b: "baseName (snapshotDir s) (last (map (joinPath (snapshotDir s)) (visible s))) = last (visible s)"
    using assms(3) by (simp add: last_map baseName_def joinPath_def)
  have o: "openFile g s = (Inr x, s)" if "g s = Some x" for g x using that y by (simp add: openFile_def bindA_def)
  have m: "decodeMetadata txt s = (Inr md, s)"
    using y assms(6) by (simp add: decodeMetadata_def bindA_def wrapA_def)
  show ?thesis using d b assms(3) o[of "\<lambda>s. dataOf s (last (visible s))"] assms(4,5) m
    by (simp add: SnapshotFile_def Let_def bindA_Inr[of directories, OF d] bindA_def wrapA_def o)
qed

lemma updDir_at: "fmlookup (ss_dirs s) d = Some c \<Longrightarrow> updDir d g s = s\<lparr>ss_dirs := fmupd d (g c) (ss_dirs s)\<rparr>"
  by (simp add: updDir_def)

lemma fmupd_twice: "fmupd k a (fmupd k b m) = fmupd k a m"
  by (intro fmap_ext) auto

lemma encodeMetadata_ok:
  "encodeMetadata d md s = (Inr u, s') \<longleftrightarrow> next_io (ss_faults s) = IoOk \<and>
     s' = (updDir d (\<lambda>c. c\<lparr>sd_meta := Some (textBytes (marshalMetadata md))\<rparr>) s)\<lparr>ss_faults := tl (ss_faults s)\<rparr>"
  by (auto simp: encodeMetadata_def Let_def)

lemma NewSnapshotFile_ok:
  assumes "NewSnapshotFile now i t c s = (Inr f, s')"
  defines "tmp \<equiv> ''tmp-snapshot'' @ decimal (ss_tmpCount s)" and "md \<equiv> \<lparr>md_LastIncludedIndex = i, md_LastIncludedTerm = t, md_Configuration = c\<rparr>"
  shows "f = \<lparr>sf_dir = buildDirectoryBase now, sf_tmpDir = tmp, sf_file = Some (tmp, 0), sf_metadata = md\<rparr>"
    "ss_dirs s' = fmupd tmp (snapDirOf [] md) (ss_dirs s)" "snapshotDir s' = snapshotDir s"
  using assms(1) unfolding tmp_def md_def NewSnapshotFile_def Let_def
  by (auto simp: bindA_eq_Inr ss_syscall_def updDir_at encodeMetadata_ok fmupd_twice snapDirOf_def)

lemma visible_tmp: "visible (s\<lparr>ss_dirs := fmupd (''tmp-snapshot'' @ decimal n) x (ss_dirs s)\<rparr>) = visible s"
proof -
  have "filter matchesPattern (sorted_list_of_fset (finsert (''tmp-snapshot'' @ decimal n) A)) = filter matchesPattern (sorted_list_of_fset A)" for A
  proof (intro sorted_distinct_set_unique)
    show "set (filter matchesPattern (sorted_list_of_fset (finsert (''tmp-snapshot'' @ decimal n) A))) = set (filter matchesPattern (sorted_list_of_fset A))"
      using tmp_name_hidden[of n] by auto
  qed (simp_all add: sorted_fset sorted_wrt_filter)
  then show ?thesis by (simp add: visible_def)
qed

lemma SF_Write_ok:
  assumes "SF_Write bs f s = (Inr f', s')" "sf_file f = Some (d, length dat)" "fmlookup (ss_dirs s) d = Some (snapDirOf dat md)"
  shows "f' = f\<lparr>sf_file := Some (d, length dat + length bs)\<rparr>" "snapshotDir s' = snapshotDir s"
    "ss_dirs s' = fmupd d (snapDirOf (dat @ bs) md) (ss_dirs s)"
proof -
  have ok: "io_stored io xs = xs" if "io_result io = Inr u" for io u and xs :: bytes using that by (cases io) auto
  have same: "fmupd d (snapDirOf dat md) (ss_dirs s) = ss_dirs s" using assms(3) by (intro fmap_ext) auto
  have dat: "dataOf s d = Some dat" using assms(3) by (simp add: dataOf_def snapDirOf_def)
  show "f' = f\<lparr>sf_file := Some (d, length dat + length bs)\<rparr>" "snapshotDir s' = snapshotDir s"
    "ss_dirs s' = fmupd d (snapDirOf (dat @ bs) md) (ss_dirs s)"
    using assms same dat by (auto simp: SF_Write_def Let_def ok updDir_def snapDirOf_def split: if_splits sum.splits)
qed

lemma SF_Close_ok:
  assumes "SF_Close f s = (Inr f', s')" "sf_file f = Some (sf_tmpDir f, k)" "fmlookup (ss_dirs s) (sf_tmpDir f) = Some c"
  shows "snapshotDir s' = snapshotDir s" "fmlookup (ss_dirs s) (sf_dir f) = None"
    "ss_dirs s' = fmupd (sf_dir f) c (fmdrop (sf_tmpDir f) (ss_dirs s))"
  using assms
  by (auto simp: SF_Close_def SF_inTmpDir_def bindA_eq_Inr tryA_eq_Inr renameDir_def ss_syscall_def removeAllDir_def
      split: if_splits option.splits sum.splits)
     (metis old.unit.exhaust sum.exhaust)+

text \<open>C35. A snapshot becomes visible as a whole, when it is closed: while it is written, readers find the same
snapshots as before; after \<^verbatim>\<open>Close\<close>, if its name is the greatest, \<^verbatim>\<open>SnapshotFile\<close> returns it, with its metadata
and exactly the bytes that were written, and the older snapshots are still there.\<close>

theorem snapshot_published:
  assumes "take 9 (snapshotDir s) \<noteq> ''snapshot-''" "\<And>n. n \<in> set (visible s) \<Longrightarrow> n < buildDirectoryBase now"
    and "''tmp-snapshot'' @ decimal (ss_tmpCount s) |\<notin>| fmdom (ss_dirs s)"
    and "NewSnapshotFile now i t c s = (Inr f, s1)" "SF_Write bs f s1 = (Inr f2, s2)" "SF_Close f2 s2 = (Inr f3, s3)"
    and "SnapshotFile s3 = (Inr sf, s4)"
  shows "visible s1 = visible s \<and> visible s2 = visible s \<and>
    (\<forall>n. n \<in> set (visible s) \<longrightarrow> fmlookup (ss_dirs s3) n = fmlookup (ss_dirs s) n) \<and>
    (\<exists>g. sf = Some g \<and> SF_Metadata g = \<lparr>md_LastIncludedIndex = i, md_LastIncludedTerm = t, md_Configuration = c\<rparr> \<and>
       (\<forall>bs' g' s5. SF_ReadAll g s4 = (Inr (bs', g'), s5) \<longrightarrow> bs' = bs))"
proof -
  let ?tmp = "''tmp-snapshot'' @ decimal (ss_tmpCount s)" and ?new = "buildDirectoryBase now"
  let ?md = "\<lparr>md_LastIncludedIndex = i, md_LastIncludedTerm = t, md_Configuration = c\<rparr>"
  note n = NewSnapshotFile_ok[OF assms(4)]
  have w: "f2 = f\<lparr>sf_file := Some (?tmp, length bs)\<rparr>" "snapshotDir s2 = snapshotDir s"
    "ss_dirs s2 = fmupd ?tmp (snapDirOf bs ?md) (ss_dirs s)"
    using SF_Write_ok[OF assms(5), of ?tmp "[]" ?md] n by (auto intro!: fmap_ext)
  have cl: "snapshotDir s3 = snapshotDir s" "ss_dirs s3 = fmupd ?new (snapDirOf bs ?md) (fmdrop ?tmp (ss_dirs s2))"
    using SF_Close_ok[OF assms(6), of "length bs" "snapDirOf bs ?md"] w n by auto
  have d3: "ss_dirs s3 = fmupd ?new (snapDirOf bs ?md) (ss_dirs s)"
    using cl(2) w(3) assms(3) by (intro fmap_ext) (auto simp: fmdom_notI fmlookup_dom_iff)
  have v: "visible s1 = visible s" "visible s2 = visible s"
    using visible_tmp[where s = s and n = "ss_tmpCount s"] n(2) w(3) by (simp_all add: visible_def)
  have "?new \<in> set (visible s3)" "\<And>n. n \<in> set (visible s3) \<Longrightarrow> n \<le> ?new"
    using assms(2) matches_snapshot_name[of now] by (auto simp: visible_props(2) d3 intro: less_imp_le)
  then have l: "last (visible s3) = ?new" "visible s3 \<noteq> []" using last_greatest[OF visible_props(1)] by auto
  have g: "sf = Some \<lparr>sf_dir = [], sf_tmpDir = [], sf_file = Some (?new, 0), sf_metadata = ?md\<rparr>" "ss_dirs s4 = ss_dirs s3"
    using SnapshotFile_ok[OF _ assms(7)] assms(1) cl(1) l d3 by (auto simp: metaOfDir_def snapDirOf_def unmarshal_marshal)
  have r: "\<forall>bs' g' s5. SF_ReadAll \<lparr>sf_dir = [], sf_tmpDir = [], sf_file = Some (?new, 0), sf_metadata = ?md\<rparr> s4 = (Inr (bs', g'), s5) \<longrightarrow> bs' = bs"
    using g(2) d3 by (auto simp: SF_ReadAll_def dataOf_def snapDirOf_def bindA_eq_Inr ss_syscall_def split: option.splits)
  have o: "fmlookup (ss_dirs s3) m = fmlookup (ss_dirs s) m" if "m \<in> set (visible s)" for m
    using assms(2)[OF that] d3 by auto
  show ?thesis using v o g r by (auto simp: SF_Metadata_def)
qed

definition old_storage :: persistentSnapshotStorage where
  "old_storage = \<lparr>snapshotDir = ''data/snapshots'', ss_dirs = fmap_of_list [(''snapshot-100'',
     snapDirOf [1] \<lparr>md_LastIncludedIndex = 1, md_LastIncludedTerm = 1, md_Configuration = [1]\<rparr>)],
     ss_tmpCount = 0, ss_faults = []\<rparr>"

definition new_file :: snapshotFile where
  "new_file = \<lparr>sf_dir = ''snapshot-200'', sf_tmpDir = ''tmp-snapshot0'', sf_file = Some (''tmp-snapshot0'', 0),
     sf_metadata = \<lparr>md_LastIncludedIndex = 5, md_LastIncludedTerm = 2, md_Configuration = [1]\<rparr>\<rparr>"

definition new_s1 :: persistentSnapshotStorage where "new_s1 = snd (NewSnapshotFile 200 5 2 [1] old_storage)"
definition new_s2 :: persistentSnapshotStorage where "new_s2 = snd (SF_Write [4, 5] new_file new_s1)"
definition new_s3 :: persistentSnapshotStorage where "new_s3 = snd (SF_Close (new_file\<lparr>sf_file := Some (''tmp-snapshot0'', 2)\<rparr>) new_s2)"

theorem snapshot_published_witness:
  "\<exists>g s4. SnapshotFile new_s3 = (Inr (Some g), s4) \<and> md_LastIncludedIndex (SF_Metadata g) = 5 \<and>
     (\<forall>bs' g' s5. SF_ReadAll g s4 = (Inr (bs', g'), s5) \<longrightarrow> bs' = [4, 5])"
proof -
  have e: "fst (NewSnapshotFile 200 5 2 [1] old_storage) = Inr new_file"
    "fst (SF_Write [4, 5] new_file new_s1) = Inr (new_file\<lparr>sf_file := Some (''tmp-snapshot0'', 2)\<rparr>)"
    "fst (SF_Close (new_file\<lparr>sf_file := Some (''tmp-snapshot0'', 2)\<rparr>) new_s2) = Inr (new_file\<lparr>sf_file := None\<rparr>)"
    by code_simp+
  have v: "visible old_storage = [''snapshot-100'']" "''snapshot-100'' < buildDirectoryBase 200"
    "take 9 (snapshotDir old_storage) \<noteq> ''snapshot-''" "''tmp-snapshot'' @ decimal (ss_tmpCount old_storage) |\<notin>| fmdom (ss_dirs old_storage)"
    by code_simp+
  have f: "ss_faults new_s3 = []" "take 9 (snapshotDir new_s3) \<noteq> ''snapshot-''" "visible new_s3 = [''snapshot-100'', ''snapshot-200'']"
    "fmlookup (ss_dirs new_s3) ''snapshot-200'' = Some (snapDirOf [4, 5] (sf_metadata new_file))"
    by code_simp+
  have r: "NewSnapshotFile 200 5 2 [1] old_storage = (Inr new_file, new_s1)"
    "SF_Write [4, 5] new_file new_s1 = (Inr (new_file\<lparr>sf_file := Some (''tmp-snapshot0'', 2)\<rparr>), new_s2)"
    "SF_Close (new_file\<lparr>sf_file := Some (''tmp-snapshot0'', 2)\<rparr>) new_s2 = (Inr (new_file\<lparr>sf_file := None\<rparr>), new_s3)"
    using e by (simp_all add: prod_eq_iff new_s1_def new_s2_def new_s3_def)
  obtain g where g: "SnapshotFile new_s3 = (Inr (Some g), new_s3)" using SnapshotFile_found[OF f(1,2)] f(3,4)
    by (simp add: dataOf_def metaOfDir_def snapDirOf_def unmarshal_marshal)
  have nw: "n < buildDirectoryBase 200" if "n \<in> set (visible old_storage)" for n using that v by simp
  from snapshot_published[OF v(3) nw v(4) r g] g show ?thesis by auto
qed

section \<open>Runs of the storage\<close>

text \<open>The open files after an operation on \<open>f\<close> that returns the file as it is then.\<close>

definition replaceFile :: "exn + snapshotFile \<Rightarrow> snapshotFile \<Rightarrow> snapshotFile list \<Rightarrow> snapshotFile list" where
  "replaceFile r f fs = (case r of Inl _ \<Rightarrow> fs | Inr f' \<Rightarrow> f' # remove1 f fs)"

inductive snapStep :: "persistentSnapshotStorage \<times> snapshotFile list \<Rightarrow> persistentSnapshotStorage \<times> snapshotFile list \<Rightarrow> bool" where
  create: "NewSnapshotFile now i t c s = (r, s') \<Longrightarrow> snapStep (s, fs) (s', (case r of Inl _ \<Rightarrow> [] | Inr f \<Rightarrow> [f]) @ fs)"
| openNewest: "SnapshotFile s = (r, s') \<Longrightarrow> snapStep (s, fs) (s', (case r of Inr (Some f) \<Rightarrow> [f] | _ \<Rightarrow> []) @ fs)"
| writeTo: "f \<in> set fs \<Longrightarrow> SF_Write bs f s = (r, s') \<Longrightarrow> snapStep (s, fs) (s', replaceFile r f fs)"
| seekTo: "f \<in> set fs \<Longrightarrow> SF_SeekStart n f s = (r, s') \<Longrightarrow> snapStep (s, fs) (s', replaceFile r f fs)"
| readFrom: "f \<in> set fs \<Longrightarrow> SF_ReadAll f s = (r, s') \<Longrightarrow> snapStep (s, fs) (s', replaceFile (map_sum id snd r) f fs)"
| close: "f \<in> set fs \<Longrightarrow> SF_Close f s = (r, s') \<Longrightarrow> snapStep (s, fs) (s', remove1 f fs)"
| discard: "f \<in> set fs \<Longrightarrow> SF_Discard f s = (r, s') \<Longrightarrow> snapStep (s, fs) (s', replaceFile r f fs)"
| crash: "snapStep (s, fs) (s\<lparr>ss_faults := ios\<rparr>, [])"
| restart: "NewSnapshotStorage s = (r, s') \<Longrightarrow> snapStep (s, fs) (s', [])"

definition tmpName :: "nat \<Rightarrow> string" where
  "tmpName k = ''tmp-snapshot'' @ decimal k"

text \<open>Both files are there, and the metadata can be read.\<close>

definition completeDir :: "snapDir \<Rightarrow> bool" where
  "completeDir c \<longleftrightarrow> sd_data c \<noteq> None \<and> (case sd_meta c of None \<Rightarrow> False | Some txt \<Rightarrow> unmarshalMetadata (bytesText txt) \<noteq> None)"

definition storageOK :: "persistentSnapshotStorage \<Rightarrow> bool" where
  "storageOK s \<longleftrightarrow> list_all (\<lambda>n. \<not> hasTmpPrefix n \<and> completeDir (the (fmlookup (ss_dirs s) n))) (visible s)"

definition fileOK :: "persistentSnapshotStorage \<Rightarrow> snapshotFile \<Rightarrow> bool" where
  "fileOK s f \<longleftrightarrow> SF_inTmpDir f \<longrightarrow> (\<exists>k < ss_tmpCount s. sf_tmpDir f = tmpName k) \<and> (\<exists>now. sf_dir f = buildDirectoryBase now) \<and>
     (\<forall>c. fmlookup (ss_dirs s) (sf_tmpDir f) = Some c \<longrightarrow> completeDir c)"

section \<open>What the operations change\<close>

definition sameBut :: "string set \<Rightarrow> persistentSnapshotStorage \<Rightarrow> persistentSnapshotStorage \<Rightarrow> bool" where
  "sameBut T s s' \<longleftrightarrow> (\<forall>n. n \<notin> T \<longrightarrow> fmlookup (ss_dirs s') n = fmlookup (ss_dirs s) n) \<and> snapshotDir s' = snapshotDir s \<and>
     ss_tmpCount s \<le> ss_tmpCount s'"

interpretation sb: action_rel "sameBut T" for T
  by unfold_locales (auto simp: sameBut_def)

lemma sameBut_basic:
  "relA (sameBut T) ss_syscall" "d \<in> T \<Longrightarrow> relA (sameBut T) (encodeMetadata d md)" "d \<in> T \<Longrightarrow> sameBut T s (updDir d g s)"
proof -
  show "relA (sameBut T) ss_syscall" by (simp add: relA_def sameBut_def ss_syscall_def)
  show u: "sameBut T s (updDir d g s)" if "d \<in> T" for d s g using that by (auto simp: sameBut_def updDir_def split: option.split)
  show "relA (sameBut T) (encodeMetadata d md)" if "d \<in> T" unfolding encodeMetadata_def
    using u[OF that] by (intro sb.intros) (simp add: relA_def Let_def sameBut_def)
qed

lemma sameBut_NewSnapshotFile: "NewSnapshotFile now i t c s = (r, s') \<Longrightarrow> sameBut {tmpName (ss_tmpCount s)} s s'"
proof -
  assume a: "NewSnapshotFile now i t c s = (r, s')"
  let ?T = "{tmpName (ss_tmpCount s)}" and ?s1 = "s\<lparr>ss_faults := tl (ss_faults s)\<rparr>"
  show ?thesis
  proof (cases "next_io (ss_faults s)")
    case IoOk
    define rest where "rest = (\<lambda>s2 :: persistentSnapshotStorage. let tmpDir = tmpName (ss_tmpCount s2);
         metadata = \<lparr>md_LastIncludedIndex = i, md_LastIncludedTerm = t, md_Configuration = c\<rparr> in
     bindA (modifyA (\<lambda>s. s\<lparr>ss_tmpCount := Suc (ss_tmpCount s),
       ss_dirs := fmupd tmpDir \<lparr>sd_data = None, sd_meta = None\<rparr> (ss_dirs s)\<rparr>)) (\<lambda>_.
     bindA (wrapA ''could not create file for snapshot data'' ss_syscall) (\<lambda>_.
     bindA (modifyA (updDir tmpDir (\<lambda>c. c\<lparr>sd_data := Some []\<rparr>))) (\<lambda>_.
     bindA (wrapA ''could not create file for snapshot metadata'' ss_syscall) (\<lambda>_.
     bindA (modifyA (updDir tmpDir (\<lambda>c. c\<lparr>sd_meta := Some []\<rparr>))) (\<lambda>_.
     bindA (wrapA ''could not encode snapshot metadata'' (encodeMetadata tmpDir metadata)) (\<lambda>_.
     bindA (wrapA ''could not sync snapshot metadata file'' ss_syscall) (\<lambda>_.
     bindA (wrapA ''could not close snapshot metadata file'' ss_syscall) (\<lambda>_.
     returnA \<lparr>sf_dir = buildDirectoryBase now, sf_tmpDir = tmpDir, sf_file = Some (tmpDir, 0),
              sf_metadata = metadata\<rparr>)))))))))"
    have w: "wrapA ''could not  directory for snapshot'' ss_syscall s = (Inr (), ?s1)" using IoOk by (simp add: ss_syscall_def)
    have "rest ?s1 ?s1 = (r, s')" using a unfolding NewSnapshotFile_def bindA_Inr[of "wrapA ''could not  directory for snapshot'' ss_syscall", OF w] by (simp add: rest_def tmpName_def)
    moreover have "relA (sameBut ?T) (rest ?s1)"
      unfolding rest_def Let_def by (intro sb.intros sameBut_basic) (simp_all add: sameBut_def sameBut_basic(3)[unfolded sameBut_def])
    ultimately have "sameBut ?T ?s1 s'" by (rule relAD[rotated])
    then show ?thesis by (simp add: sameBut_def)
  next
    case (IoFail n)
    then show ?thesis using a by (auto simp: NewSnapshotFile_def bindA_def wrapA_def ss_syscall_def sameBut_def)
  qed
qed

lemma sameBut_readers:
  "relA (sameBut T) SnapshotFile" "relA (sameBut T) (SF_SeekStart n f)" "relA (sameBut T) (SF_ReadAll f)"
  unfolding SnapshotFile_def directories_def openFile_def decodeMetadata_def SF_SeekStart_def SF_ReadAll_def Let_def
  by (intro sb.from_get sb.intros sameBut_basic)+

text \<open>A directory that exists in the end existed before, and it is complete if it was complete.\<close>

definition shrinks :: "string \<Rightarrow> persistentSnapshotStorage \<Rightarrow> persistentSnapshotStorage \<Rightarrow> bool" where
  "shrinks d s s' \<longleftrightarrow> (\<forall>c'. fmlookup (ss_dirs s') d = Some c' \<longrightarrow>
     (\<exists>c. fmlookup (ss_dirs s) d = Some c \<and> (completeDir c \<longrightarrow> completeDir c')))"

lemma completeDir_data: "completeDir c \<Longrightarrow> completeDir (c\<lparr>sd_data := Some bs\<rparr>)"
  by (simp add: completeDir_def)

lemma SF_Write_effect: "SF_Write bs f s = (r, s') \<Longrightarrow> sameBut {sf_tmpDir f} s s' \<and> shrinks (sf_tmpDir f) s s'"
  by (auto simp: SF_Write_def SF_inTmpDir_def Let_def updDir_def dataOf_def sameBut_def shrinks_def completeDir_data
      split: if_splits option.splits bind_splits)

lemma SF_Discard_effect: "SF_Discard f s = (r, s') \<Longrightarrow> sameBut {sf_tmpDir f} s s' \<and> shrinks (sf_tmpDir f) s s'"
  by (auto simp: SF_Discard_def removeAllDir_def sameBut_def shrinks_def ss_syscall_def bindA_def wrapA_def
      split: if_splits sum.splits)

text \<open>Closing publishes the temporary directory or removes it.\<close>

lemma SF_Close_effect:
  assumes "SF_Close f s = (r, s')"
  shows "snapshotDir s' = snapshotDir s" "ss_tmpCount s' = ss_tmpCount s"
    "ss_dirs s' = ss_dirs s \<or> SF_inTmpDir f \<and> (ss_dirs s' = fmdrop (sf_tmpDir f) (ss_dirs s) \<or>
      (\<exists>c. fmlookup (ss_dirs s) (sf_tmpDir f) = Some c \<and> fmlookup (ss_dirs s) (sf_dir f) = None \<and>
           ss_dirs s' = fmupd (sf_dir f) c (fmdrop (sf_tmpDir f) (ss_dirs s))))"
  using assms
  by (auto simp: SF_Close_def renameDir_def removeAllDir_def ss_syscall_def bindA_def wrapA_def tryA_def whenA_def
      split: if_splits sum.splits option.splits exn.splits prod.splits)

lemma NewSnapshotStorage_effect:
  assumes "NewSnapshotStorage s = (r, s')"
  shows "snapshotDir s' = snapshotDir s" "ss_tmpCount s' = ss_tmpCount s" "\<exists>P. ss_dirs s' = fmfilter P (ss_dirs s) \<and> (\<forall>n. n |\<in>| fmdom (ss_dirs s) \<longrightarrow> \<not> hasTmpPrefix n \<longrightarrow> P n)"
proof -
  have keep: "\<not> hasTmpPrefix n \<Longrightarrow> n \<in> fst ` set cs \<Longrightarrow> n \<in> fst ` set (snd (walkTmps cs))" for n cs
  proof (induction cs)
    case (Cons x cs)
    obtain m t where x: "x = (m, t)" by (cases x)
    have "snd (walkTmp m t) \<noteq> None" if "\<not> hasTmpPrefix m" using that by (cases t) (auto split: prod.split)
    then show ?case using Cons x by (auto simp: Let_def split: prod.splits option.splits sum.splits) force+
  qed simp
  have dom: "fst ` set (storageTree s) = fset (fmdom (ss_dirs s))" by (auto simp: storageTree_def image_image)
  show "snapshotDir s' = snapshotDir s" "ss_tmpCount s' = ss_tmpCount s"
    using assms by (auto simp: NewSnapshotStorage_def bindA_def wrapA_def ss_syscall_def split: sum.splits prod.splits)
  have "ss_dirs s' = ss_dirs s \<or> ss_dirs s' = fmfilter (\<lambda>n. n \<in> fst ` set (snd (walkTmps (storageTree s)))) (ss_dirs s)"
    using assms
    by (auto simp: NewSnapshotStorage_def RemoveTmpFiles_def storageTree_def bindA_def wrapA_def ss_syscall_def cong del: fmfilter_cong
        split: sum.splits prod.splits)
  then show "\<exists>P. ss_dirs s' = fmfilter P (ss_dirs s) \<and> (\<forall>n. n |\<in>| fmdom (ss_dirs s) \<longrightarrow> \<not> hasTmpPrefix n \<longrightarrow> P n)"
  proof
    assume "ss_dirs s' = ss_dirs s"
    then show ?thesis by (intro exI[of _ "\<lambda>_. True"]) simp
  qed (use keep[of _ "storageTree s"] dom in blast)
qed

section \<open>The invariant\<close>

text \<open>
  A change that no reader and no open file notices: a visible snapshot stays as it is, a new visible one is complete,
  and the temporary directories of the open files stay complete or disappear.
\<close>

definition gentle :: "persistentSnapshotStorage \<Rightarrow> persistentSnapshotStorage \<Rightarrow> bool" where
  "gentle s s' \<longleftrightarrow> snapshotDir s' = snapshotDir s \<and> ss_tmpCount s \<le> ss_tmpCount s' \<and>
     (\<forall>n. matchesPattern n \<longrightarrow> \<not> hasTmpPrefix n \<longrightarrow> fmlookup (ss_dirs s') n = fmlookup (ss_dirs s) n \<or>
        fmlookup (ss_dirs s) n = None \<and> (\<exists>c. fmlookup (ss_dirs s') n = Some c \<and> completeDir c)) \<and>
     (\<forall>n. matchesPattern n \<longrightarrow> hasTmpPrefix n \<longrightarrow> fmlookup (ss_dirs s) n = None \<longrightarrow> fmlookup (ss_dirs s') n = None) \<and>
     (\<forall>k < ss_tmpCount s. shrinks (tmpName k) s s')"

lemma tmpName_hidden: "\<not> matchesPattern (tmpName k)"
  using tmp_name_hidden by (simp add: tmpName_def)

lemma tmpName_inj: "tmpName j = tmpName k \<longleftrightarrow> j = k"
  by (simp add: tmpName_def decimal_inj)

lemma snapshot_name_no_tmp: "\<not> hasTmpPrefix (buildDirectoryBase now)"
  by (simp add: hasTmpPrefix_def buildDirectoryBase_def)

lemma storageOK_iff:
  "storageOK s \<longleftrightarrow> (\<forall>n c. matchesPattern n \<longrightarrow> fmlookup (ss_dirs s) n = Some c \<longrightarrow> \<not> hasTmpPrefix n \<and> completeDir c)"
  by (force simp: storageOK_def list_all_iff visible_props(2) fmlookup_dom_iff)

lemma gentle_keeps:
  assumes "gentle s s'"
  shows "storageOK s \<Longrightarrow> storageOK s'" "fileOK s f \<Longrightarrow> fileOK s' f"
    "storageOK s \<Longrightarrow> n \<in> set (visible s) \<Longrightarrow> n \<in> set (visible s') \<and> fmlookup (ss_dirs s') n = fmlookup (ss_dirs s) n"
proof -
  show "storageOK s'" if "storageOK s"
    unfolding storageOK_iff
  proof (intro allI impI)
    fix n c assume n: "matchesPattern n" "fmlookup (ss_dirs s') n = Some c"
    show "\<not> hasTmpPrefix n \<and> completeDir c"
      using n that assms by (cases "hasTmpPrefix n"; cases "fmlookup (ss_dirs s) n") (auto simp: gentle_def storageOK_iff)
  qed
  show "fileOK s' f" if ok: "fileOK s f"
    unfolding fileOK_def
  proof
    assume t: "SF_inTmpDir f"
    then obtain k where k: "k < ss_tmpCount s" "sf_tmpDir f = tmpName k" using ok by (auto simp: fileOK_def)
    then have "k < ss_tmpCount s'" "shrinks (sf_tmpDir f) s s'" using assms by (auto simp: gentle_def)
    then show "(\<exists>k < ss_tmpCount s'. sf_tmpDir f = tmpName k) \<and> (\<exists>now. sf_dir f = buildDirectoryBase now) \<and>
        (\<forall>c. fmlookup (ss_dirs s') (sf_tmpDir f) = Some c \<longrightarrow> completeDir c)"
      using ok t k by (auto simp: fileOK_def shrinks_def)
  qed
  show "n \<in> set (visible s') \<and> fmlookup (ss_dirs s') n = fmlookup (ss_dirs s) n" if "storageOK s" "n \<in> set (visible s)"
    using that assms by (auto simp: gentle_def storageOK_iff visible_props(2) fmlookup_dom_iff)
qed

lemma shrinks_refl: "fmlookup (ss_dirs s') d = fmlookup (ss_dirs s) d \<Longrightarrow> shrinks d s s'"
  by (simp add: shrinks_def)

text \<open>Changes of one temporary directory only: a new one, or one that shrinks.\<close>

lemma gentle_sameBut:
  assumes "sameBut {tmpName k} s s'" "k \<ge> ss_tmpCount s \<or> shrinks (tmpName k) s s'"
  shows "gentle s s'"
proof -
  have "n \<noteq> tmpName k" if "matchesPattern n" for n using that tmpName_hidden by auto
  moreover have "shrinks (tmpName j) s s'" if "j < ss_tmpCount s" for j
    using assms that by (cases "j = k") (auto simp: sameBut_def tmpName_inj intro: shrinks_refl)
  ultimately show ?thesis using assms by (auto simp: gentle_def sameBut_def)
qed

lemma gentle_same: "sameBut {} s s' \<Longrightarrow> gentle s s'"
  by (auto simp: gentle_def sameBut_def intro: shrinks_refl)

lemma gentle_file_op:
  assumes "fileOK s f" "sameBut {sf_tmpDir f} s s'" "shrinks (sf_tmpDir f) s s'" "SF_inTmpDir f"
  shows "gentle s s'"
  using assms by (auto simp: fileOK_def intro: gentle_sameBut)


lemma gentle_close:
  assumes "fileOK s f" "SF_Close f s = (r, s')"
  shows "gentle s s'"
proof -
  note e = SF_Close_effect[OF assms(2)]
  show ?thesis
  proof (cases "ss_dirs s' = ss_dirs s")
    case True
    then show ?thesis using e(1,2) by (intro gentle_same) (simp add: sameBut_def)
  next
    case False
    then obtain k now where t: "SF_inTmpDir f" "sf_tmpDir f = tmpName k" "sf_dir f = buildDirectoryBase now"
      and c: "\<And>c. fmlookup (ss_dirs s) (tmpName k) = Some c \<Longrightarrow> completeDir c"
      using assms(1) e(3) by (auto simp: fileOK_def)
    have ne: "buildDirectoryBase now \<noteq> tmpName j" for j using matches_snapshot_name[of now] tmpName_hidden[of j] by auto
    from False e(3) t consider (drop) "ss_dirs s' = fmdrop (tmpName k) (ss_dirs s)"
      | (ren) d where "fmlookup (ss_dirs s) (tmpName k) = Some d" "fmlookup (ss_dirs s) (buildDirectoryBase now) = None"
          "ss_dirs s' = fmupd (buildDirectoryBase now) d (fmdrop (tmpName k) (ss_dirs s))" by auto
    then show ?thesis
    proof cases
      case drop
      then show ?thesis using e(1,2) by (intro gentle_sameBut[of k]) (auto simp: sameBut_def shrinks_def)
    next
      case (ren d)
      have "shrinks (tmpName j) s s'" for j using ren ne[of j] by (auto simp: shrinks_def)
      moreover have "n \<noteq> tmpName k" if "matchesPattern n" for n using that tmpName_hidden by auto
      ultimately show ?thesis using e(1,2) ren c[OF ren(1)] snapshot_name_no_tmp[of now] by (auto simp: gentle_def)
    qed
  qed
qed

lemma gentle_restart: "NewSnapshotStorage s = (r, s') \<Longrightarrow> gentle s s'"
proof -
  assume "NewSnapshotStorage s = (r, s')"
  note e = NewSnapshotStorage_effect[OF this]
  from e(3) obtain P where P: "ss_dirs s' = fmfilter P (ss_dirs s)" "\<And>n. n |\<in>| fmdom (ss_dirs s) \<Longrightarrow> \<not> hasTmpPrefix n \<Longrightarrow> P n" by blast
  have "fmlookup (ss_dirs s') n = fmlookup (ss_dirs s) n" if "\<not> hasTmpPrefix n" for n
    using P that by (cases "fmlookup (ss_dirs s) n") (auto simp: fmlookup_dom_iff)
  moreover have "fmlookup (ss_dirs s') n = None \<or> fmlookup (ss_dirs s') n = fmlookup (ss_dirs s) n" for n using P(1) by auto
  then have "shrinks n s s'" for n by (metis option.distinct(1) shrinks_def)
  ultimately show ?thesis using e(1,2) P(1) by (auto simp: gentle_def)
qed

definition runOK :: "persistentSnapshotStorage \<times> snapshotFile list \<Rightarrow> bool" where
  "runOK x \<longleftrightarrow> storageOK (fst x) \<and> list_all (fileOK (fst x)) (snd x)"

text \<open>An operation that returns the file keeps its directories.\<close>

lemma fileOK_same:
  "fileOK s f \<Longrightarrow> sf_tmpDir f' = sf_tmpDir f \<Longrightarrow> sf_dir f' = sf_dir f \<Longrightarrow> (SF_inTmpDir f' \<Longrightarrow> SF_inTmpDir f) \<Longrightarrow> fileOK s f'"
  by (auto simp: fileOK_def)

lemma runOK_replace:
  assumes "runOK (s, fs)" "f \<in> set fs" "gentle s s'"
    and "\<And>f'. r = Inr f' \<Longrightarrow> sf_tmpDir f' = sf_tmpDir f \<and> sf_dir f' = sf_dir f \<and> (SF_inTmpDir f' \<longrightarrow> SF_inTmpDir f)"
  shows "runOK (s', replaceFile r f fs)"
proof -
  have "fileOK s' g" if "g \<in> set fs" for g using gentle_keeps(2)[OF assms(3)] assms(1) that by (auto simp: runOK_def list_all_iff)
  moreover have "fileOK s' f'" if "r = Inr f'" for f'
    using fileOK_same[OF calculation[OF assms(2)]] assms(4)[OF that] by blast
  ultimately show ?thesis using gentle_keeps(1)[OF assms(3)] assms(1)
    by (auto simp: runOK_def replaceFile_def list_all_iff split: sum.split dest: notin_set_remove1 set_mp[OF set_remove1_subset])
qed


lemma file_op_keeps_names:
  "SF_Write bs f s = (Inr f', s') \<Longrightarrow> sf_tmpDir f' = sf_tmpDir f \<and> sf_dir f' = sf_dir f \<and> (SF_inTmpDir f' \<longrightarrow> SF_inTmpDir f)"
  "SF_SeekStart n f s = (Inr f', s') \<Longrightarrow> sf_tmpDir f' = sf_tmpDir f \<and> sf_dir f' = sf_dir f \<and> (SF_inTmpDir f' \<longrightarrow> SF_inTmpDir f)"
  "SF_ReadAll f s = (Inr (dat, f'), s') \<Longrightarrow> sf_tmpDir f' = sf_tmpDir f \<and> sf_dir f' = sf_dir f \<and> (SF_inTmpDir f' \<longrightarrow> SF_inTmpDir f)"
  "SF_Discard f s = (Inr f', s') \<Longrightarrow> sf_tmpDir f' = sf_tmpDir f \<and> sf_dir f' = sf_dir f \<and> (SF_inTmpDir f' \<longrightarrow> SF_inTmpDir f)"
  by (auto simp: SF_Write_def SF_SeekStart_def SF_ReadAll_def SF_Discard_def SF_inTmpDir_def bindA_eq_Inr Let_def
      split: if_splits option.splits sum.splits)

lemma gentle_write: "fileOK s f \<Longrightarrow> SF_Write bs f s = (r, s') \<Longrightarrow> gentle s s'"
  using SF_Write_effect[of bs f s r s'] gentle_file_op gentle_same[of s s']
  by (cases "SF_inTmpDir f") (auto simp: SF_Write_def sameBut_def split: if_splits)

lemma gentle_discard: "fileOK s f \<Longrightarrow> SF_Discard f s = (r, s') \<Longrightarrow> gentle s s'"
  using SF_Discard_effect[of f s r s'] gentle_file_op gentle_same[of s s']
  by (cases "SF_inTmpDir f") (auto simp: SF_Discard_def sameBut_def split: if_splits)

lemma fileOK_new:
  assumes "NewSnapshotFile now i t c s = (Inr f, s')"
  shows "fileOK s' f"
proof -
  note n = NewSnapshotFile_ok[OF assms]
  have "ss_tmpCount s < ss_tmpCount s'"
    using assms by (auto simp: NewSnapshotFile_def Let_def bindA_eq_Inr ss_syscall_def updDir_at encodeMetadata_ok)
  then show ?thesis using n by (auto simp: fileOK_def tmpName_def completeDir_def snapDirOf_def unmarshal_marshal)
qed

lemma opened_not_tmp:
  assumes "take 9 (snapshotDir s) \<noteq> ''snapshot-''" "SnapshotFile s = (Inr (Some f), s')"
  shows "\<not> SF_inTmpDir f"
proof -
  have "visible s \<noteq> []" "sf_tmpDir f = []" "sf_file f = Some (last (visible s), 0)"
    using SnapshotFile_ok[OF assms] by (auto split: if_splits)
  moreover have "last (visible s) \<noteq> []"
    using last_in_set[OF calculation(1)] matches_dash by (fastforce simp: visible_props(2))
  ultimately show ?thesis by (simp add: SF_inTmpDir_def)
qed

text \<open>Every step is gentle and keeps the invariant.\<close>

lemma snapStep_OK:
  assumes "snapStep (s, fs) (s', fs')" "runOK (s, fs)" "take 9 (snapshotDir s) \<noteq> ''snapshot-''"
  shows "gentle s s' \<and> runOK (s', fs')"
proof -
  have ok: "fileOK s f" if "f \<in> set fs" for f using assms(2) that by (auto simp: runOK_def list_all_iff)
  have more: "runOK (s', gs)" if g: "gentle s s'" and "\<forall>f\<in>set gs. f \<in> set fs \<or> fileOK s' f" for gs
    using gentle_keeps(1,2)[OF g] that(2) assms(2) by (fastforce simp: runOK_def list_all_iff)
  from assms(1) show ?thesis
  proof cases
    case (create now i t c r)
    then have g: "gentle s s'" by (intro gentle_sameBut[OF sameBut_NewSnapshotFile]) auto
    then show ?thesis using more[OF g, of fs'] create fileOK_new by (auto split: sum.splits)
  next
    case (openNewest r)
    then have g: "gentle s s'" by (intro gentle_same relAD[OF sameBut_readers(1)])
    then show ?thesis using more[OF g, of fs'] openNewest opened_not_tmp[OF assms(3)]
      by (auto simp: fileOK_def split: sum.splits option.splits)
  next
    case (writeTo f bs r)
    then show ?thesis using runOK_replace[OF assms(2), of f s' r] gentle_write[OF ok, of f] file_op_keeps_names(1) by blast
  next
    case (seekTo f n r)
    then have g: "gentle s s'" by (intro gentle_same relAD[OF sameBut_readers(2)])
    then show ?thesis using runOK_replace[OF assms(2), of f s' r] seekTo file_op_keeps_names(2) by blast
  next
    case (readFrom f r)
    then have g: "gentle s s'" by (intro gentle_same relAD[OF sameBut_readers(3)])
    then show ?thesis using runOK_replace[OF assms(2), of f s' "map_sum id snd r"] readFrom file_op_keeps_names(3)
      by (cases r) auto
  next
    case (close f r)
    then have g: "gentle s s'" using gentle_close[OF ok] by blast
    then show ?thesis using more[OF g, of fs'] close set_remove1_subset[of f fs] by auto
  next
    case (discard f r)
    then show ?thesis using runOK_replace[OF assms(2), of f s' r] gentle_discard[OF ok, of f] file_op_keeps_names(4) by blast
  next
    case (crash ios)
    then have g: "gentle s s'" by (intro gentle_same) (simp add: sameBut_def)
    then show ?thesis using more[OF g, of fs'] crash by simp
  next
    case (restart r)
    then show ?thesis using more[OF gentle_restart, of r fs'] gentle_restart by auto
  qed
qed

text \<open>What a run leaves: complete snapshots, and among them all those of the beginning.\<close>

definition survives :: "persistentSnapshotStorage \<Rightarrow> persistentSnapshotStorage \<times> snapshotFile list \<Rightarrow> bool" where
  "survives s0 x \<longleftrightarrow> runOK x \<and> snapshotDir (fst x) = snapshotDir s0 \<and>
     (\<forall>n. n \<in> set (visible s0) \<longrightarrow> n \<in> set (visible (fst x)) \<and> fmlookup (ss_dirs (fst x)) n = fmlookup (ss_dirs s0) n)"

lemma snapRun_OK:
  assumes "snapStep\<^sup>*\<^sup>* x y" "survives s0 x" "take 9 (snapshotDir s0) \<noteq> ''snapshot-''"
  shows "survives s0 y"
  using assms(1,2)
proof (induction rule: rtranclp_induct)
  case (step y z)
  obtain s fs s' fs' where yz: "y = (s, fs)" "z = (s', fs')" by (metis prod.exhaust)
  note ih = step.IH[OF step.prems, unfolded survives_def yz(1)]
  have g: "gentle s s'" "runOK (s', fs')" using snapStep_OK[of s fs s' fs'] step.hyps(2) ih assms(3) yz by auto
  have "storageOK s" using ih by (simp add: runOK_def)
  then show ?case using gentle_keeps(3)[OF g(1)] g ih yz by (auto simp: survives_def gentle_def)
qed simp

text \<open>The newest snapshot can be read when the system calls succeed.\<close>

lemma storage_readable:
  assumes "storageOK s" "take 9 (snapshotDir s) \<noteq> ''snapshot-''" "ss_faults s = []"
  shows "\<exists>sf. SnapshotFile s = (Inr sf, s) \<and> (sf = None \<longleftrightarrow> visible s = [])"
proof (cases "visible s = []")
  case True
  have "ss_syscall s = (Inr (), s)" using assms(3) by (simp add: ss_syscall_def)
  then have "directories s = (Inr [], s)" using True by (simp add: directories_def bindA_def wrapA_def visible_def)
  then show ?thesis using True by (simp add: SnapshotFile_def bindA_def)
next
  case False
  then obtain c where c: "fmlookup (ss_dirs s) (last (visible s)) = Some c" "completeDir c"
    using last_in_set[OF False] assms(1) by (auto simp: storageOK_iff visible_props(2) fmlookup_dom_iff)
  then obtain bs js md where "sd_data c = Some bs" "sd_meta c = Some js" "unmarshalMetadata (bytesText js) = Some md"
    by (auto simp: completeDir_def split: option.splits)
  then show ?thesis using SnapshotFile_found[OF assms(3,2) False] c False by (auto simp: dataOf_def metaOfDir_def)
qed

text \<open>C14. Snapshots survive: whatever files are created, written, closed, discarded and read, whichever system calls
fail, and however often the process crashes and restarts, every snapshot that was there in the beginning is still
there, unchanged, every snapshot that readers can see is complete (its data is there, its metadata can be decoded),
and once system calls succeed, \<^verbatim>\<open>SnapshotFile\<close> returns a snapshot whenever there is one.\<close>

theorem snapshots_survive:
  assumes "snapStep\<^sup>*\<^sup>* (s0, []) (s, fs)" "storageOK s0" "take 9 (snapshotDir s0) \<noteq> ''snapshot-''"
  shows "storageOK s \<and>
    (\<forall>n. n \<in> set (visible s0) \<longrightarrow> n \<in> set (visible s) \<and> fmlookup (ss_dirs s) n = fmlookup (ss_dirs s0) n) \<and>
    (ss_faults s = [] \<longrightarrow> (\<exists>sf. SnapshotFile s = (Inr sf, s) \<and> (sf = None \<longleftrightarrow> visible s = [])))"
proof -
  have "survives s0 (s, fs)" using assms(2) by (intro snapRun_OK[OF assms(1) _ assms(3)]) (simp add: survives_def runOK_def)
  then show ?thesis using storage_readable assms(3) by (auto simp: survives_def runOK_def)
qed

text \<open>The disk is full while the metadata of a new snapshot are written.\<close>

definition torn_storage :: persistentSnapshotStorage where
  "torn_storage = snd (NewSnapshotFile 200 5 2 [1] (old_storage\<lparr>ss_faults := [IoOk, IoOk, IoOk, IoFail 3]\<rparr>))"

theorem snapshots_survive_witness:
  "''tmp-snapshot0'' |\<in>| fmdom (ss_dirs torn_storage) \<and> storageOK torn_storage \<and> ''snapshot-100'' \<in> set (visible torn_storage)"
proof -
  let ?s = "old_storage\<lparr>ss_faults := [IoOk, IoOk, IoOk, IoFail 3]\<rparr>"
  have v: "storageOK old_storage" "take 9 (snapshotDir old_storage) \<noteq> ''snapshot-''" "visible old_storage = [''snapshot-100'']"
    "''tmp-snapshot0'' |\<in>| fmdom (ss_dirs torn_storage)"
    "fst (NewSnapshotFile 200 5 2 [1] ?s) = Inl (Error (Wrapf ''could not encode snapshot metadata'' (Wrapf ''could not write metadata'' SysErr)))"
    by code_simp+
  have "snapStep (old_storage, []) (?s, [])" by (rule snapStep.crash)
  moreover have "snapStep (?s, []) (torn_storage, [])"
    using snapStep.create[of 200 5 2 "[1]" ?s "fst (NewSnapshotFile 200 5 2 [1] ?s)" torn_storage "[]"] v(5) by (simp add: torn_storage_def prod_eq_iff)
  ultimately have "snapStep\<^sup>*\<^sup>* (old_storage, []) (torn_storage, [])" by (meson rtranclp.rtrancl_refl rtranclp.rtrancl_into_rtrancl)
  from snapshots_survive[OF this v(1,2)] v(3,4) show ?thesis by simp
qed


end
