(* ===== verification/SnapshotProps.thy ===== *)
theory SnapshotProps
  imports Snapshots ReplicationSpec StorageProps Samples
begin

text \<open>
  Taking a snapshot: what it does to the log.
\<close>

section \<open>Taking a snapshot\<close>






end
