(* ===== verification/LeaderProps.thy ===== *)
theory LeaderProps
  imports Machine Samples
begin

text \<open>
  What a leader does to its log: the steps of \<open>Machine\<close> seen through the log.
\<close>

section \<open>What leaves the log alone\<close>

named_theorems logquiet \<open>operations that do not touch the log\<close>

lemma logquiet_basic [logquiet]:
  "keepsA log (onSnapshots m2)" "keepsA log (getEntryOrFatal i)" "keepsA log (lastIndexA)"
  "keepsA log lastTermA" "keepsA log nextIndexA" "keepsA log (broadcast c)" "keepsA log (newCell v)"
  unfolding onSnapshots_def getEntryOrFatal_def lastIndexA_def lastTermA_def nextIndexA_def broadcast_def newCell_def
  by (intro keeps.from_get keeps.intros keeps.zoom; simp)+

lemma logquiet_node [logquiet]:
  "keepsA log resetSnapshotFiles" "keepsA log (cancelOperations now)" "keepsA log (nextConfiguration now c)"
  "keepsA log (sendAppendEntriesToPeers now)" "keepsA log (tryApplyReadOnlyOperations now)" "keepsA log (persistTermAndVote D)"
  by ((rule keeps_resetSnapshotFiles keeps_cancelOperations keeps_nextConfiguration keeps_sendToPeers; simp)+,
      unfold tryApplyReadOnlyOperations_def, intro keeps.intros logquiet_basic, simp, rule keeps_persist, simp)

lemma logquiet_roles [logquiet]: "keepsA log (becomeFollower D now leader t)"
  "keepsA log (applyConfiguration D now dat)" "keepsA log (logUpToDate vreq)" "keepsA log (completeSnapshot ireq res)"
  "keepsA log (installRestore D snapshot)"
  unfolding becomeFollower_def applyConfiguration_def logUpToDate_def completeSnapshot_def openSnapshot_def installRestore_def
  by ((intro quietI logquiet; simp)+)

lemma logquiet_handlers [logquiet]: "keepsA log (RequestVote D now req)" "keepsA log (receiveChunk now ireq trm)"
  "keepsA log (recognizeLeader D now leader t)"
  unfolding RequestVote_def receiveChunk_def openSnapshot_def recognizeLeader_def Let_def
  by ((intro quietI logquiet; simp)+)

lemma logquiet_install [logquiet]: "keepsA log (InstallSnapshot D now req)"
  unfolding InstallSnapshot_def by (intro quietI logquiet; simp)

lemma log_updFollower [simp]: "log (updFollower p f r) = log r"
  by (simp add: updFollower_def)

lemma logquiet_readEntries [logquiet]: "keepsA log (readEntries is)"
proof (induction "is")
  case (Cons i "is")
  then show ?case by (simp, intro quietI logquiet)
qed (simp add: relA_def)

lemma logquiet_commitScan [logquiet]: "keepsA log (commitScan is b)"
proof (induction "is" arbitrary: b)
  case (Cons i "is")
  then show ?case by (simp, intro quietI logquiet) simp_all
qed (simp add: relA_def)

lemma logquiet_replication [logquiet]:
  "keepsA log (sendInstallSnapshot_request i)" "keepsA log (prevTerm k)" "keepsA log (makeEntriesSlice n)"
  "keepsA log (advanceFollower p req)" "keepsA log (countResponse now k')" "keepsA log (heartbeatLoop now)" "keepsA log (commitLoop now)"
  unfolding sendInstallSnapshot_request_def followerSnapshot_def prevTerm_def makeEntriesSlice_def advanceFollower_def
    countResponse_def heartbeatLoop_def commitLoop_def Let_def
  by ((intro quietI logquiet; simp)+)

lemma logquiet_responses [logquiet]: "keepsA log (sendAppendEntries_request i)"
  "keepsA log (sendAppendEntries_response D now i p k req reply)"
  "keepsA log (sendInstallSnapshot_response D now i p ireq ireply)"
  unfolding sendAppendEntries_request_def sendAppendEntries_response_def sendInstallSnapshot_response_def Let_def
  by ((intro quietI logquiet; simp)+)

lemma logquiet_election [logquiet]: "keepsA log electionTicker" "keepsA log (sendRequestVote_request i prevote)"
  unfolding electionTicker_def sendRequestVote_request_def by ((intro quietI logquiet; simp)+)

lemma logquiet_apply [logquiet]:
  "keepsA log (advanceApplied D)" "keepsA log (applyOperation D oper ch)" "keepsA log applyLoopEnd"
  "keepsA log takeReads" "keepsA log (checkLease now oper ch')"
  unfolding advanceApplied_def applyOperation_def applyLoopEnd_def takeReads_def checkLease_def
  by ((intro quietI logquiet; simp split: prod.split)+)

lemma logquiet_applyNext [logquiet]: "keepsA log (applyNextEntry D now)" "keepsA log (applyFinish D la)"
  unfolding applyNextEntry_def applyFinish_def by ((intro quietI logquiet; simp)+)

lemma logquiet_serveReads [logquiet]: "keepsA log (serveReads D now ops)"
proof (induction ops)
  case (Cons x ops)
  obtain oper ch where "x = (oper, ch)" by (cases x)
  with Cons show ?case by (simp, intro quietI logquiet)
qed (simp add: relA_def)

lemma logquiet_snapshots [logquiet]:
  "keepsA log (readOnlyLoop D now)" "keepsA log (takeSnapshot_begin D now)" "keepsA log (takeSnapshot_write D s)"
  unfolding readOnlyLoop_def takeSnapshot_begin_def takeSnapshot_write_def
  by ((intro quietI logquiet; simp)+)

lemma logquiet_client [logquiet]:
  "keepsA log (newConfigurationFuture t)" "keepsA log (newOperationFuture t)" "keepsA log (respondConf fut c e)"
  "keepsA log (respondOp fut' e)" "keepsA log membershipGuard" "keepsA log Stop_begin"
  unfolding newConfigurationFuture_def newOperationFuture_def respondConf_def respondOp_def membershipGuard_def Stop_begin_def
  by ((intro quietI logquiet; simp)+)

lemma logquiet_reads [logquiet]: "keepsA log (submitReadOnlyOperation now bs ty t)"
  unfolding submitReadOnlyOperation_def Let_def by (intro quietI logquiet; simp)

section \<open>What changes it\<close>

text \<open>One entry of the current term is appended at the next index, or the log is compacted.\<close>

definition log_step :: "('f, 'r) deps \<Rightarrow> ('f, 'r) raft \<Rightarrow> ('f, 'r) raft \<Rightarrow> bool" where
  "log_step D r r' \<longleftrightarrow> log r' = log r
     \<or> (\<exists>e. NextIndex (log r) = Inr (Index e) \<and> Term e = currentTerm r \<and> AppendEntry (marshalEntry D) e (log r) = (Inr (), log r'))
     \<or> (\<exists>i. Compact (marshalEntry D) i (log r) = (Inr (), log r'))"

lemma step_quiet: "keepsA log m \<Longrightarrow> liveAt (log_step D) s m"
  by (simp add: liveAt_def relA_def log_step_def)

lemma step_change:
  assumes "m s = (res, s1)" "\<not> died res \<Longrightarrow> log_step D s s1" "\<And>y. keepsA log (g y)"
  shows "liveAt (log_step D) s (bindA m g)"
proof (cases res)
  case (Inr y)
  then show ?thesis using assms relAD[OF assms(3), of y s1 "fst (g y s1)" "snd (g y s1)"]
    by (auto simp: liveAt_def bindA_def log_step_def)
qed (use assms in \<open>auto simp: liveAt_def bindA_def\<close>)

lemma step_onLog:
  assumes "\<And>l'. m (log s) = (Inr (), l') \<Longrightarrow> log_step D s (s\<lparr>log := l'\<rparr>)" "\<And>y. keepsA log (g y)"
  shows "liveAt (log_step D) s (bindA (fatalA msg (onLog m)) g)"
proof (rule step_change[OF surjective_pairing])
  assume d: "\<not> died (fst (fatalA msg (onLog m) s))"
  have ne: "noErr (fatalA msg (onLog m))" by (rule noErr_intros)
  obtain u where "fatalA msg (onLog m) s = (Inr u, snd (fatalA msg (onLog m) s))"
    using noErr_runs[OF ne surjective_pairing d] by (metis prod.collapse)
  then obtain l' where "m (log s) = (Inr (), l')" "snd (fatalA msg (onLog m) s) = s\<lparr>log := l'\<rparr>"
    by (auto simp: onLog_def zoomA_eq_Inr)
  with assms(1) show "log_step D s (snd (fatalA msg (onLog m) s))" by auto
qed (rule assms(2))

text \<open>After a part that changes neither the log nor the term.\<close>

lemma step_after:
  assumes "keepsA log m" "keepsA stateOf m" "\<And>x s1. m s = (Inr x, s1) \<Longrightarrow> liveAt (log_step D) s1 (f x)"
  shows "liveAt (log_step D) s (bindA m f)"
proof (cases "m s")
  case (Pair res s1)
  have "log s1 = log s" "currentTerm s1 = currentTerm s"
    using relAD[OF assms(1) Pair] relAD[OF assms(2) Pair] by (auto simp: stateOf_def)
  then show ?thesis using Pair assms(3) by (cases res) (auto simp: liveAt_def bindA_def log_step_def)
qed

lemma step_get: "liveAt (log_step D) s (f s) \<Longrightarrow> liveAt (log_step D) s (bindA getA f)"
  by (simp add: liveAt_def)

lemma step_append:
  assumes "NextIndex (log s) = Inr (Index e)" "Term e = currentTerm s" "\<And>y. keepsA log (g y)"
  shows "liveAt (log_step D) s (bindA (fatalA msg (onLog (AppendEntry (marshalEntry D) e))) g)"
  using assms by (intro step_onLog) (auto simp: log_step_def)

lemma step_nextIndex: "nextIndexA s = (Inr ni, s1) \<Longrightarrow> NextIndex (log s1) = Inr ni"
  by (auto simp: nextIndexA_def)

lemma step_appendNext:
  assumes "\<And>ni y. keepsA log (g ni y)"
  shows "liveAt (log_step D) s (bindA nextIndexA (\<lambda>ni. bindA (fatalA msg (onLog (AppendEntry (marshalEntry D)
      (NewLogEntry ni (currentTerm s) bs ty)))) (g ni)))"
  by (intro step_after logquiet quiet step_append assms) (auto simp: nextIndexA_def NewLogEntry_def)

lemma step_compact: "(\<And>y. keepsA log (g y)) \<Longrightarrow> liveAt (log_step D) s (bindA (fatalA msg (onLog (Compact (marshalEntry D) i))) g)"
  by (intro step_onLog) (auto simp: log_step_def)

lemma submit_step: "liveAt (log_step D) s (SubmitOperation D now bs ty t)"
proof (cases ty)
  case Replicated
  show ?thesis unfolding SubmitOperation_def submitReplicatedOperation_def Replicated OperationType.case
    by (intro step_after[of "newOperationFuture t"] logquiet quiet step_get)
       (simp, intro conjI impI step_quiet logquiet step_appendNext quietI; simp)
qed (simp add: SubmitOperation_def, intro step_quiet quietI logquiet)+

lemma appendConfiguration_step:
  assumes "\<And>c. keepsA log (g c)"
  shows "liveAt (log_step D) s (bindA (appendConfiguration D c) g)"
proof (rule step_change[OF surjective_pairing])
  show "log_step D s (snd (appendConfiguration D c s))"
    if "\<not> died (fst (appendConfiguration D c s))"
  proof -
    have "liveAt (log_step D) s (appendConfiguration D c)"
      unfolding appendConfiguration_def Let_def
      by (intro step_after[of nextIndexA] step_after[of "readA _"] step_get step_append logquiet quiet quietI)
         (auto simp: nextIndexA_def NewLogEntry_def)
    then show ?thesis using that by (simp add: liveAt_def)
  qed
qed (rule assms)

lemma membership_step: "liveAt (log_step D) s (AddServer D now i a v t)" "liveAt (log_step D) s (RemoveServer D now i t)"
  unfolding AddServer_def RemoveServer_def
  by (intro step_after[of "newConfigurationFuture t"] step_after[of membershipGuard] logquiet quiet;
      simp split: option.split;
      intro conjI impI allI step_quiet[OF logquiet_client(3)] step_after[of "readA _"] quietI;
      simp; intro conjI impI step_quiet[OF logquiet_client(3)] appendConfiguration_step logquiet quietI; simp add: addFollower_def)+

lemma compact_step: "liveAt (log_step D) s (takeSnapshot_end D e)" "liveAt (log_step D) s (installCompact D req res)"
proof -
  show "liveAt (log_step D) s (takeSnapshot_end D e)" unfolding takeSnapshot_end_def
    by (intro step_get) (simp, intro conjI impI step_quiet step_after[of "modifyA _"] step_compact quietI logquiet; simp)
  show "liveAt (log_step D) s (installCompact D req res)" unfolding installCompact_def
    by (intro step_get) (simp, intro conjI impI step_quiet step_compact quietI logquiet)
qed

text \<open>A leader neither stands for election nor becomes the leader again.\<close>

lemma leader_votes:
  assumes "state s = Leader"
  shows "liveAt (log_step D) s (election D now)" "liveAt (log_step D) s (sendRequestVote_response D now i votes prevote req reply)"
proof -
  show "liveAt (log_step D) s (election D now)" by (simp add: liveAt_def election_def assms log_step_def)
  show "liveAt (log_step D) s (sendRequestVote_response D now i votes prevote req reply)"
  proof (cases reply)
    case (Inr res)
    have k: "log (snd (becomeFollower D now i t x)) = log x" for t x by (rule relAD[OF logquiet_roles(1) surjective_pairing])
    show ?thesis unfolding sendRequestVote_response_def Inr sum.case
      by (rule step_get)
         (auto simp: assms whenA_def bindA_def readA_def liveAt_def log_step_def k split: if_splits sum.splits)
  qed (simp add: sendRequestVote_response_def liveAt_def log_step_def)
qed

text \<open>The effect of such a step on the entries.\<close>

lemma log_step_grows:
  assumes "log_step D r r'" "wf_log (marshalEntry D) (log r)" "unat (lastIdx r) + 2 < 2 ^ 64"
  shows "wf_log (marshalEntry D) (log r') \<and>
    (\<forall>i. Index (hd (logview r')) < i \<and> i \<le> lastIdx r \<longrightarrow> lookup (logview r') i = lookup (logview r) i) \<and>
    (\<forall>i e. lastIdx r < i \<and> lookup (logview r') i = Some e \<longrightarrow> i = lastIdx r + 1 \<and> Term e = currentTerm r)"
proof -
  have le: "i \<le> Index (last v)" if "lookup v i = Some e" for v i e using that by (auto simp: lookup_def split: if_splits)
  show ?thesis using assms(1) unfolding log_step_def
  proof (elim disjE exE conjE)
    assume "log r' = log r"
    then show ?thesis using assms(2) le by (fastforce simp: not_le[symmetric])
  next
    fix e assume n: "NextIndex (log r) = Inr (Index e)" and t: "Term e = currentTerm r"
      and a: "AppendEntry (marshalEntry D) e (log r) = (Inr (), log r')"
    have i: "Index e = lastIdx r + 1" using n plog.last_laws(3)[OF assms(2)] by simp
    have a': "Log_AppendEntries (marshalEntry D) [e] (log r) = (Inr (), log r')" using a by (simp add: AppendEntry_def)
    have c: "contiguous (lastIdx r + 1) [e]" "unat (lastIdx r) + length [e] + 1 < 2 ^ 64" using i assms(3) by auto
    have l: "lastIdx r' = lastIdx r + 1" using plog.append_law[OF assms(2) c a'] i by simp
    have x: "i = lastIdx r + 1" if "lastIdx r < i" "i \<le> lastIdx r + 1" for i
      using that lastIdx_Suc[OF assms(2), of i] by (auto simp: order_le_less)
    note al = plog.append_lookup[OF assms(2) c a']
    show ?thesis
    proof (intro conjI allI impI; (elim conjE)?)
      fix j e' assume j: "lastIdx r < j" "lookup (logview r') j = Some e'"
      show ji: "j = lastIdx r + 1" using x[OF j(1)] le[OF j(2)] l by simp
      have "e' = strip e" using j al[of j] l by (simp add: ji not_le[symmetric] split: if_splits)
      then show "Term e' = currentTerm r" using t by simp
    qed (use plog.append_law[OF assms(2) c a'] al in simp_all)
  next
    fix i assume c: "Compact (marshalEntry D) i (log r) = (Inr (), log r')"
    have "wf_log (marshalEntry D) (log r')" using plog.compact_law[OF assms(2) c] by blast
    then show ?thesis using plog.compact_lookup(1,2)[OF assms(2) c] le[of "logview r"]
      by (auto simp: not_le[symmetric] split: if_splits)
  qed
qed

section \<open>The leader only appends\<close>

text \<open>C7. A leader only appends to its log: in any step of a node that is the leader, the log stays well formed,
every entry that is not compacted away by a snapshot is the same as before, and at most one entry is new, at the
next index and with the leader's term. The exceptions are a request for entries from a leader of the same or a
later term, the end of the installation of a snapshot from one, and the end of \<^verbatim>\<open>Stop\<close>, which closes the log.\<close>

theorem leader_append_only:
  assumes "node_step D r r'" "state r = Leader" "configuration r = Some c"
    and "wf_log (marshalEntry D) (log r)" "unat (lastIdx r) + 2 < 2 ^ 64"
    and "\<nexists>now req. currentTerm r \<le> ae_Term req \<and> runs (AppendEntries D now req) r r'"
    and "\<nexists>now req. runs (installFinish D now req) r r'" "\<not> runs Stop_end r r'"
  shows "wf_log (marshalEntry D) (log r') \<and>
    (\<forall>i. Index (hd (logview r')) < i \<and> i \<le> lastIdx r \<longrightarrow> lookup (logview r') i = lookup (logview r) i) \<and>
    (\<forall>i e. lastIdx r < i \<and> lookup (logview r') i = Some e \<longrightarrow> i = lastIdx r + 1 \<and> Term e = currentTerm r)"
proof (rule log_step_grows[OF _ assms(4,5)])
  note at = leader_votes[OF assms(2)] submit_step membership_step compact_step
  from assms(1) show "log_step D r r'"
  proof cases
    case (on_AppendEntries now req)
    then have "ae_Term req < currentTerm r" using assms(6) by (auto simp: not_le[symmetric])
    then have "AppendEntries D now req r = (Inr \<lparr>aer_Term = currentTerm r, aer_Success = False, aer_Index = 0\<rparr>, r)"
      using assms(2) by (simp add: AppendEntries_def)
    with on_AppendEntries show ?thesis by (auto simp: runs_def log_step_def)
  next
    case (on_Bootstrap members)
    have "snd (Bootstrap D members r) = r" using assms(3) by (simp add: Bootstrap_def)
    with on_Bootstrap show ?thesis by (auto simp: runs_def log_step_def)
  next
    case (on_Start now run)
    with assms(2) show ?thesis by (auto simp: runs_def Start_def start_def log_step_def)
  next
    case (on_Restart now run)
    with assms(2) show ?thesis by (simp add: Restart_def start_def log_step_def)
  next
    case (on_installFinish now req)
    with assms(7) show ?thesis by blast
  next
    case on_stopped
    with assms(8) show ?thesis by blast
  qed (erule runs_at, (rule at | rule step_quiet, rule logquiet))+
qed

definition appending_leader :: "(bytes list, nat) raft" where
  "appending_leader = (sample_node ''a'' Leader 2 ''a'' [emptyEntry, sample_entry 1 1 [7], sample_entry 2 2 [8]])\<lparr>commitIndex := 2\<rparr>"

lemma appending_leader_wf: "wf_log (marshalEntry sample_deps) (log appending_leader)"
  by (simp add: appending_leader_def sample_defs wf_log_def wf_entries_def encodable_def view_def strip_def)

lemma channels_parts:
  "keepsA nextCh (onLog m)" "keepsA nextCh resetSnapshotFiles" "keepsA nextCh (cancelOperations now)" "keepsA nextCh (nextConfiguration now c)"
  "keepsA nextCh (persistTermAndVote D)"
  by (unfold onLog_def) (rule keeps.zoom keeps_resetSnapshotFiles keeps_cancelOperations keeps_nextConfiguration keeps_persist; simp)+

lemma no_new_channel: "keepsA nextCh m \<Longrightarrow> nextCh s' \<noteq> nextCh s \<Longrightarrow> \<not> runs m s s'"
  by (auto simp: runs_def dest: relAD)

lemma channels_merge: "keepsA nextCh (mergeEntries now es)"
proof (induction es)
  case (Cons e es)
  then show ?case by (unfold mergeEntries.simps lastIndexA_def getEntryOrFatal_def) (intro quietI channels_parts)
qed (simp add: relA_def)

lemma channels: "keepsA nextCh (AppendEntries D now req)" "keepsA nextCh (installFinish D now ireq)" "keepsA nextCh Stop_end"
  unfolding AppendEntries_def recognizeLeader_def becomeFollower_def checkPrevious_def acceptEntries_def installFinish_def
    applyConfiguration_def Stop_end_def lastIndexA_def nextIndexA_def getEntryOrFatal_def broadcast_def
  by (intro quietI channels_parts channels_merge; simp)+

text \<open>No request makes the sample step: a request for entries does not make a client's channel.\<close>

theorem leader_append_only_witness:
  "wf_log (marshalEntry sample_deps) (log (snd (SubmitOperation sample_deps 9 [5] Replicated 70 appending_leader)))"
proof -
  let ?m = "SubmitOperation sample_deps 9 [5] Replicated 70" let ?r = "snd (?m appending_leader)"
  have v: "\<not> died (fst (?m appending_leader))" "state appending_leader = Leader" "nextCh ?r = 1" "nextCh appending_leader = 0"
    "unat (lastIdx appending_leader) = 2" by code_simp+
  have st: "node_step sample_deps appending_leader ?r"
    by (rule on_SubmitOperation[of sample_deps 9 "[5]" Replicated 70]) (use v(1) in \<open>auto simp: runs_def intro: surjective_pairing\<close>)
  have ch: "nextCh ?r \<noteq> nextCh appending_leader" using v by simp
  have c: "configuration appending_leader = Some sample_conf" by (simp add: appending_leader_def sample_node_def)
  show ?thesis
    by (rule leader_append_only[OF st v(2) c appending_leader_wf, THEN conjunct1]) (use v(5) no_new_channel[OF channels(1) ch] no_new_channel[OF channels(2) ch] no_new_channel[OF channels(3) ch] in auto)
qed

end
