(* ===== verification/ReadProps.thy ===== *)
theory ReadProps
  imports Apply Samples
begin

text \<open>
  Read-only operations: what a pass of \<^verbatim>\<open>readOnlyLoop\<close> answers to each pending read, when no other
  goroutine runs while the state machine is called.
\<close>

text \<open>The answer to a read: refused without a valid lease if it relies on one, else the state machine's.\<close>

definition readAnswer :: "('f, 'r) deps \<Rightarrow> time \<Rightarrow> ('f, 'r) raft \<Rightarrow> Operation \<Rightarrow> 'r OperationResponse result" where
  "readAnswer D now r oper =
     (if op_Type oper = LeaseBasedReadOnly \<and> \<not> isValid now (leaderLease (manager r))
      then \<lparr>res_success = zeroResponse, res_err = Some ErrInvalidLease\<rparr>
      else \<lparr>res_success = \<lparr>or_Operation = oper, or_ApplicationResponse = Some (fst (fsmApply D oper (fsm r)))\<rparr>, res_err = None\<rparr>)"


lemma readAnswer_upd [simp]: "readAnswer D now (r\<lparr>opChans := c\<rparr>) oper = readAnswer D now r oper"
  by (simp add: readAnswer_def)










end
