(* ===== verification/StopProps.thy ===== *)
theory StopProps
  imports Machine Samples
begin

text \<open>
  A node that was stopped: what the steps of \<open>Machine\<close> still do between \<^verbatim>\<open>Stop\<close> and the next start.
\<close>













definition stopped_node :: "(bytes list, nat) raft" where
  "stopped_node = (sample_node ''a'' Shutdown 2 ''a'' [emptyEntry, sample_entry 1 1 [7]])
     \<lparr>followerAt := (\<lambda>_. newFollower\<lparr>f_snapshot := Some \<lparr>sf_dir = [], sf_tmpDir = [], sf_file = None,
        sf_metadata = \<lparr>md_LastIncludedIndex = 1, md_LastIncludedTerm = 1, md_Configuration = [1]\<rparr>\<rparr>\<rparr>)\<rparr>"



text \<open>The unintended case happens: the answer to a snapshot makes a stopped node a follower again.\<close>

lemma stopped_node_resumes:
  "state stopped_node = Shutdown \<and>
   state (snd (sendInstallSnapshot_response sample_deps 500 ''b'' 1
     \<lparr>is_LeaderID = ''a'', is_Term = 2, is_LastIncludedIndex = 1, is_LastIncludedTerm = 1, is_Configuration = [1],
      is_Bytes = [5], is_Offset = 0, is_Done = True\<rparr> (Inr \<lparr>isr_Term = 3, isr_BytesWritten = 0\<rparr>) stopped_node)) = Follower"
  by code_simp

end
