(* ===== verification/SafeActions.thy ===== *)
theory SafeActions
  imports Prelude
begin

text \<open>
  Actions that do not panic: the rules that derive it from the parts of an action, for an invariant of
  the state that the action keeps.
\<close>

section \<open>Actions that do not panic\<close>

text \<open>From a state in \<open>I\<close> the action does not panic, and unless it ends the process it stays in \<open>I\<close>.\<close>

definition safeA :: "('s \<Rightarrow> bool) \<Rightarrow> ('s, 'a) action \<Rightarrow> bool" where
  "safeA I m \<longleftrightarrow> (\<forall>s. I s \<longrightarrow> (\<forall>p. fst (m s) \<noteq> Inl (Panic p)) \<and> (\<not> died (fst (m s)) \<longrightarrow> I (snd (m s))))"

lemma safeD: "safeA I m \<Longrightarrow> m s = (out, s') \<Longrightarrow> I s \<Longrightarrow> out \<noteq> Inl (Panic p) \<and> (\<not> died out \<longrightarrow> I s')"
  by (metis fst_conv safeA_def snd_conv)

lemma safeI: "(\<And>s out s'. I s \<Longrightarrow> m s = (out, s') \<Longrightarrow> (\<forall>p. out \<noteq> Inl (Panic p)) \<and> (\<not> died out \<longrightarrow> I s')) \<Longrightarrow> safeA I m"
  by (metis prod.collapse safeA_def)

lemma safe_bind:
  assumes "safeA I m" "\<And>x. safeA I (f x)"
  shows "safeA I (bindA m f)"
proof (rule safeI)
  fix s out s' assume I: "I s" and b: "bindA m f s = (out, s')"
  obtain r1 s1 where m: "m s = (r1, s1)" by (cases "m s")
  note s1 = safeD[OF assms(1) m I]
  show "(\<forall>p. out \<noteq> Inl (Panic p)) \<and> (\<not> died out \<longrightarrow> I s')"
  proof (cases r1)
    case (Inr x)
    then have "f x s1 = (out, s')" "I s1" using b m s1 by (auto simp: bindA_def)
    then show ?thesis using safeD[OF assms(2)] by blast
  qed (use b m s1 in \<open>auto simp: bindA_def\<close>)
qed

lemma safe_get: "(\<And>s. I s \<Longrightarrow> safeA I (f s)) \<Longrightarrow> safeA I (bindA getA f)"
  by (simp add: safeA_def)

lemma safe_basic:
  "safeA I (returnA x)" "safeA I (raiseA (Error e))" "safeA I (raiseA (Fatal msg))"
  "(\<And>s. I s \<Longrightarrow> I (g s)) \<Longrightarrow> safeA I (modifyA g)" "(\<And>s p. I s \<Longrightarrow> h s \<noteq> Inl (Panic p)) \<Longrightarrow> safeA I (readA h)"
  by (auto simp: safeA_def)

lemma safe_cond:
  "(b \<Longrightarrow> safeA I m) \<Longrightarrow> safeA I (whenA b m)" for m :: "('s, unit) action"
  by (cases b) (auto intro: safe_basic)

lemma safe_if: "(b \<Longrightarrow> safeA I m) \<Longrightarrow> (\<not> b \<Longrightarrow> safeA I m') \<Longrightarrow> safeA I (if b then m else m')"
  by simp

lemma safe_cases:
  "safeA I m \<Longrightarrow> (\<And>x. safeA I (f x)) \<Longrightarrow> safeA I (case v of None \<Rightarrow> m | Some x \<Rightarrow> f x)"
  "(\<And>x. safeA I (g x)) \<Longrightarrow> (\<And>y. safeA I (h y)) \<Longrightarrow> safeA I (case w of Inl x \<Rightarrow> g x | Inr y \<Rightarrow> h y)"
  "(\<And>x y. safeA I (k x y)) \<Longrightarrow> safeA I (case p of (x, y) \<Rightarrow> k x y)"
  by (auto split: option.split sum.split prod.split)

lemma safe_wrapped:
  assumes "safeA I m"
  shows "safeA I (wrapA msg m)" "safeA I (fatalA msg m)" "safeA I (tryA m)"
proof -
  have w: "wrapExn msg y = Panic p \<longleftrightarrow> y = Panic p" "ends (wrapExn msg y) = ends y" "fatalExn msg y = Panic p \<longleftrightarrow> y = Panic p" "ends (fatalExn msg y)"
    for y p by (cases y; simp)+
  have s: "(\<forall>p. fst (op m s) \<noteq> Inl (Panic p)) \<and> (\<not> died (fst (op m s)) \<longrightarrow> I (snd (op m s)))" if "I s" "op = wrapA msg \<or> op = fatalA msg" for s op
  proof (cases "m s")
    case (Pair out s1)
    show ?thesis using safeD[OF assms Pair that(1)] that(2) by (cases out) (auto simp: wrapA_def fatalA_def Pair w)
  qed
  then show "safeA I (wrapA msg m)" "safeA I (fatalA msg m)" unfolding safeA_def by blast+
  show "safeA I (tryA m)" unfolding safeA_def
  proof (intro allI impI)
    fix s assume "I s"
    obtain out s1 where m: "m s = (out, s1)" by (cases "m s")
    show "(\<forall>p. fst (tryA m s) \<noteq> Inl (Panic p)) \<and> (\<not> died (fst (tryA m s)) \<longrightarrow> I (snd (tryA m s)))"
      using safeD[OF assms m \<open>I s\<close>] by (cases out; cases "projl out") (auto simp: tryA_def m)
  qed
qed

lemma safe_zoom:
  assumes "safeA J m" "\<And>s. I s \<Longrightarrow> J (get s)" "\<And>s t. I s \<Longrightarrow> J t \<Longrightarrow> I (put t s)"
  shows "safeA I (zoomA get put m)"
  by (rule safeI) (use assms in \<open>auto simp: zoomA_def dest: safeD split: prod.splits\<close>)

lemmas safe_intros = safe_get safe_bind safe_basic safe_cond safe_if safe_cases safe_wrapped

lemma safe_keeps: "safeA (\<lambda>_. True) m \<Longrightarrow> keepsA f m \<Longrightarrow> (\<And>s s'. f s' = f s \<Longrightarrow> I s \<Longrightarrow> I s') \<Longrightarrow> safeA I m"
  unfolding safeA_def relA_def by blast


section \<open>Actions that return\<close>

text \<open>From a state in \<open>I\<close> the action returns a value, in a state of \<open>I\<close>.\<close>

definition totalA :: "('s \<Rightarrow> bool) \<Rightarrow> ('s, 'a) action \<Rightarrow> bool" where
  "totalA I m \<longleftrightarrow> (\<forall>s. I s \<longrightarrow> (\<exists>x s'. m s = (Inr x, s') \<and> I s'))"

lemma totalD: "totalA I m \<Longrightarrow> I s \<Longrightarrow> \<exists>x s'. m s = (Inr x, s') \<and> I s'"
  by (simp add: totalA_def)

lemma total_bind: "totalA I m \<Longrightarrow> (\<And>x. totalA I (f x)) \<Longrightarrow> totalA I (bindA m f)"
  unfolding totalA_def by (metis bindA_Inr)

lemma total_get: "(\<And>s. I s \<Longrightarrow> totalA I (f s)) \<Longrightarrow> totalA I (bindA getA f)"
  by (simp add: totalA_def)

lemma total_basic:
  "totalA I (returnA x)" "(\<And>s. I s \<Longrightarrow> I (g s)) \<Longrightarrow> totalA I (modifyA g)" "(\<And>s. I s \<Longrightarrow> \<exists>y. h s = Inr y) \<Longrightarrow> totalA I (readA h)"
  by (auto simp: totalA_def)

lemma total_cond: "(b \<Longrightarrow> totalA I m) \<Longrightarrow> totalA I (whenA b m)" for m :: "('s, unit) action"
  by (cases b) (auto intro: total_basic)

lemma total_if: "(b \<Longrightarrow> totalA I m) \<Longrightarrow> (\<not> b \<Longrightarrow> totalA I m') \<Longrightarrow> totalA I (if b then m else m')"
  by simp

lemma total_option: "v \<noteq> None \<Longrightarrow> (\<And>x. totalA I (f x)) \<Longrightarrow> totalA I (case v of None \<Rightarrow> m | Some x \<Rightarrow> f x)"
  by (cases v) auto

lemma total_wrapped:
  assumes "totalA I m"
  shows "totalA I (wrapA msg m)" "totalA I (fatalA msg m)" "totalA I (tryA m)"
  using assms unfolding totalA_def by (fastforce simp: tryA_eq_Inr)+

lemma total_zoom:
  assumes "totalA J m" "\<And>s. I s \<Longrightarrow> J (get s)" "\<And>s t. I s \<Longrightarrow> J t \<Longrightarrow> I (put t s)"
  shows "totalA I (zoomA get put m)"
  using assms unfolding totalA_def by (fastforce simp: zoomA_eq_Inr)

lemmas total_intros = total_get total_bind total_basic total_cond total_if total_wrapped

end
