(* ===== verification/SafeStores.thy ===== *)
theory SafeStores
  imports SafeActions LogStore StateStore SnapshotStore
begin

text \<open>
  The stores do not panic: the log as long as it holds its placeholder entry, the state storage and the
  snapshot storage always.
\<close>

abbreviation hasEntry :: "persistentLog \<Rightarrow> bool" where
  "hasEntry l \<equiv> entries l \<noteq> []"

named_theorems safe_ops \<open>operations that do not panic\<close>

lemma io_result_cases: "io_result x \<noteq> Inl (Panic p)"
  by (cases x) auto

section \<open>Log\<close>

lemma safe_syscall [safe_ops]: "safeA hasEntry syscall"
  by (simp add: safeA_def syscall_def io_result_cases)

lemma safe_withFile: "(\<And>pos. safeA I (f pos)) \<Longrightarrow> safeA I (withFile f)"
  by (auto simp: safeA_def withFile_def split: logFile.split)

lemma safe_files [safe_ops]:
  "safeA hasEntry (fileWrite bs)" "safeA hasEntry fileSeekCurrent" "safeA hasEntry (fileSeekStart off)" "safeA hasEntry fileSync"
  "safeA hasEntry (fileTruncate n)"
proof -
  show "safeA hasEntry (fileWrite bs)"
    unfolding fileWrite_def by (rule safe_withFile) (simp add: safeA_def io_result_cases Let_def)
  show "safeA hasEntry fileSeekCurrent" "safeA hasEntry (fileSeekStart off)" "safeA hasEntry fileSync" "safeA hasEntry (fileTruncate n)"
    unfolding fileSeekCurrent_def fileSeekStart_def fileSync_def fileTruncate_def
    by (intro safe_withFile safe_intros safe_ops; simp)+
qed

lemma safe_encode [safe_ops]: "(\<And>bs. safeA I (w bs)) \<Longrightarrow> safeA I (encodeLogEntry mar w e)"
  unfolding encodeLogEntry_def by (intro safe_intros)

lemma safe_writeEntries [safe_ops]: "safeA hasEntry (writeEntries mar es)"
proof (induction es)
  case (Cons e es)
  then show ?case unfolding writeEntries.simps by (intro safe_intros safe_ops)
qed (unfold writeEntries.simps, rule safe_intros)

lemma safe_log_append [safe_ops]: "safeA hasEntry (Log_AppendEntries mar es)"
  unfolding Log_AppendEntries_def by (intro safe_intros safe_ops) simp

lemma safe_AppendEntry [safe_ops]: "safeA hasEntry (AppendEntry mar e)"
  unfolding AppendEntry_def by (rule safe_log_append)

lemma reads_safe:
  "hasEntry l \<Longrightarrow> Contains i l \<noteq> Inl (Panic p)" "hasEntry l \<Longrightarrow> GetEntry i l \<noteq> Inl (Panic p)"
  "hasEntry l \<Longrightarrow> LastIndex l \<noteq> Inl (Panic p)" "hasEntry l \<Longrightarrow> LastTerm l \<noteq> Inl (Panic p)" "hasEntry l \<Longrightarrow> NextIndex l \<noteq> Inl (Panic p)"
  by (auto simp: Contains_def GetEntry_def LastIndex_def LastTerm_def NextIndex_def lastEntry_def Let_def split: list.splits)

text \<open>A position that \<^verbatim>\<open>Contains\<close> admits is not the placeholder's, so the log is not emptied.\<close>

lemma checkIndex_pos: "checkIndex what i l = (Inr k, l') \<Longrightarrow> l' = l \<and> 0 < k \<and> k < length (entries l)"
  by (auto simp: checkIndex_def bindA_eq_Inr Contains_def logIndexOf_def Let_def unat_gt_0 word_le_nat_alt unat_of_nat
      split: if_splits list.splits)

lemma safe_checkIndex: "(\<And>k. 0 < k \<Longrightarrow> safeA hasEntry (f k)) \<Longrightarrow> safeA hasEntry (bindA (checkIndex what i) f)"
proof (rule safeI)
  fix l out l' assume f: "\<And>k. 0 < k \<Longrightarrow> safeA hasEntry (f k)" and l: "hasEntry l" and b: "bindA (checkIndex what i) f l = (out, l')"
  have c: "safeA hasEntry (checkIndex what i)"
    unfolding checkIndex_def by (intro safe_intros reads_safe)
  obtain r1 l1 where m: "checkIndex what i l = (r1, l1)" by (cases "checkIndex what i l")
  show "(\<forall>p. out \<noteq> Inl (Panic p)) \<and> (\<not> died out \<longrightarrow> hasEntry l')"
  proof (cases r1)
    case (Inr k)
    with m b l show ?thesis using checkIndex_pos[of what i l k l1] safeD[OF f, of k l out l'] by (auto simp: bindA_def)
  qed (use b m safeD[OF c m l] in \<open>auto simp: bindA_def\<close>)
qed

lemma safe_Truncate [safe_ops]: "safeA hasEntry (Truncate i)"
  unfolding Truncate_def Let_def by (intro safe_checkIndex safe_intros safe_ops) simp

section \<open>State storage\<close>

lemma safe_state_io [safe_ops]: "safeA (\<lambda>_. True) st_syscall" "safeA (\<lambda>_. True) (st_tmpWrite bs)" "safeA (\<lambda>_. True) st_removeTmp"
  by (simp_all add: safeA_def st_syscall_def st_tmpWrite_def st_removeTmp_def io_result_cases)

lemma safe_SetState [safe_ops]: "safeA (\<lambda>_. True) (SetState mar t v)"
  unfolding SetState_def writeState_def encodePersistentState_def Let_def by (intro safe_intros safe_ops TrueI)

section \<open>Snapshot storage\<close>

lemma safe_ss_syscall [safe_ops]: "safeA (\<lambda>_. True) ss_syscall"
  by (simp add: safeA_def ss_syscall_def io_result_cases)

lemma safe_write [safe_ops]: "safeA (\<lambda>_. True) (SF_Write bs f)"
  by (auto simp: safeA_def SF_Write_def Let_def io_result_cases split: option.split sum.split)

lemma safe_encodeMetadata [safe_ops]: "safeA (\<lambda>_. True) (encodeMetadata d md)"
  unfolding encodeMetadata_def Let_def by (intro safe_intros) (simp add: safeA_def io_result_cases)

lemma safe_snapshot_files [safe_ops]:
  "safeA (\<lambda>_. True) (SF_Close f)" "safeA (\<lambda>_. True) (SF_Discard f)" "safeA (\<lambda>_. True) (SF_SeekCurrent f)"
  "safeA (\<lambda>_. True) (SF_SeekStart n f)" "safeA (\<lambda>_. True) (SF_ReadAll f)" "safeA (\<lambda>_. True) (NewSnapshotFile now i t c)"
  "safeA (\<lambda>_. True) SnapshotFile"
  unfolding SF_Close_def SF_Discard_def SF_SeekCurrent_def SF_SeekStart_def SF_ReadAll_def NewSnapshotFile_def SnapshotFile_def
    directories_def renameDir_def removeAllDir_def openFile_def decodeMetadata_def Let_def
  by (intro safe_intros safe_ops TrueI)+

end
