(* ===== verification/PanicProps.thy ===== *)
theory PanicProps
  imports Machine Samples SafeStores
begin

text \<open>
  No run-time panic: a node that has a configuration, a committed one, and an open log cannot be brought
  down by a nil pointer or an index out of range, whatever requests and client calls it gets. As in a type
  safety proof, each operation is shown not to be stuck and to keep what the next one needs.
\<close>

definition typed :: "('f, 'r) raft \<Rightarrow> bool" where
  "typed r \<longleftrightarrow> hasEntry (log r) \<and> configuration r \<noteq> None \<and> committedConfiguration r \<noteq> None"

lemma safe_onLog: "safeA hasEntry m \<Longrightarrow> safeA typed (onLog m)"
  unfolding onLog_def by (rule safe_zoom) (auto simp: typed_def)

lemma safe_onSnapshots: "safeA (\<lambda>_. True) m \<Longrightarrow> safeA typed (onSnapshots m)"
  unfolding onSnapshots_def by (rule safe_zoom) (auto simp: typed_def)

lemma safe_update: "log (g r) = log r \<Longrightarrow> configuration (g r) = configuration r \<Longrightarrow>
    committedConfiguration (g r) = committedConfiguration r \<Longrightarrow> typed r \<Longrightarrow> typed (g r)"
  by (simp add: typed_def)

lemma confOf_safe: "typed r \<Longrightarrow> confOf r \<noteq> Inl (Panic p)" "typed r \<Longrightarrow> hasQuorum n r \<noteq> Inl (Panic p)" "typed r \<Longrightarrow> isVoter i r \<noteq> Inl (Panic p)"
  "typed r \<Longrightarrow> isMember i r \<noteq> Inl (Panic p)" "typed r \<Longrightarrow> isSingleServerCluster r \<noteq> Inl (Panic p)"
  "typed r \<Longrightarrow> pendingConfigurationChange r \<noteq> Inl (Panic p)" "typed r \<Longrightarrow> countMatches j r \<noteq> Inl (Panic p)"
  by (auto simp: typed_def confOf_def hasQuorum_def isVoter_def isMember_def isSingleServerCluster_def pendingConfigurationChange_def
      countMatches_def split: option.splits)

lemma typed_log: "typed r \<Longrightarrow> hasEntry (log r)" "typed r \<Longrightarrow> committedConfiguration r \<noteq> None"
  by (simp_all add: typed_def)

lemma committedThisTerm_safe: "typed r \<Longrightarrow> committedThisTerm r \<noteq> Inl (Panic p)"
  using reads_safe(1,2)[OF typed_log(1), of r]
  by (cases "GetEntry (commitIndex r) (log r)"; cases "projl (GetEntry (commitIndex r) (log r))")
     (auto simp: committedThisTerm_def split: sum.splits bool.splits)

lemma typed_reads [safe_ops]: "safeA typed (getEntryOrFatal i)" "safeA typed lastIndexA" "safeA typed lastTermA" "safeA typed nextIndexA"
  "safeA typed (broadcast c)" "safeA typed (newCell v)"
  unfolding getEntryOrFatal_def lastIndexA_def lastTermA_def nextIndexA_def broadcast_def newCell_def
  by (intro safe_intros reads_safe typed_log; simp add: typed_def)+

lemma typed_persist [safe_ops]: "safeA typed (persistTermAndVote D)"
  unfolding persistTermAndVote_def by (intro safe_intros safe_zoom[of "\<lambda>_. True"] safe_ops) (simp_all add: typed_def)

lemma typed_closeFollowerSnapshots [safe_ops]: "safeA typed (closeFollowerSnapshots ps)"
proof (induction ps)
  case (Cons p ps)
  then show ?case unfolding closeFollowerSnapshots.simps
    by (intro safe_intros safe_onSnapshots safe_ops) (simp_all add: typed_def updFollower_def)
qed (unfold closeFollowerSnapshots.simps, rule safe_intros)

lemma typed_roles [safe_ops]: "safeA typed resetSnapshotFiles" "safeA typed (cancelOperations now)" "safeA typed (tryApplyReadOnlyOperations now)"
  unfolding resetSnapshotFiles_def cancelOperations_def tryApplyReadOnlyOperations_def
  by (intro safe_intros safe_onSnapshots safe_ops; simp add: typed_def)+

lemma typed_becomeFollower [safe_ops]: "safeA typed (becomeFollower D now leader t)" "safeA typed (recognizeLeader D now leader t)"
  unfolding recognizeLeader_def becomeFollower_def by (intro safe_intros safe_ops; simp add: typed_def)+

lemma typed_nextFollowers: "log (nextFollowers cur nxt r) = log r" "committedConfiguration (nextFollowers cur nxt r) = committedConfiguration r"
  "configuration (nextFollowers cur nxt r) = configuration r"
  by (simp_all add: nextFollowers_def keeps_addFollowers)

lemma typed_nextConfiguration [safe_ops]: "c \<noteq> None \<Longrightarrow> safeA typed (nextConfiguration now c)"
  unfolding nextConfiguration_def stepdown_def
  by (cases c; simp) (intro safe_intros safe_ops confOf_safe; simp add: typed_def typed_nextFollowers)

lemma conflictIndex_safe: "hasEntry l \<Longrightarrow> conflictIndex t lo i l \<noteq> Inl (Panic p)"
proof (induction t lo i l rule: conflictIndex.induct)
  case (1 t lo i l)
  have f: "fatalExn msg x \<noteq> Panic p" if "x \<noteq> Panic p" for msg x using that by (cases x) auto
  show ?case using 1 reads_safe(2)[OF 1(2), of i] f by (subst conflictIndex.simps) (auto split: sum.split)
qed

lemma typed_checkPrevious [safe_ops]: "safeA typed (checkPrevious req)"
  unfolding checkPrevious_def by (intro safe_intros safe_ops conflictIndex_safe typed_log)

lemma typed_merge [safe_ops]: "safeA typed (mergeEntries now es)"
proof (induction es)
  case (Cons e es)
  then show ?case unfolding mergeEntries.simps by (intro safe_intros safe_onLog safe_ops confOf_safe typed_log)
qed (unfold mergeEntries.simps, rule safe_intros)




text \<open>\<^verbatim>\<open>r.snapshot\<close> is dereferenced where it was just set.\<close>

lemma safe_open:
  assumes "\<And>s. safeA typed (f s)" "safeA typed m"
  shows "safeA typed (bindA getA (\<lambda>r. bindA (whenA (r_snapshot r = None) (bindA m (\<lambda>s. modifyA (\<lambda>r. r\<lparr>r_snapshot := Some s\<rparr>)))) (\<lambda>_. bindA openSnapshot f)))"
proof (rule safeI)
  fix r out r' assume r: "typed r" and
    b: "bindA getA (\<lambda>r. bindA (whenA (r_snapshot r = None) (bindA m (\<lambda>s. modifyA (\<lambda>r. r\<lparr>r_snapshot := Some s\<rparr>)))) (\<lambda>_. bindA openSnapshot f)) r = (out, r')"
  have o: "bindA openSnapshot f (t\<lparr>r_snapshot := Some s\<rparr>) = f s (t\<lparr>r_snapshot := Some s\<rparr>)" "r_snapshot t = Some s \<Longrightarrow> bindA openSnapshot f t = f s t"
    for t s by (simp_all add: openSnapshot_def bindA_readA)
  have ok: "(\<forall>p. out \<noteq> Inl (Panic p)) \<and> (\<not> died out \<longrightarrow> typed r')" if "f s t = (out, r')" "typed t" for s t
    using safeD[OF assms(1) that] by blast
  have d: "typed (t\<lparr>r_snapshot := Some s\<rparr>)" if "typed t" for t s using that by (simp add: typed_def)
  show "(\<forall>p. out \<noteq> Inl (Panic p)) \<and> (\<not> died out \<longrightarrow> typed r')"
  proof (cases "r_snapshot r")
    case None
    obtain r1 t where m: "m r = (r1, t)" by (cases "m r")
    note mt = safeD[OF assms(2) m r]
    show ?thesis
    proof (cases r1)
      case (Inr s)
      then have "f s (t\<lparr>r_snapshot := Some s\<rparr>) = (out, r')" using b None m o(1) by (simp add: bindA_assoc bindA_Inr)
      then show ?thesis using ok d mt Inr by auto
    next
      case (Inl x)
      then have "out = Inl x" "r' = t" using b None m by (auto simp: bindA_assoc bindA_Inl)
      then show ?thesis using mt Inl by auto
    qed
  next
    case (Some s)
    then show ?thesis using b o(2)[OF Some] ok[OF _ r] by simp
  qed
qed

lemma safe_complete: "safeA typed (bindA (modifyA (\<lambda>r. r\<lparr>r_snapshot := Some s\<rparr>)) (\<lambda>_. let res = x in if b then returnA (ISReply (res :: InstallSnapshotResponse)) else completeSnapshot req res))"
proof (rule safeI)
  fix r out r' assume r: "typed r"
    and run: "bindA (modifyA (\<lambda>r. r\<lparr>r_snapshot := Some s\<rparr>)) (\<lambda>_. let res = x in if b then returnA (ISReply (res :: InstallSnapshotResponse)) else completeSnapshot req res) r = (out, r')"
  let ?rest = "bindA (fatalA ''failed to close snapshot file'' (onSnapshots (SF_Close s))) (\<lambda>_.
     bindA (modifyA (\<lambda>r. r\<lparr>r_snapshot := None, lastIncludedIndex := is_LastIncludedIndex req,
       lastIncludedTerm := is_LastIncludedTerm req\<rparr>)) (\<lambda>_.
     bindA (tryA (readA (\<lambda>r. GetEntry (is_LastIncludedIndex req) (log r)))) (\<lambda>e.
     if (case e of Inl _ \<Rightarrow> False | Inr entry \<Rightarrow> Term entry = is_LastIncludedTerm req)
     then returnA (ISWaitApplied x)
     else bindA (fatalA ''failed to get snapshot file'' (onSnapshots SnapshotFile)) (\<lambda>snapshot.
          returnA (ISRestore x snapshot)))))"
  have c: "completeSnapshot req x (r\<lparr>r_snapshot := Some s\<rparr>) = ?rest (r\<lparr>r_snapshot := Some s\<rparr>)"
    by (simp add: completeSnapshot_def openSnapshot_def bindA_readA)
  have t: "typed (r\<lparr>r_snapshot := Some s\<rparr>)" using r by (simp add: typed_def)
  have "safeA typed ?rest" by (intro safe_intros safe_onSnapshots safe_ops reads_safe typed_log; simp add: typed_def)
  from safeD[OF this _ t] show "(\<forall>p. out \<noteq> Inl (Panic p)) \<and> (\<not> died out \<longrightarrow> typed r')"
    using run c t by (cases b) auto
qed

lemma typed_receiveChunk [safe_ops]: "safeA typed (receiveChunk now req trm)"
  unfolding receiveChunk_def
  by (rule safe_get, rule safe_bind, (intro safe_intros safe_onSnapshots safe_ops; simp add: typed_def),
      rule safe_open, rule safe_bind, (intro safe_intros safe_onSnapshots safe_ops),
      rule safe_if, rule safe_basic, rule safe_bind, (intro safe_intros safe_onSnapshots safe_ops),
      rule safe_complete, (intro safe_intros safe_onSnapshots safe_ops))


lemma typed_sendToPeers [safe_ops]: "safeA typed (sendAppendEntriesToPeers now)"
  unfolding sendAppendEntriesToPeers_def by (intro safe_intros safe_ops confOf_safe; simp add: typed_def)

lemma typed_futures [safe_ops]: "safeA typed (newConfigurationFuture t)" "safeA typed (newOperationFuture t)"
  "safeA typed (respondConf fut c e)" "safeA typed (respondOp fut' e)" "safeA typed membershipGuard"
  unfolding newConfigurationFuture_def newOperationFuture_def respondConf_def respondOp_def membershipGuard_def
  by (intro safe_intros confOf_safe committedThisTerm_safe; simp add: typed_def)+

lemma conf_codec_safe: "r_encodeConfiguration D c \<noteq> Inl (Panic p)" "r_decodeConfiguration D bs \<noteq> Inl (Panic p)"
  by (auto simp: r_encodeConfiguration_def r_decodeConfiguration_def split: sum.split)

lemma typed_appendConfiguration [safe_ops]: "safeA typed (appendConfiguration D c)"
  unfolding appendConfiguration_def Let_def by (intro safe_intros safe_onLog safe_ops conf_codec_safe)


lemma typed_becomeLeader [safe_ops]: "safeA typed (becomeLeader D now)" "safeA typed (becomeCandidate D)" "safeA typed becomePreCandidate"
  unfolding becomeLeader_def becomeCandidate_def becomePreCandidate_def
  by (intro safe_intros safe_onLog safe_ops; simp add: typed_def)+


lemma typed_commitScan [safe_ops]: "safeA typed (commitScan is b)"
proof (induction "is" arbitrary: b)
  case (Cons i "is")
  then show ?case unfolding commitScan.simps by (intro safe_intros safe_ops confOf_safe; simp add: typed_def)
qed (unfold commitScan.simps, rule safe_intros)


lemma typed_applyConfiguration [safe_ops]: "safeA typed (applyConfiguration D now dat)"
  unfolding applyConfiguration_def by (intro safe_intros safe_ops conf_codec_safe; simp add: typed_def)



end
