(* ===== verification/TransferProps.thy ===== *)
theory TransferProps
  imports SnapshotProps
begin

text \<open>
  The transfer of a snapshot, seen by the receiver: \<^verbatim>\<open>InstallSnapshot\<close> assembles the chunks in a temporary
  directory. Chunks may be lost, repeated and reordered.
\<close>

definition metaOf :: "u64 \<Rightarrow> u64 \<Rightarrow> bytes \<Rightarrow> SnapshotMetadata" where
  "metaOf i t cf = \<lparr>md_LastIncludedIndex = i, md_LastIncludedTerm = t, md_Configuration = cf\<rparr>"

text \<open>The request carries a part of the snapshot \<open>dat\<close>, and the last part when it says that it is done.\<close>

definition chunkOf :: "u64 \<Rightarrow> u64 \<Rightarrow> bytes \<Rightarrow> bytes \<Rightarrow> InstallSnapshotRequest \<Rightarrow> bool" where
  "chunkOf i t cf dat req \<longleftrightarrow> is_LastIncludedIndex req = i \<and> is_LastIncludedTerm req = t \<and> is_Configuration req = cf \<and>
     is_Bytes req = take (length (is_Bytes req)) (drop (nat (is_Offset req)) dat) \<and>
     (is_Done req \<longrightarrow> nat (is_Offset req) + length (is_Bytes req) = length dat)"

text \<open>What was received so far is a prefix of the snapshot; a file of an older snapshot may still be open.\<close>

definition receiving :: "u64 \<Rightarrow> u64 \<Rightarrow> bytes \<Rightarrow> bytes \<Rightarrow> ('f, 'r) raft \<Rightarrow> bool" where
  "receiving i t cf dat r \<longleftrightarrow> (\<forall>f. r_snapshot r = Some f \<longrightarrow> md_LastIncludedIndex (sf_metadata f) < i \<or>
     (sf_metadata f = metaOf i t cf \<and> (\<exists>n start. sf_file f = Some (sf_tmpDir f, n) \<and> n \<le> length dat \<and> sf_dir f = buildDirectoryBase start \<and>
       fmlookup (ss_dirs (snapshotStorage r)) (sf_tmpDir f) = Some (snapDirOf (take n dat) (metaOf i t cf)))))"

definition published :: "u64 \<Rightarrow> u64 \<Rightarrow> bytes \<Rightarrow> bytes \<Rightarrow> ('f, 'r) raft \<Rightarrow> bool" where
  "published i t cf dat r \<longleftrightarrow> r_snapshot r = None \<and> lastIncludedIndex r = i \<and> lastIncludedTerm r = t \<and>
     (\<exists>d. d \<in> set (visible (snapshotStorage r)) \<and>
       fmlookup (ss_dirs (snapshotStorage r)) d = Some (snapDirOf dat (metaOf i t cf)))"

lemma receiving_None: "r_snapshot r = None \<Longrightarrow> receiving i t cf dat r"
  by (simp add: receiving_def)

lemma resetSnapshotFiles_None:
  assumes "resetSnapshotFiles r = (Inr u, r')"
  shows "r_snapshot r' = None"
proof -
  from assms obtain r1 where r1: "(case r_snapshot r1 of None \<Rightarrow> returnA () | Some s \<Rightarrow>
      bindA (fatalA ''failed to discard snapshot file'' (onSnapshots (SF_Discard s))) (\<lambda>_. modifyA (\<lambda>r. r\<lparr>r_snapshot := None\<rparr>))) r1 = (Inr u, r')"
    by (auto simp: resetSnapshotFiles_def bindA_eq_Inr)
  then show ?thesis by (cases "r_snapshot r1") (auto simp: bindA_eq_Inr)
qed

lemma recognizeLeader_snapshot:
  assumes "recognizeLeader D now leader t r = (Inr u, r')"
  shows "r' = r \<or> r_snapshot r' = None"
proof -
  have f: "r_snapshot s' = None" if "becomeFollower D now leader t s = (Inr v, s')" for s v s'
    using that resetSnapshotFiles_None by (auto simp: becomeFollower_def cancelOperations_def bindA_eq_Inr)
  show ?thesis using assms f by (auto simp: recognizeLeader_def bindA_eq_Inr whenA_def split: if_splits)
qed

lemma take_chunk: "n \<le> length dat \<Longrightarrow> bs = take (length bs) (drop n dat) \<Longrightarrow> take n dat @ bs = take (n + length bs) dat"
  by (metis take_add)

lemma chunk_fits: "bs = take (length bs) (drop n dat) \<Longrightarrow> n \<le> length dat \<Longrightarrow> n + length bs \<le> length dat"
  by (metis add_le_imp_le_diff diff_diff_cancel le_add_diff_inverse length_drop length_take min.cobounded1 nat_add_left_cancel_le)

text \<open>The operations on the file that is being received.\<close>

lemma onSnapshots_ok:
  "onSnapshots m r = (Inr x, r') \<longleftrightarrow> (\<exists>s. m (snapshotStorage r) = (Inr x, s) \<and> r' = r\<lparr>snapshotStorage := s\<rparr>)"
  by (auto simp: onSnapshots_def zoomA_eq_Inr)

lemma seek_ok: "SF_SeekCurrent f s = (Inr off, s') \<Longrightarrow> sf_file f = Some (d, n) \<Longrightarrow> off = int n \<and> ss_dirs s' = ss_dirs s"
  by (auto simp: SF_SeekCurrent_def bindA_eq_Inr ss_syscall_def)

text \<open>The file of the transfer: its temporary directory holds the first \<open>n\<close> bytes.\<close>

definition prefixFile :: "u64 \<Rightarrow> u64 \<Rightarrow> bytes \<Rightarrow> bytes \<Rightarrow> snapshotFile \<Rightarrow> nat \<Rightarrow> persistentSnapshotStorage \<Rightarrow> bool" where
  "prefixFile i t cf dat f n s \<longleftrightarrow> sf_metadata f = metaOf i t cf \<and> sf_file f = Some (sf_tmpDir f, n) \<and> n \<le> length dat \<and>
     (\<exists>start. sf_dir f = buildDirectoryBase start) \<and>
     fmlookup (ss_dirs s) (sf_tmpDir f) = Some (snapDirOf (take n dat) (metaOf i t cf))"

lemma receiving_prefix:
  "receiving i t cf dat r \<longleftrightarrow> (\<forall>f. r_snapshot r = Some f \<longrightarrow>
     md_LastIncludedIndex (sf_metadata f) < i \<or> (\<exists>n. prefixFile i t cf dat f n (snapshotStorage r)))"
  by (auto simp: receiving_def prefixFile_def)

lemma write_prefix:
  assumes "prefixFile i t cf dat f n s" "SF_Write bs f s = (Inr f', s')" "bs = take (length bs) (drop n dat)"
  shows "prefixFile i t cf dat f' (n + length bs) s'"
proof -
  have p: "sf_file f = Some (sf_tmpDir f, length (take n dat))" "n \<le> length dat"
    "fmlookup (ss_dirs s) (sf_tmpDir f) = Some (snapDirOf (take n dat) (metaOf i t cf))"
    using assms(1) by (auto simp: prefixFile_def)
  note w = SF_Write_ok[OF assms(2) p(1,3)]
  have "n + length bs \<le> length dat" "take n dat @ bs = take (n + length bs) dat"
    using chunk_fits[OF assms(3) p(2)] take_chunk[OF p(2) assms(3)] by auto
  then show ?thesis using w p assms(1) by (auto simp: prefixFile_def)
qed

lemma new_prefix:
  assumes "NewSnapshotFile now i t cf s = (Inr f, s')"
  shows "prefixFile i t cf dat f 0 s'"
  using NewSnapshotFile_ok[OF assms] by (auto simp: prefixFile_def metaOf_def)

lemma close_publishes:
  assumes "prefixFile i t cf dat f (length dat) s" "SF_Close f s = (Inr f', s')"
  shows "\<exists>d. d \<in> set (visible s') \<and> fmlookup (ss_dirs s') d = Some (snapDirOf dat (metaOf i t cf))"
proof -
  have p: "sf_file f = Some (sf_tmpDir f, length dat)" "fmlookup (ss_dirs s) (sf_tmpDir f) = Some (snapDirOf dat (metaOf i t cf))"
    "\<exists>start. sf_dir f = buildDirectoryBase start" using assms(1) by (auto simp: prefixFile_def)
  have "fmlookup (ss_dirs s') (sf_dir f) = Some (snapDirOf dat (metaOf i t cf))"
    using SF_Close_ok(3)[OF assms(2) p(1,2)] by simp
  then show ?thesis using p(3) matches_snapshot_name by (intro exI[of _ "sf_dir f"]) (auto simp: visible_props(2) fmlookup_dom_iff)
qed


section \<open>One chunk\<close>

text \<open>What remains of \<^verbatim>\<open>receiveChunk\<close> when the file is open.\<close>

definition takeChunk :: "InstallSnapshotRequest \<Rightarrow> u64 \<Rightarrow> snapshotFile \<Rightarrow> ('f, 'r, installNext) raftA" where
  "takeChunk req trm s =
     bindA (fatalA ''failed to seek snapshot file'' (onSnapshots (SF_SeekCurrent s))) (\<lambda>offset.
     if is_Offset req \<noteq> offset then returnA (ISReply \<lparr>isr_Term = trm, isr_BytesWritten = offset\<rparr>)
     else
       bindA (fatalA ''failed to write snapshot file'' (onSnapshots (SF_Write (is_Bytes req) s))) (\<lambda>s.
       bindA (modifyA (\<lambda>r. r\<lparr>r_snapshot := Some s\<rparr>)) (\<lambda>_.
       let res = \<lparr>isr_Term = trm, isr_BytesWritten = offset + int (length (is_Bytes req))\<rparr> in
       if \<not> is_Done req then returnA (ISReply res)
       else completeSnapshot req res)))"

lemma receiveChunk_opens:
  assumes "receiveChunk now req trm r = (Inr out, r')" "receiving i t cf dat r" "chunkOf i t cf dat req"
  shows "\<exists>f n r2. r_snapshot r2 = Some f \<and> prefixFile i t cf dat f n (snapshotStorage r2) \<and> takeChunk req trm f r2 = (Inr out, r')"
proof -
  from assms(1) obtain r1 where
    d: "(case r_snapshot r of None \<Rightarrow> returnA () | Some s \<Rightarrow> whenA (md_LastIncludedIndex (SF_Metadata s) < is_LastIncludedIndex req)
           (bindA (fatalA ''failed to discard snapshot'' (onSnapshots (SF_Discard s))) (\<lambda>_.
            modifyA (\<lambda>r. r\<lparr>r_snapshot := None\<rparr>)))) r = (Inr (), r1)"
    and rest: "bindA (whenA (r_snapshot r1 = None)
       (bindA (fatalA ''failed to create snapshot file'' (onSnapshots
          (NewSnapshotFile now (is_LastIncludedIndex req) (is_LastIncludedTerm req) (is_Configuration req)))) (\<lambda>s.
        modifyA (\<lambda>r. r\<lparr>r_snapshot := Some s\<rparr>)))) (\<lambda>_. bindA openSnapshot (takeChunk req trm)) r1 = (Inr out, r')"
    unfolding receiveChunk_def takeChunk_def[abs_def] by (auto simp: bindA_eq_Inr[of "case_option _ _ _"])
  have c: "is_LastIncludedIndex req = i" "is_LastIncludedTerm req = t" "is_Configuration req = cf" using assms(3) by (auto simp: chunkOf_def)
  have r1: "r_snapshot r1 = None \<or> (\<exists>f n. r_snapshot r1 = Some f \<and> prefixFile i t cf dat f n (snapshotStorage r1))"
    using d assms(2) c(1) by (cases "r_snapshot r") (auto simp: receiving_prefix bindA_eq_Inr SF_Metadata_def whenA_def split: if_splits)
  have o: "bindA openSnapshot g x = g f x" if "r_snapshot x = Some f" for g f and x :: "('f, 'r) raft"
    using that by (simp add: openSnapshot_def bindA_readA)
  show ?thesis
  proof (cases "r_snapshot r1")
    case None
    with rest c obtain f s where n: "NewSnapshotFile now i t cf (snapshotStorage r1) = (Inr f, s)"
      and tk: "takeChunk req trm f (r1\<lparr>snapshotStorage := s, r_snapshot := Some f\<rparr>) = (Inr out, r')"
      by (auto simp: bindA_eq_Inr[of "bindA _ _"] bindA_eq_Inr[of "fatalA _ _"] onSnapshots_ok openSnapshot_def bindA_readA)
    show ?thesis using tk new_prefix[OF n, of dat] by (intro exI[of _ f] exI[of _ 0] exI[of _ "r1\<lparr>snapshotStorage := s, r_snapshot := Some f\<rparr>"]) simp
  next
    case (Some f)
    then show ?thesis using rest r1 by (auto simp: openSnapshot_def bindA_readA)
  qed
qed

lemma keeps_dirs: "keepsA ss_dirs SnapshotFile"
proof -
  have "keepsA ss_dirs ss_syscall" by (simp add: relA_def ss_syscall_def)
  then show ?thesis unfolding SnapshotFile_def directories_def openFile_def decodeMetadata_def Let_def
    by (intro keeps.from_get keeps.intros)
qed

lemma complete_tail:
  fixes r r' :: "('f, 'r) raft"
  assumes "bindA (tryA (readA g)) (\<lambda>e. if P e then returnA (ISWaitApplied res)
      else bindA (fatalA msg (onSnapshots SnapshotFile)) (\<lambda>snapshot. returnA (ISRestore res snapshot))) r = (Inr out, r')"
  shows "ss_dirs (snapshotStorage r') = ss_dirs (snapshotStorage r)" "r_snapshot r' = r_snapshot r"
    "lastIncludedIndex r' = lastIncludedIndex r" "lastIncludedTerm r' = lastIncludedTerm r" "out \<noteq> ISReply res'"
proof -
  obtain e where e: "(if P e then returnA (ISWaitApplied res)
      else bindA (fatalA msg (onSnapshots SnapshotFile)) (\<lambda>snapshot. returnA (ISRestore res snapshot))) r = (Inr out, r')"
    using assms by (auto simp: bindA_eq_Inr[of "tryA _"] tryA_eq_Inr)
  show "ss_dirs (snapshotStorage r') = ss_dirs (snapshotStorage r)" "r_snapshot r' = r_snapshot r"
    "lastIncludedIndex r' = lastIncludedIndex r" "lastIncludedTerm r' = lastIncludedTerm r" "out \<noteq> ISReply res'"
    using e by (cases "P e"; auto simp: bindA_eq_Inr onSnapshots_ok dest: relAD[OF keeps_dirs])+
qed

lemma takeChunk_ok:
  assumes "takeChunk req trm f r = (Inr out, r')" "r_snapshot r = Some f" "prefixFile i t cf dat f n (snapshotStorage r)" "chunkOf i t cf dat req"
  shows "case out of ISReply res \<Rightarrow> receiving i t cf dat r' | _ \<Rightarrow> published i t cf dat r'"
proof -
  have c: "is_LastIncludedIndex req = i" "is_LastIncludedTerm req = t" "is_Configuration req = cf" using assms(4) by (auto simp: chunkOf_def)
  from assms(1) obtain off s1 where sk: "SF_SeekCurrent f (snapshotStorage r) = (Inr off, s1)"
    and rest: "(if is_Offset req \<noteq> off then returnA (ISReply \<lparr>isr_Term = trm, isr_BytesWritten = off\<rparr>)
     else
       bindA (fatalA ''failed to write snapshot file'' (onSnapshots (SF_Write (is_Bytes req) f))) (\<lambda>s.
       bindA (modifyA (\<lambda>r. r\<lparr>r_snapshot := Some s\<rparr>)) (\<lambda>_.
       let res = \<lparr>isr_Term = trm, isr_BytesWritten = off + int (length (is_Bytes req))\<rparr> in
       if \<not> is_Done req then returnA (ISReply res)
       else completeSnapshot req res))) (r\<lparr>snapshotStorage := s1\<rparr>) = (Inr out, r')"
    unfolding takeChunk_def by (auto simp: bindA_eq_Inr[of "fatalA _ (onSnapshots (SF_SeekCurrent f))"] onSnapshots_ok)
  have s1: "off = int n" "ss_dirs s1 = ss_dirs (snapshotStorage r)" using seek_ok[OF sk] assms(3) by (auto simp: prefixFile_def)
  then have p1: "prefixFile i t cf dat f n s1" using assms(3) by (simp add: prefixFile_def)
  show ?thesis
  proof (cases "is_Offset req = off")
    case False
    then have "out = ISReply \<lparr>isr_Term = trm, isr_BytesWritten = off\<rparr>" "r' = r\<lparr>snapshotStorage := s1\<rparr>" using rest by auto
    then show ?thesis using p1 assms(2) by (auto simp: receiving_prefix)
  next
    case True
    then obtain f2 s2 where w: "SF_Write (is_Bytes req) f s1 = (Inr f2, s2)"
      and fin: "(if \<not> is_Done req then returnA (ISReply \<lparr>isr_Term = trm, isr_BytesWritten = off + int (length (is_Bytes req))\<rparr>)
        else completeSnapshot req \<lparr>isr_Term = trm, isr_BytesWritten = off + int (length (is_Bytes req))\<rparr>) (r\<lparr>snapshotStorage := s2, r_snapshot := Some f2\<rparr>) = (Inr out, r')"
      using rest by (auto simp: bindA_eq_Inr[of "fatalA _ (onSnapshots (SF_Write _ _))"] onSnapshots_ok Let_def)
    have b: "is_Bytes req = take (length (is_Bytes req)) (drop n dat)" using assms(4) True s1(1) by (simp add: chunkOf_def)
    note p2 = write_prefix[OF p1 w b]
    show ?thesis
    proof (cases "is_Done req")
      case False
      then show ?thesis using fin p2 by (auto simp: receiving_prefix)
    next
      case dn: True
      then have l: "n + length (is_Bytes req) = length dat" using assms(4) True s1(1) by (auto simp: chunkOf_def)
      from fin dn obtain f3 s3 where cl: "SF_Close f2 s2 = (Inr f3, s3)"
        and lst: "(bindA (tryA (readA (\<lambda>r. GetEntry (is_LastIncludedIndex req) (log r)))) (\<lambda>e.
           if (case e of Inl _ \<Rightarrow> False | Inr entry \<Rightarrow> Term entry = is_LastIncludedTerm req)
           then returnA (ISWaitApplied \<lparr>isr_Term = trm, isr_BytesWritten = off + int (length (is_Bytes req))\<rparr>)
           else bindA (fatalA ''failed to get snapshot file'' (onSnapshots SnapshotFile)) (\<lambda>snapshot.
                returnA (ISRestore \<lparr>isr_Term = trm, isr_BytesWritten = off + int (length (is_Bytes req))\<rparr> snapshot))))
           (r\<lparr>snapshotStorage := s3, r_snapshot := None, lastIncludedIndex := i, lastIncludedTerm := t\<rparr>) = (Inr out, r')"
        by (auto simp: completeSnapshot_def openSnapshot_def bindA_readA bindA_eq_Inr[of "fatalA _ (onSnapshots (SF_Close _))"] onSnapshots_ok c)
      have r': "ss_dirs (snapshotStorage r') = ss_dirs s3" "r_snapshot r' = None" "lastIncludedIndex r' = i" "lastIncludedTerm r' = t"
        and o: "\<And>res. out \<noteq> ISReply res"
        using complete_tail[OF lst] by auto
      have "published i t cf dat r'"
        using close_publishes[OF _ cl] p2 l r' by (auto simp: published_def visible_def)
      then show ?thesis using o by (cases out) auto
    qed
  qed
qed

text \<open>C13. Snapshots are transferred without corruption: whatever parts of a snapshot the leader sends, in whatever
order and how often, what the follower has assembled so far is a prefix of the snapshot; and when the handler
reports that the snapshot is complete, the snapshot that becomes visible in the storage is the leader's, byte for
byte and with its metadata, and the node's last included index and term are those of the snapshot.\<close>

theorem snapshot_transfer:
  assumes "receiving i t cf dat r" "chunkOf i t cf dat req" "InstallSnapshot D now req r = (Inr out, r')"
  shows "case out of ISReply res \<Rightarrow> receiving i t cf dat r' | _ \<Rightarrow> published i t cf dat r'"
proof -
  have stays: ?thesis if "r' = r" "out = ISReply res" for res using that assms(1) by simp
  show ?thesis
  proof (cases "state r = Shutdown \<or> currentTerm r > is_Term req")
    case False
    with assms(3) obtain r1 where r1: "recognizeLeader D now (is_LeaderID req) (is_Term req) r = (Inr (), r1)"
      and rest: "(let r2 = r1\<lparr>lastContact := now\<rparr> in
        if lastIncludedIndex r2 \<ge> is_LastIncludedIndex req \<or> lastApplied r2 \<ge> is_LastIncludedIndex req
        then returnA (ISReply \<lparr>isr_Term = currentTerm r2, isr_BytesWritten = 0\<rparr>)
        else receiveChunk now req (currentTerm r2)) (r1\<lparr>lastContact := now\<rparr>) = (Inr out, r')"
      by (auto simp: InstallSnapshot_def bindA_eq_Inr[of "recognizeLeader _ _ _ _"] Let_def)
    have rc: "receiving i t cf dat (r1\<lparr>lastContact := now\<rparr>)"
      using recognizeLeader_snapshot[OF r1] assms(1) by (auto simp: receiving_prefix)
    show ?thesis
    proof (cases "lastIncludedIndex r1 \<ge> is_LastIncludedIndex req \<or> lastApplied r1 \<ge> is_LastIncludedIndex req")
      case True
      then show ?thesis using rest rc by (auto simp: Let_def)
    next
      case False
      then have "receiveChunk now req (currentTerm r1) (r1\<lparr>lastContact := now\<rparr>) = (Inr out, r')" using rest by (simp add: Let_def)
      from receiveChunk_opens[OF this rc assms(2)] show ?thesis using takeChunk_ok assms(2) by blast
    qed
  qed (use assms stays in \<open>auto simp: InstallSnapshot_def split: if_splits\<close>)
qed

definition chunk :: "int \<Rightarrow> bytes \<Rightarrow> bool \<Rightarrow> InstallSnapshotRequest" where
  "chunk off bs dn = \<lparr>is_LeaderID = ''a'', is_Term = 2, is_LastIncludedIndex = 5, is_LastIncludedTerm = 2, is_Configuration = [1],
     is_Bytes = bs, is_Offset = off, is_Done = dn\<rparr>"

text \<open>Two chunks, the first one sent twice.\<close>

definition chunk_run :: "(bytes list, nat) raft \<Rightarrow> (bytes list, nat) raft" where
  "chunk_run r = snd (InstallSnapshot sample_deps 30 (chunk 2 [9] True) (snd (InstallSnapshot sample_deps 20 (chunk 0 [7, 8] False)
     (snd (InstallSnapshot sample_deps 10 (chunk 0 [7, 8] False) r)))))"

theorem snapshot_transfer_witness: "published 5 2 [1] [7, 8, 9] (chunk_run sample_follower)"
proof -
  let ?r1 = "snd (InstallSnapshot sample_deps 10 (chunk 0 [7, 8] False) sample_follower)"
  let ?r2 = "snd (InstallSnapshot sample_deps 20 (chunk 0 [7, 8] False) ?r1)"
  have v: "fst (InstallSnapshot sample_deps 10 (chunk 0 [7, 8] False) sample_follower) = Inr (ISReply \<lparr>isr_Term = 2, isr_BytesWritten = 2\<rparr>)"
    "fst (InstallSnapshot sample_deps 20 (chunk 0 [7, 8] False) ?r1) = Inr (ISReply \<lparr>isr_Term = 2, isr_BytesWritten = 2\<rparr>)"
    "case fst (InstallSnapshot sample_deps 30 (chunk 2 [9] True) ?r2) of Inr (ISRestore _ _) \<Rightarrow> True | _ \<Rightarrow> False" by code_simp+
  have c: "chunkOf 5 2 [1] [7, 8, 9] (chunk 0 [7, 8] False)" "chunkOf 5 2 [1] [7, 8, 9] (chunk 2 [9] True)" by (simp_all add: chunkOf_def chunk_def)
  have r0: "receiving 5 2 [1] [7, 8, 9] sample_follower" by (rule receiving_None) (simp add: sample_follower_def sample_node_def)
  have "receiving 5 2 [1] [7, 8, 9] ?r1" using snapshot_transfer[OF r0 c(1), of sample_deps 10 _ ?r1] v(1) by (auto simp: prod_eq_iff)
  then have r2: "receiving 5 2 [1] [7, 8, 9] ?r2" using snapshot_transfer[OF _ c(1), of ?r1 sample_deps 20 _ ?r2] v(2) by (auto simp: prod_eq_iff)
  from v(3) obtain res sf where "fst (InstallSnapshot sample_deps 30 (chunk 2 [9] True) ?r2) = Inr (ISRestore res sf)"
    by (auto split: sum.splits installNext.splits)
  then show ?thesis unfolding chunk_run_def using snapshot_transfer[OF r2 c(2), of sample_deps 30 "ISRestore res sf"] by (auto simp: prod_eq_iff)
qed

end
