(* ===== verification/TotalStores.thy ===== *)
theory TotalStores
  imports SafeActions LogIface StateStore
begin

text \<open>
  With a disk that does not fail, and a codec that encodes every message, the stores' operations return.
\<close>

abbreviation openLog :: "persistentLog \<Rightarrow> bool" where
  "openLog l \<equiv> (\<exists>pos. lfile l = OpenFile pos) \<and> faults l = []"

named_theorems total_ops \<open>operations that return when the disk does not fail\<close>

lemma total_syscall [total_ops]: "totalA openLog syscall"
  by (auto simp: totalA_def syscall_def)

lemma total_withFile: "(\<And>pos. totalA openLog (f pos)) \<Longrightarrow> totalA openLog (withFile f)"
  unfolding totalA_def by (auto simp: withFile_def)

lemma total_files [total_ops]:
  "totalA openLog (fileWrite bs)" "totalA openLog fileSeekCurrent" "0 \<le> off \<Longrightarrow> totalA openLog (fileSeekStart off)" "totalA openLog fileSync"
  "0 \<le> off \<Longrightarrow> totalA openLog (fileTruncate off)"
proof -
  show "totalA openLog (fileWrite bs)" by (auto simp: totalA_def fileWrite_ok)
  show "totalA openLog fileSeekCurrent" "totalA openLog fileSync"
    unfolding fileSeekCurrent_def fileSync_def by (intro total_withFile total_intros total_ops)+
  show "totalA openLog (fileSeekStart off)" "totalA openLog (fileTruncate off)" if "0 \<le> off"
    using that unfolding fileSeekStart_def fileTruncate_def by (simp, intro total_withFile total_intros total_ops; simp)+
qed

lemma total_encode [total_ops]: "(\<And>m. mar m \<noteq> None) \<Longrightarrow> (\<And>bs. totalA I (w bs)) \<Longrightarrow> totalA I (encodeLogEntry mar w e)"
  unfolding encodeLogEntry_def by (intro total_option total_intros)

lemma total_writeEntries: "(\<And>m. mar m \<noteq> None) \<Longrightarrow> totalA openLog (writeEntries mar es)"
proof (induction es)
  case (Cons e es)
  note IH = Cons.IH[OF Cons.prems]
  show ?case unfolding writeEntries.simps by (intro total_intros total_ops IH Cons.prems)
qed (unfold writeEntries.simps, rule total_intros)

lemma total_log_append: "(\<And>m. mar m \<noteq> None) \<Longrightarrow> totalA openLog (Log_AppendEntries mar es)"
  unfolding Log_AppendEntries_def
  by (rule total_get) (auto intro!: total_intros total_ops total_writeEntries)

lemma Truncate_total:
  assumes "wf_log mar l" "faults l = []" "lookup (view l) i \<noteq> None"
  shows "\<exists>l'. Truncate i l = (Inr (), l') \<and> openLog l'"
proof -
  note wf = wf_logD[OF assms(1)]
  have c: "Contains i l = Inr True" using assms by (simp add: plog.contains_law)
  have ck: "checkIndex what i l = (Inr (logIndexOf i l), l)" for what :: string using wf(5) c by (simp add: checkIndex_def bindA_readA)
  have k: "logIndexOf i l < length (entries l)"
    using assms(3) position_of(1)[OF wf(1), of i]
    by (auto simp: lookup_None_iff logIndexOf_def hd_view[OF assms(1)] last_view[OF assms(1)])
  then have o: "0 \<le> Offset (entries l ! logIndexOf i l)" using laid_out_nth[OF wf(3) k] by simp
  have t: "totalA openLog (bindA (wrapA m1 (fileTruncate n)) (\<lambda>_. bindA (wrapA m2 fileSync) (\<lambda>_. bindA (wrapA m3 (fileSeekStart n)) (\<lambda>_.
      modifyA (\<lambda>l. l\<lparr>entries := take q (entries l)\<rparr>)))))" if "0 \<le> n" for n m1 m2 m3 q
    using that by (intro total_intros total_ops) auto
  have "openLog l" using wf(5) assms(2) by auto
  from totalD[OF t[OF o] this] show ?thesis unfolding Truncate_def by (simp add: bindA_def[of "checkIndex _ _"] ck Let_def)
qed

lemma total_SetState:
  assumes "\<And>m. mar m \<noteq> None"
  shows "totalA (\<lambda>p. st_faults p = []) (SetState mar t v)"
proof -
  have io: "totalA (\<lambda>p. st_faults p = []) st_syscall" "totalA (\<lambda>p. st_faults p = []) (st_tmpWrite bs)" "totalA (\<lambda>p. st_faults p = []) st_removeTmp" for bs
    by (auto simp: totalA_def st_syscall_def st_tmpWrite_def st_removeTmp_def)
  have e: "totalA (\<lambda>p. st_faults p = []) (encodePersistentState mar st_tmpWrite s)" for s
    unfolding encodePersistentState_def by (intro total_option total_intros io assms)
  have w: "totalA (\<lambda>p. st_faults p = []) (writeState mar s)" for s unfolding writeState_def by (intro total_intros io e) simp
  have tr: "totalA (\<lambda>p. st_faults p = []) (bindA (tryA (writeState mar s)) (\<lambda>res. case res of
       Inl e \<Rightarrow> bindA st_removeTmp (\<lambda>_. raiseA (Error e)) | Inr _ \<Rightarrow> returnA ()))" for s
    unfolding totalA_def
  proof (intro allI impI)
    fix p :: persistentStateStorage assume "st_faults p = []"
    then obtain x p' where "writeState mar s p = (Inr x, p')" "st_faults p' = []" using totalD[OF w] by blast
    then show "\<exists>x s'. bindA (tryA (writeState mar s)) (\<lambda>res. case res of
       Inl e \<Rightarrow> bindA st_removeTmp (\<lambda>_. raiseA (Error e)) | Inr _ \<Rightarrow> returnA ()) p = (Inr x, s') \<and> st_faults s' = []"
      by (auto simp: bindA_eq_Inr tryA_eq_Inr)
  qed
  show ?thesis unfolding SetState_def Let_def by (intro total_intros io tr) auto
qed

end
