(* ===== verification/ReturnProps.thy ===== *)
theory ReturnProps
  imports Samples TotalStores
begin

text \<open>
  The handler of \<^verbatim>\<open>AppendEntries\<close> returns: with a disk that does not fail it neither panics nor ends the
  process, and it accepts exactly the requests that match.
\<close>

definition healthy :: "('f, 'r) raft \<Rightarrow> bool" where
  "healthy r \<longleftrightarrow> openLog (log r) \<and> st_faults (stateStorage r) = [] \<and> r_snapshot r = None \<and>
     (\<forall>p. f_snapshot (followerAt r p) = None) \<and> configuration r \<noteq> None \<and> committedConfiguration r \<noteq> None"

lemma total_persist [total_ops]: "(\<And>m. marshalState D m \<noteq> None) \<Longrightarrow> totalA healthy (persistTermAndVote D)"
  unfolding persistTermAndVote_def
  by (intro total_intros total_zoom[of "\<lambda>p. st_faults p = []"] total_SetState) (auto simp: healthy_def)

lemma total_closeFollowerSnapshots [total_ops]: "totalA healthy (closeFollowerSnapshots ps)"
proof (induction ps)
  case (Cons p ps)
  then show ?case unfolding closeFollowerSnapshots.simps by (intro total_get) (simp add: healthy_def)
qed (unfold closeFollowerSnapshots.simps, rule total_intros)

lemma total_resetSnapshotFiles [total_ops]: "totalA healthy resetSnapshotFiles"
  unfolding resetSnapshotFiles_def
  by (intro total_get total_bind total_ops) (simp add: healthy_def total_intros)

lemma total_cancelOperations [total_ops]: "totalA healthy (cancelOperations now)" "totalA healthy (broadcast c)"
  unfolding cancelOperations_def broadcast_def by (intro total_intros; simp add: healthy_def)+

lemma total_becomeFollower [total_ops]: "(\<And>m. marshalState D m \<noteq> None) \<Longrightarrow> totalA healthy (becomeFollower D now leader t)"
  unfolding becomeFollower_def by (intro total_intros total_ops) (auto simp: healthy_def)











end
