(* ===== verification/Logging.thy ===== *)
theory Logging
  imports Prelude
begin

text \<open>
  logging/logger.go and logging/options.go: the leveled logger. \<^verbatim>\<open>Level\<close> is an \<^verbatim>\<open>int32\<close>, of which the
  constants \<^verbatim>\<open>Debug\<close> to \<^verbatim>\<open>Fatal\<close> name five values; \<^verbatim>\<open>WithLevel\<close> accepts any. The standard library's
  \<^verbatim>\<open>log.Logger\<close> is the record \<open>stdLogger\<close>: where it writes, its prefix and flags, and the messages it
  was given so far (the time stamp it puts before each is left out). \<^verbatim>\<open>os.Exit(1)\<close> is the outcome
  \<open>Fatal\<close>.
\<close>

section \<open>Levels\<close>

type_synonym Level = "32 word"

definition LvDebug :: Level where "LvDebug = 0"
definition LvInfo :: Level where "LvInfo = 1"
definition LvWarn :: Level where "LvWarn = 2"
definition LvError :: Level where "LvError = 3"
definition LvFatal :: Level where "LvFatal = 4"

lemmas level_defs = LvDebug_def LvInfo_def LvWarn_def LvError_def LvFatal_def

definition Level_String :: "Level \<Rightarrow> exn + string" where
  "Level_String l =
     (if l = LvDebug then Inr ''DEBUG''
      else if l = LvInfo then Inr ''INFO''
      else if l = LvWarn then Inr ''WARN''
      else if l = LvError then Inr ''ERROR''
      else if l = LvFatal then Inr ''FATAL''
      else Inl (Panic ''invalid log level''))"

section \<open>Options\<close>

text \<open>A writer is known by a number; 2 is standard error.\<close>

type_synonym io_writer = nat

definition defaultWriter :: io_writer where "defaultWriter = 2"
definition defaultPrefix :: string where "defaultPrefix = ''raft:''"
definition defaultFlag :: int where "defaultFlag = 3"

record loggerOptions =
  lo_writer :: "io_writer option"
  lo_prefix :: string
  lo_flag :: int
  lo_level :: Level
  lo_levelSet :: bool

type_synonym loggerOption = "loggerOptions \<Rightarrow> err + loggerOptions"

definition zeroLoggerOptions :: loggerOptions where
  "zeroLoggerOptions = \<lparr>lo_writer = None, lo_prefix = '''', lo_flag = 0, lo_level = 0, lo_levelSet = False\<rparr>"

definition WithWriter :: "io_writer option \<Rightarrow> loggerOption" where
  "WithWriter w opts = Inr (opts\<lparr>lo_writer := w\<rparr>)"

definition WithPrefix :: "string \<Rightarrow> loggerOption" where
  "WithPrefix prefix opts = Inr (opts\<lparr>lo_prefix := prefix\<rparr>)"

definition WithFlag :: "int \<Rightarrow> loggerOption" where
  "WithFlag flag opts = Inr (opts\<lparr>lo_flag := flag\<rparr>)"

definition WithLevel :: "Level \<Rightarrow> loggerOption" where
  "WithLevel level opts = Inr (opts\<lparr>lo_level := level, lo_levelSet := True\<rparr>)"

text \<open>The loop that applies the options in order and stops at the first error; \<^verbatim>\<open>NewRaft\<close> has the same.\<close>

fun applyOptions :: "('o \<Rightarrow> err + 'o) list \<Rightarrow> 'o \<Rightarrow> err + 'o" where
  "applyOptions [] opts = Inr opts"
| "applyOptions (opt # rest) opts = (case opt opts of Inl e \<Rightarrow> Inl e | Inr opts' \<Rightarrow> applyOptions rest opts')"

section \<open>The logger\<close>

record stdLogger =
  sl_writer :: io_writer
  sl_prefix :: string
  sl_flag :: int
  sl_lines :: "string list"

record Logger =
  lg_options :: loggerOptions
  lg_base :: stdLogger

definition loggerDefaults :: "loggerOptions \<Rightarrow> loggerOptions" where
  "loggerDefaults o0 =
     (let o1 = (if lo_writer o0 = None then o0\<lparr>lo_writer := Some defaultWriter\<rparr> else o0);
          o2 = (if lo_flag o1 = 0 then o1\<lparr>lo_flag := defaultFlag\<rparr> else o1);
          o3 = (if lo_prefix o2 = '''' then o2\<lparr>lo_prefix := defaultPrefix\<rparr> else o2)
      in if \<not> lo_levelSet o3 then o3\<lparr>lo_level := LvInfo\<rparr> else o3)"

definition NewLogger :: "loggerOption list \<Rightarrow> err + Logger" where
  "NewLogger opts =
     (case applyOptions opts zeroLoggerOptions of
        Inl e \<Rightarrow> Inl e
      | Inr o0 \<Rightarrow>
          (let o1 = loggerDefaults o0 in
           Inr \<lparr>lg_options = o1,
                lg_base = \<lparr>sl_writer = the (lo_writer o1), sl_prefix = lo_prefix o1, sl_flag = lo_flag o1, sl_lines = []\<rparr>\<rparr>))"

text \<open>
  The operands of \<^verbatim>\<open>fmt.Sprint\<close>: strings, and slices of operands. A slice is printed in brackets with
  spaces between its elements; between operands there is a space when neither is a string.
\<close>

datatype any = AStr string | ASlice "any list"

fun joinSp :: "string list \<Rightarrow> string" where
  "joinSp [] = ''''"
| "joinSp [s] = s"
| "joinSp (s # ss) = s @ '' '' @ joinSp ss"

fun showAny :: "any \<Rightarrow> string" where
  "showAny (AStr s) = s"
| "showAny (ASlice xs) = ''['' @ joinSp (map showAny xs) @ '']''"

fun isStr :: "any \<Rightarrow> bool" where
  "isStr (AStr _) = True"
| "isStr (ASlice _) = False"

fun Sprint :: "any list \<Rightarrow> string" where
  "Sprint [] = ''''"
| "Sprint [x] = showAny x"
| "Sprint (x # y # zs) = showAny x @ (if \<not> isStr x \<and> \<not> isStr y then '' '' else '''') @ Sprint (y # zs)"

definition Logger_print :: "string \<Rightarrow> any list \<Rightarrow> (Logger, unit) action" where
  "Logger_print prefix args =
     modifyA (\<lambda>l. l\<lparr>lg_base := (lg_base l)\<lparr>sl_lines := sl_lines (lg_base l) @ [Sprint (AStr prefix # args)]\<rparr>\<rparr>)"

text \<open>
  The five methods pass their variadic arguments on as one slice. Comparisons of levels are signed.
\<close>

definition Logger_Debug :: "any list \<Rightarrow> (Logger, unit) action" where
  "Logger_Debug args = bindA getA (\<lambda>l.
     if LvDebug <s lo_level (lg_options l) then returnA () else Logger_print ''DEBUG: '' [ASlice args])"

definition Logger_Info :: "any list \<Rightarrow> (Logger, unit) action" where
  "Logger_Info args = bindA getA (\<lambda>l.
     if LvInfo <s lo_level (lg_options l) then returnA () else Logger_print ''INFO: '' [ASlice args])"

definition Logger_Warn :: "any list \<Rightarrow> (Logger, unit) action" where
  "Logger_Warn args = bindA getA (\<lambda>l.
     if LvWarn <s lo_level (lg_options l) then returnA () else Logger_print ''WARN: '' [ASlice args])"

definition Logger_Error :: "any list \<Rightarrow> (Logger, unit) action" where
  "Logger_Error args = bindA getA (\<lambda>l.
     if LvError <s lo_level (lg_options l) then returnA () else Logger_print ''ERROR: '' [ASlice args])"

definition Logger_Fatal :: "any list \<Rightarrow> (Logger, unit) action" where
  "Logger_Fatal args = bindA getA (\<lambda>l.
     if LvFatal <s lo_level (lg_options l) then returnA ()
     else bindA (Logger_print ''FATAL: '' [ASlice args]) (\<lambda>_. raiseA (Fatal ''exit 1'')))"

text \<open>The \<^verbatim>\<open>f\<close> variants; \<open>msg\<close> is the formatted text.\<close>

definition Debugf :: "string \<Rightarrow> (Logger, unit) action" where "Debugf msg = Logger_Debug [AStr msg]"
definition Infof :: "string \<Rightarrow> (Logger, unit) action" where "Infof msg = Logger_Info [AStr msg]"
definition Warnf :: "string \<Rightarrow> (Logger, unit) action" where "Warnf msg = Logger_Warn [AStr msg]"
definition Errorf :: "string \<Rightarrow> (Logger, unit) action" where "Errorf msg = Logger_Error [AStr msg]"
definition Fatalf :: "string \<Rightarrow> (Logger, unit) action" where "Fatalf msg = Logger_Fatal [AStr msg]"

lemmas logger_defs = Debugf_def Infof_def Warnf_def Errorf_def Fatalf_def Logger_Debug_def Logger_Info_def
  Logger_Warn_def Logger_Error_def Logger_Fatal_def Logger_print_def

section \<open>What is logged\<close>

text \<open>The text of a message of the given severity, and the lines a run of messages leaves.\<close>

fun logAt :: "Level \<times> string \<Rightarrow> (Logger, unit) action" where
  "logAt (s, msg) =
     (if s = LvDebug then Debugf msg else if s = LvInfo then Infof msg else if s = LvWarn then Warnf msg
      else if s = LvError then Errorf msg else Fatalf msg)"

fun logAll :: "(Level \<times> string) list \<Rightarrow> (Logger, unit) action" where
  "logAll [] = returnA ()"
| "logAll (m # ms) = bindA (logAt m) (\<lambda>_. logAll ms)"

fun lineOf :: "Level \<times> string \<Rightarrow> string" where
  "lineOf (s, msg) = (case Level_String s of Inr name \<Rightarrow> name @ '': ['' @ msg @ '']'' | Inl _ \<Rightarrow> '''')"

definition nonfatal :: "(Level \<times> string) list \<Rightarrow> bool" where
  "nonfatal ms \<longleftrightarrow> set (map fst ms) \<subseteq> {LvDebug, LvInfo, LvWarn, LvError}"

lemma logAt_ok:
  assumes "s \<in> {LvDebug, LvInfo, LvWarn, LvError}"
  shows "logAt (s, msg) l =
    (Inr (), if lo_level (lg_options l) \<le>s s
             then l\<lparr>lg_base := (lg_base l)\<lparr>sl_lines := sl_lines (lg_base l) @ [lineOf (s, msg)]\<rparr>\<rparr> else l)"
  using assms by (auto simp: logger_defs level_defs Level_String_def word_sle_eq word_sless_alt)

lemma logAll_lines:
  assumes "nonfatal ms"
  shows "logAll ms l =
    (Inr (), l\<lparr>lg_base := (lg_base l)\<lparr>sl_lines := sl_lines (lg_base l) @
       map lineOf (filter (\<lambda>m. lo_level (lg_options l) \<le>s fst m) ms)\<rparr>\<rparr>)"
  using assms
proof (induction ms arbitrary: l)
  case (Cons m ms)
  obtain s msg where "m = (s, msg)" by (cases m)
  with Cons show ?case
    by (auto simp: nonfatal_def bindA_def logAt_ok simp del: logAt.simps lineOf.simps)
qed simp

text \<open>The logger prints what its level asks for: of a run of messages, exactly those of at least the level
of \<^verbatim>\<open>WithLevel\<close> reach the writer, in order, each with the name of its severity; none of them ends the
process. A fatal message does end it, but only when the level is at most \<^verbatim>\<open>Fatal\<close>: with a higher level
\<^verbatim>\<open>Fatalf\<close> prints nothing and returns.\<close>

theorem logger_filters:
  assumes "NewLogger [WithLevel lv] = Inr l" "nonfatal ms"
  shows "fst (logAll ms l) = Inr () \<and>
    sl_lines (lg_base (snd (logAll ms l))) = map lineOf (filter (\<lambda>m. lv \<le>s fst m) ms) \<and>
    fst (Fatalf msg l) = (if lv \<le>s LvFatal then Inl (Fatal ''exit 1'') else Inr ())"
proof (intro conjI)
  have l: "lo_level (lg_options l) = lv" "sl_lines (lg_base l) = []"
    using assms(1) by (auto simp: NewLogger_def WithLevel_def loggerDefaults_def Let_def)
  show "fst (logAll ms l) = Inr ()" by (simp add: logAll_lines[OF assms(2)])
  show "sl_lines (lg_base (snd (logAll ms l))) = map lineOf (filter (\<lambda>m. lv \<le>s fst m) ms)"
    by (simp add: logAll_lines[OF assms(2)] l)
  show "fst (Fatalf msg l) = (if lv \<le>s LvFatal then Inl (Fatal ''exit 1'') else Inr ())"
    using l(1) by (auto simp: logger_defs bindA_def word_sle_eq word_sless_alt)
qed

theorem logger_filters_witness:
  "\<exists>l. NewLogger [WithLevel LvWarn] = Inr l \<and>
     sl_lines (lg_base (snd (logAll [(LvInfo, ''a''), (LvError, ''b''), (LvWarn, ''c'')] l))) = [''ERROR: [b]'', ''WARN: [c]''] \<and>
     fst (Fatalf ''d'' l) = Inl (Fatal ''exit 1'')"
proof -
  let ?ms = "[(LvInfo, ''a''), (LvError, ''b''), (LvWarn, ''c'')]"
  obtain l where l: "NewLogger [WithLevel LvWarn] = Inr l"
    by (auto simp: NewLogger_def WithLevel_def Let_def)
  have ms: "nonfatal ?ms" by (simp add: nonfatal_def)
  have f: "map lineOf (filter (\<lambda>m. LvWarn \<le>s fst m) ?ms) = [''ERROR: [b]'', ''WARN: [c]'']" "LvWarn \<le>s LvFatal"
    by code_simp+
  show ?thesis
    using l logger_filters[OF l ms, of "''d''"] f by (intro exI[of _ l]) simp
qed

end
