(* ===== verification/Options.thy ===== *)
theory Options
  imports Logging Lifecycle
begin

text \<open>
  options.go, internal/random/random.go and the constructor \<^verbatim>\<open>NewRaft\<close> of raft.go. Durations count
  nanoseconds (below 2 to the 62, so that doubling one does not wrap). A nil interface value is \<open>None\<close>.
\<close>

section \<open>Options\<close>

definition Millisecond :: duration where "Millisecond = 1000000"
definition defaultElectionTimeout :: duration where "defaultElectionTimeout = 300 * Millisecond"
definition defaultHeartbeat :: duration where "defaultHeartbeat = 50 * Millisecond"
definition defaultLeaseDuration :: duration where "defaultLeaseDuration = 100 * Millisecond"

text \<open>The struct \<^verbatim>\<open>options\<close>: the part the node's loops read is \<open>raftOptions\<close>.\<close>

record ('s, 'c) allOptions = raftOptions +
  logLevel :: Level
  levelSet :: bool
  opt_log :: "persistentLog option"
  opt_stateStorage :: "persistentStateStorage option"
  opt_snapshotStorage :: "persistentSnapshotStorage option"
  opt_transport :: "('s, 'c) transport option"

type_synonym ('s, 'c) Option = "('s, 'c) allOptions \<Rightarrow> err + ('s, 'c) allOptions"

definition zeroOptions :: "('s, 'c) allOptions" where
  "zeroOptions = \<lparr>electionTimeout = 0, heartbeatInterval = 0, leaseDuration = 0, logLevel = 0, levelSet = False,
     opt_log = None, opt_stateStorage = None, opt_snapshotStorage = None, opt_transport = None\<rparr>"

definition WithElectionTimeout :: "duration \<Rightarrow> ('s, 'c) Option" where
  "WithElectionTimeout t opts = Inr (opts\<lparr>electionTimeout := t\<rparr>)"

definition WithHeartbeatInterval :: "duration \<Rightarrow> ('s, 'c) Option" where
  "WithHeartbeatInterval t opts = Inr (opts\<lparr>heartbeatInterval := t\<rparr>)"

definition WithLeaseDuration :: "duration \<Rightarrow> ('s, 'c) Option" where
  "WithLeaseDuration d opts = Inr (opts\<lparr>leaseDuration := d\<rparr>)"

definition WithLogLevel :: "Level \<Rightarrow> ('s, 'c) Option" where
  "WithLogLevel level opts = Inr (opts\<lparr>logLevel := level, levelSet := True\<rparr>)"

definition WithLog :: "persistentLog option \<Rightarrow> ('s, 'c) Option" where
  "WithLog l opts =
     (if l = None then Inl (ErrNew ''log must not be nil'') else Inr (opts\<lparr>opt_log := l\<rparr>))"

definition WithStateStorage :: "persistentStateStorage option \<Rightarrow> ('s, 'c) Option" where
  "WithStateStorage s opts =
     (if s = None then Inl (ErrNew ''state storage must not be nil'') else Inr (opts\<lparr>opt_stateStorage := s\<rparr>))"

definition WithSnapshotStorage :: "persistentSnapshotStorage option \<Rightarrow> ('s, 'c) Option" where
  "WithSnapshotStorage s opts =
     (if s = None then Inl (ErrNew ''snapshot storage must not be nil'') else Inr (opts\<lparr>opt_snapshotStorage := s\<rparr>))"

definition WithTransport :: "('s, 'c) transport option \<Rightarrow> ('s, 'c) Option" where
  "WithTransport t opts =
     (case t of None \<Rightarrow> Inl (ErrNew ''transport must not be nil'') | Some _ \<Rightarrow> Inr (opts\<lparr>opt_transport := t\<rparr>))"

section \<open>Random timeouts\<close>

text \<open>
  \<^verbatim>\<open>d.Milliseconds()\<close> divides and truncates towards zero. \<open>rnd\<close> is the generator: \<^verbatim>\<open>rand.Int63n(n)\<close> panics for
  \<open>n \<le> 0\<close> and otherwise returns a number below \<open>n\<close>.
\<close>

definition Milliseconds :: "duration \<Rightarrow> int" where
  "Milliseconds d = (if d \<ge> 0 then d div Millisecond else - ((- d) div Millisecond))"

definition Int63n :: "(int \<Rightarrow> int) \<Rightarrow> int \<Rightarrow> exn + int" where
  "Int63n rnd n = (if n \<le> 0 then Inl (Panic ''invalid argument to Int63n'') else Inr (rnd n))"

definition RandomTimeout :: "(int \<Rightarrow> int) \<Rightarrow> duration \<Rightarrow> duration \<Rightarrow> exn + duration" where
  "RandomTimeout rnd mn mx = map_sum id (\<lambda>n. n + Milliseconds mn) (Int63n rnd (Milliseconds mx - Milliseconds mn))"

definition RandomInt :: "(int \<Rightarrow> int) \<Rightarrow> int \<Rightarrow> int \<Rightarrow> exn + int" where
  "RandomInt rnd mn mx = map_sum id (\<lambda>n. mn + n) (Int63n rnd (mx - mn))"

text \<open>The sleep of \<^verbatim>\<open>electionTicker\<close>: the timeout, multiplied by a millisecond.\<close>

definition electionSleep :: "(int \<Rightarrow> int) \<Rightarrow> ('f, 'r) raft \<Rightarrow> exn + duration" where
  "electionSleep rnd r =
     map_sum id (\<lambda>timeout. timeout * Millisecond)
       (RandomTimeout rnd (electionTimeout (options r)) (2 * electionTimeout (options r)))"

section \<open>NewRaft\<close>

definition optionDefaults :: "('s, 'c) allOptions \<Rightarrow> ('s, 'c) allOptions" where
  "optionDefaults o0 =
     (let o1 = (if \<not> levelSet o0 then o0\<lparr>logLevel := LvInfo\<rparr> else o0);
          o2 = (if heartbeatInterval o1 = 0 then o1\<lparr>heartbeatInterval := defaultHeartbeat\<rparr> else o1);
          o3 = (if electionTimeout o2 = 0 then o2\<lparr>electionTimeout := defaultElectionTimeout\<rparr> else o2)
      in if leaseDuration o3 = 0 then o3\<lparr>leaseDuration := defaultLeaseDuration\<rparr> else o3)"

text \<open>The directory of the node: what a log, a state storage and a snapshot storage left on disk.\<close>

record dataPath =
  dp_log :: persistentLog
  dp_state :: persistentStateStorage
  dp_snapshots :: persistentSnapshotStorage

text \<open>The struct that \<^verbatim>\<open>NewRaft\<close> allocates, before \<^verbatim>\<open>restore\<close>.\<close>

definition freshRaft :: "time \<Rightarrow> string \<Rightarrow> string \<Rightarrow> 'f \<Rightarrow> raftOptions \<Rightarrow> persistentLog \<Rightarrow> persistentStateStorage \<Rightarrow>
    persistentSnapshotStorage \<Rightarrow> ('f, 'r) raft" where
  "freshRaft now i addr f opts l st ss =
     \<lparr>raft_id = i, address = addr, leaderID = '''', options = opts, configuration = None, committedConfiguration = None,
      configurationResponseCh = None, followers = fmempty, followerAt = (\<lambda>_. newFollower), nextPtr = 0,
      manager = newOperationManager now (leaseDuration opts), log = l, stateStorage = st, snapshotStorage = ss,
      r_snapshot = None, fsm = f, state = Shutdown, commitIndex = 0, lastApplied = 0, currentTerm = 0,
      lastIncludedIndex = 0, lastIncludedTerm = 0, votedFor = '''', lastContact = 0,
      opChans = (\<lambda>_. None), confChans = (\<lambda>_. None), nextCh = 0, nextOp = 0, cells = (\<lambda>_. 0), nextCell = 0,
      woken = [], spawned = []\<rparr>"

text \<open>The last step of the constructor; what \<^verbatim>\<open>restore\<close> did to the files of the directory stays, also when it fails.\<close>

definition restoreNew :: "('f, 'r) deps \<Rightarrow> ('f, 'r) raft \<Rightarrow> (dataPath, ('f, 'r) raft) action" where
  "restoreNew D r0 = (\<lambda>d.
     case restore D r0 of (res, r) \<Rightarrow>
       (map_sum id (\<lambda>_. r) res, \<lparr>dp_log = log r, dp_state = stateStorage r, dp_snapshots = snapshotStorage r\<rparr>))"

definition NewRaft :: "('f, 'r) deps \<Rightarrow> (string \<Rightarrow> err + string) \<Rightarrow> time \<Rightarrow> string \<Rightarrow> string \<Rightarrow> 'f \<Rightarrow> ('s, 'c) Option list \<Rightarrow>
    (dataPath, ('f, 'r) raft \<times> ('s, 'c) transport \<times> Logger) action" where
  "NewRaft D resolve now i addr f opts =
     bindA (readA (\<lambda>_. map_sum Error id (applyOptions opts zeroOptions))) (\<lambda>o0.
     let o1 = optionDefaults o0 in
     bindA (case opt_log o1 of
         Some l \<Rightarrow> returnA l
       | None \<Rightarrow> bindA (zoomA dp_log (\<lambda>l d. d\<lparr>dp_log := l\<rparr>) NewLog) (\<lambda>_. readA (\<lambda>d. Inr (dp_log d)))) (\<lambda>l.
     bindA (case opt_stateStorage o1 of
         Some s \<Rightarrow> returnA s
       | None \<Rightarrow> bindA (zoomA dp_state (\<lambda>s d. d\<lparr>dp_state := s\<rparr>) NewStateStorage) (\<lambda>_. readA (\<lambda>d. Inr (dp_state d)))) (\<lambda>st.
     bindA (case opt_snapshotStorage o1 of
         Some s \<Rightarrow> returnA s
       | None \<Rightarrow> bindA (zoomA dp_snapshots (\<lambda>s d. d\<lparr>dp_snapshots := s\<rparr>) NewSnapshotStorage) (\<lambda>_. readA (\<lambda>d. Inr (dp_snapshots d)))) (\<lambda>ss.
     bindA (case opt_transport o1 of
         Some t \<Rightarrow> returnA t
       | None \<Rightarrow> readA (\<lambda>_. map_sum Error id (NewTransport resolve addr))) (\<lambda>t.
     bindA (readA (\<lambda>_. map_sum Error id (NewLogger [WithLevel (logLevel o1)]))) (\<lambda>logger.
     bindA (restoreNew D (freshRaft now i addr f (raftOptions.truncate o1) l st ss)) (\<lambda>r.
     returnA (r, t, logger))))))))"

end
