(* ===== verification/LifecycleProps.thy ===== *)
theory LifecycleProps
  imports Options LogProps VoteSpec ReplicationSpec
begin

text \<open>
  Starting a node: its options, what it recovers from disk, and the first configuration.
\<close>

section \<open>Timeouts\<close>






section \<open>Restoring a node\<close>

text \<open>The configurations of the log above an index, and what taking them one after another leaves.\<close>

definition confsAbove :: "('f, 'r) deps \<Rightarrow> u64 \<Rightarrow> LogEntry list \<Rightarrow> Configuration list" where
  "confsAbove D i es = map (\<lambda>e. projr (DecodeConfiguration (unmarshalConf D) (Data e)))
     (filter (\<lambda>e. i < Index e \<and> EntryType e = ConfigurationEntry) es)"

definition takeConf :: "Configuration \<Rightarrow> ('f, 'r) raft \<Rightarrow> ('f, 'r) raft" where
  "takeConf c r = (case configuration r of None \<Rightarrow> r | Some old \<Rightarrow> r\<lparr>committedConfiguration := Some (Clone old)\<rparr>)\<lparr>configuration := Some c\<rparr>"

lemma takeConf_keeps [simp]: "log (takeConf c r) = log r" "configuration (takeConf c r) = Some c"
  "stateStorage (takeConf c r) = stateStorage r" "currentTerm (takeConf c r) = currentTerm r" "votedFor (takeConf c r) = votedFor r"
  "state (takeConf c r) = state r" "lastIncludedIndex (takeConf c r) = lastIncludedIndex r"
  "options (takeConf c r) = options r" "raft_id (takeConf c r) = raft_id r"
  by (simp_all add: takeConf_def split: option.split)

lemma takeConfs_keeps: "log (fold takeConf cs r) = log r" "configuration (fold takeConf cs r) = (if cs = [] then configuration r else Some (last cs))"
  "stateStorage (fold takeConf cs r) = stateStorage r" "currentTerm (fold takeConf cs r) = currentTerm r" "votedFor (fold takeConf cs r) = votedFor r"
  "state (fold takeConf cs r) = state r" "lastIncludedIndex (fold takeConf cs r) = lastIncludedIndex r"
  "options (fold takeConf cs r) = options r" "raft_id (fold takeConf cs r) = raft_id r"
  by (induction cs arbitrary: r) simp_all

lemma restoreConfigurations_ok:
  "restoreConfigurations D is r = (Inr u, r') \<Longrightarrow>
     \<exists>es. list_all2 (\<lambda>i e. GetEntry i (log r) = Inr e) is es \<and>
       r' = fold takeConf (map (\<lambda>e. projr (DecodeConfiguration (unmarshalConf D) (Data e))) (filter (\<lambda>e. EntryType e = ConfigurationEntry) es)) r"
proof (induction "is" arbitrary: r)
  case (Cons i "is")
  from Cons.prems obtain e where e: "GetEntry i (log r) = Inr e"
    and rest: "EntryType e \<noteq> ConfigurationEntry \<Longrightarrow> restoreConfigurations D is r = (Inr u, r')"
      "EntryType e = ConfigurationEntry \<Longrightarrow> \<exists>c. DecodeConfiguration (unmarshalConf D) (Data e) = Inr c \<and> restoreConfigurations D is (takeConf c r) = (Inr u, r')"
    by (auto simp: bindA_eq_Inr decodeConfA_def takeConf_def split: if_splits sum.splits)
  show ?case
  proof (cases "EntryType e = ConfigurationEntry")
    case True
    then obtain c where c: "DecodeConfiguration (unmarshalConf D) (Data e) = Inr c" "restoreConfigurations D is (takeConf c r) = (Inr u, r')"
      using rest(2) by blast
    from Cons.IH[OF c(2)] obtain es where "list_all2 (\<lambda>i e. GetEntry i (log r) = Inr e) is es"
      "r' = fold takeConf (map (\<lambda>e. projr (DecodeConfiguration (unmarshalConf D) (Data e))) (filter (\<lambda>e. EntryType e = ConfigurationEntry) es)) (takeConf c r)"
      by auto
    with e True c(1) show ?thesis by (intro exI[of _ "e # es"]) simp
  next
    case False
    from Cons.IH[OF rest(1)[OF False]] obtain es where "list_all2 (\<lambda>i e. GetEntry i (log r) = Inr e) is es"
      "r' = fold takeConf (map (\<lambda>e. projr (DecodeConfiguration (unmarshalConf D) (Data e))) (filter (\<lambda>e. EntryType e = ConfigurationEntry) es)) r"
      by auto
    with e False show ?thesis by (intro exI[of _ "e # es"]) simp
  qed
qed auto

text \<open>The entries the scan reads are those of the log above the snapshot.\<close>

lemma filter_drop: "(\<And>k. k < length xs \<Longrightarrow> P (xs ! k) \<longleftrightarrow> n \<le> k) \<Longrightarrow> filter P xs = drop n xs"
proof -
  assume P: "\<And>k. k < length xs \<Longrightarrow> P (xs ! k) \<longleftrightarrow> n \<le> k"
  have "filter P (take n xs) = []" "filter P (drop n xs) = drop n xs"
    using P by (auto simp: filter_empty_conv filter_id_conv in_set_conv_nth)
  then show ?thesis by (metis append.left_neutral append_take_drop_id filter_append)
qed

lemma entries_above:
  assumes "wf_entries es" "Index (hd es) \<le> a"
  shows "filter (\<lambda>e. a < Index e) es = drop (unat a + 1 - unat (Index (hd es))) es"
proof (rule filter_drop)
  fix k assume "k < length es"
  then show "(a < Index (es ! k)) = (unat a + 1 - unat (Index (hd es)) \<le> k)"
    using wf_entries_nth(2)[OF assms(1)] assms(2) by (auto simp: word_less_nat_alt word_le_nat_alt)
qed

lemma scanned_entries:
  assumes wf: "wf_log mar l" and es: "list_all2 (\<lambda>i e. GetEntry i l = Inr e) (index_range (a + 1) (Index (last (view l)))) es"
    and a: "unat a + 1 < 2 ^ 64"
  shows "map strip es = filter (\<lambda>e. a < Index e) (view l)"
proof -
  let ?v = "view l" and ?li = "Index (last (view l))"
  have wv: "wf_entries ?v" using wf_logD(1)[OF wf] by (simp add: view_def)
  have ua: "unat (a + 1) = unat a + 1" using a unat_Suc_word[of a] by simp
  have len: "length es = Suc (unat ?li) - (unat a + 1)" using list_all2_lengthD[OF es] ua by (simp add: index_range_props)
  have nth: "lookup ?v (a + 1 + of_nat k) = Some (strip (es ! k))" if "k < length es" for k
    using plog.get_law[OF wf] list_all2_nthD2[OF es that] that len ua by (simp add: index_range_props)
  show ?thesis
  proof (cases "es = []")
    case True
    then have "?li \<le> a" using len by (simp add: word_le_nat_alt)
    moreover have "Index e \<le> ?li" if "e \<in> set ?v" for e
      using that wf_entries_nth(2)[OF wv] wf_entries_last(2)[OF wv] by (auto simp: in_set_conv_nth word_le_nat_alt)
    ultimately have "\<not> a < Index e" if "e \<in> set ?v" for e using that by (meson leD order_trans)
    then show ?thesis using True by (simp add: filter_empty_conv)
  next
    case False
    then have "lookup ?v (a + 1) = Some (strip (es ! 0))" using nth[of 0] by simp
    then have h: "Index (hd ?v) \<le> a" using ua by (auto simp: lookup_def word_less_nat_alt word_le_nat_alt split: if_splits)
    have "map strip es = drop (unat a + 1 - unat (Index (hd ?v))) ?v"
    proof (rule nth_equalityI)
      show "length (map strip es) = length (drop (unat a + 1 - unat (Index (hd ?v))) ?v)"
        using len wf_entries_last(2)[OF wv] h wv by (auto simp: word_le_nat_alt wf_entries_def)
      fix k assume k: "k < length (map strip es)"
      then have lk: "lookup ?v (a + 1 + of_nat k) = Some (strip (es ! k))" using nth by simp
      obtain j where j: "j < length ?v" "?v ! j = strip (es ! k)" "a + 1 + of_nat k = Index (hd ?v) + of_nat j"
        using lookup_Some_iff[OF wv] lk by blast
      have "unat (a + 1 + of_nat k) = unat a + 1 + k"
        using k len ua unat_u64_less[of ?li] by (subst unat_add_of_nat) auto
      moreover have "unat (Index (hd ?v) + of_nat j) = unat (Index (hd ?v)) + j"
        using j(1) wv by (intro unat_add_of_nat) (auto simp: wf_entries_def)
      ultimately have "j = unat a + 1 - unat (Index (hd ?v)) + k" using j(3) h by (simp add: word_le_nat_alt)
      with j show "map strip es ! k = drop (unat a + 1 - unat (Index (hd ?v))) ?v ! k" using k by simp
    qed
    then show ?thesis using entries_above[OF wv h] by simp
  qed
qed

text \<open>What \<^verbatim>\<open>restoreSnapshot\<close> and \<^verbatim>\<open>SnapshotFile\<close> leave alone.\<close>

definition stable :: "('f, 'r) raft \<Rightarrow> persistentLog \<times> persistentStateStorage \<times> u64 \<times> string \<times> State \<times> raftOptions \<times> string" where
  "stable r = (log r, stateStorage r, currentTerm r, votedFor r, state r, options r, raft_id r)"

lemma keeps_restoreSnapshot: "keepsA stable (restoreSnapshot D s)"
  unfolding restoreSnapshot_def Let_def onSnapshots_def decodeConfA_def case_prod_unfold
  by (intro keeps.from_get keeps.intros keeps.zoom) (simp_all add: stable_def)

lemma restore_ok:
  assumes c: "proto_codec (marshalEntry D) (unmarshalEntry D)" "proto_codec (marshalState D) (unmarshalState D)"
    and es: "wf_entries es" "laid_out (marshalEntry D) 0 es" "disk (log r) = Some (frames (marshalEntry D) es)"
    and st: "wf_state (marshalState D) (unmarshalState D) (stateStorage r)"
    and r: "restore D r = (Inr u, r')"
  shows "wf_log (marshalEntry D) (log r') \<and> logview r' = map strip es"
    and "synced D r' \<and> durable (unmarshalState D) (stateStorage r') = durable (unmarshalState D) (stateStorage r)"
    and "state r' = state r \<and> options r' = options r \<and> raft_id r' = raft_id r"
    and "unat (lastIncludedIndex r') + 1 < 2 ^ 64 \<Longrightarrow> confsAbove D (lastIncludedIndex r') (map strip es) \<noteq> [] \<Longrightarrow>
      configuration r' = Some (last (confsAbove D (lastIncludedIndex r') (map strip es)))"
proof -
  let ?mar = "marshalEntry D"
  from r obtain l1 trm vote s2 s3 sf r3 where
    l1: "bindA Log_Open (\<lambda>_. Replay ?mar (unmarshalEntry D)) (log r) = (Inr (), l1)"
    and s2: "StateOf (unmarshalState D) (stateStorage r) = (Inr (trm, vote), s2)"
    and sf: "SnapshotFile (snapshotStorage r) = (Inr sf, s3)"
    and r3: "(case sf of None \<Rightarrow> returnA () | Some s \<Rightarrow> restoreSnapshot D s)
        (r\<lparr>log := l1, stateStorage := s2, currentTerm := trm, votedFor := vote, snapshotStorage := s3\<rparr>) = (Inr (), r3)"
    and rest: "bindA lastIndexA (\<lambda>li. restoreConfigurations D (index_range (lastIncludedIndex r3 + 1) li)) r3 = (Inr u, r')"
    unfolding restore_def onLog_def onState_def onSnapshots_def
    by (auto simp: bindA_eq_Inr zoomA_eq_Inr)
  have l: "entries l1 = es" "disk l1 = disk (log r)" "lfile l1 = OpenFile (length (frames ?mar es))"
    using open_replay_ok[OF c(1) _ es(2,3) l1] es(1) by (auto simp: wf_entries_def)
  then have wl: "wf_log ?mar l1" "view l1 = map strip es" using es by (auto simp: wf_log_def view_def)
  note so = StateOf_ok[OF c(2) st s2]
  have "stable r3 = stable (r\<lparr>log := l1, stateStorage := s2, currentTerm := trm, votedFor := vote, snapshotStorage := s3\<rparr>)"
    using r3 relAD[OF keeps_restoreSnapshot] by (cases sf) fastforce+
  then have st3: "log r3 = l1" "stateStorage r3 = s2" "currentTerm r3 = trm" "votedFor r3 = vote" "state r3 = state r"
    "options r3 = options r" "raft_id r3 = raft_id r" by (auto simp: stable_def)
  have "restoreConfigurations D (index_range (lastIncludedIndex r3 + 1) (Index (last (view l1)))) r3 = (Inr u, r')"
    using rest last_ops(1)[OF wl(1)] by (simp add: lastIndexA_def bindA_eq_Inr st3(1))
  from restoreConfigurations_ok[OF this] obtain es' where
    la: "list_all2 (\<lambda>i e. GetEntry i l1 = Inr e) (index_range (lastIncludedIndex r3 + 1) (Index (last (view l1)))) es'"
    and r': "r' = fold takeConf (map (\<lambda>e. projr (DecodeConfiguration (unmarshalConf D) (Data e))) (filter (\<lambda>e. EntryType e = ConfigurationEntry) es')) r3"
    using st3(1) by auto
  show "wf_log ?mar (log r') \<and> logview r' = map strip es" using wl by (simp add: r' takeConfs_keeps st3)
  show "synced D r' \<and> durable (unmarshalState D) (stateStorage r') = durable (unmarshalState D) (stateStorage r)"
    using so c(2) by (auto simp: synced_def r' takeConfs_keeps st3)
  show "state r' = state r \<and> options r' = options r \<and> raft_id r' = raft_id r"
    by (simp add: r' takeConfs_keeps st3)
  assume b: "unat (lastIncludedIndex r') + 1 < 2 ^ 64" and ne: "confsAbove D (lastIncludedIndex r') (map strip es) \<noteq> []"
  have li: "lastIncludedIndex r' = lastIncludedIndex r3" by (simp add: r' takeConfs_keeps)
  have "map strip es' = filter (\<lambda>e. lastIncludedIndex r3 < Index e) (map strip es)"
    using scanned_entries[OF wl(1) la] b li wl(2) by simp
  then have "confsAbove D (lastIncludedIndex r') (map strip es) =
      map (\<lambda>e. projr (DecodeConfiguration (unmarshalConf D) (Data e))) (filter (\<lambda>e. EntryType e = ConfigurationEntry) (map strip es'))"
    by (simp add: confsAbove_def li filter_filter conj_commute)
  then have "confsAbove D (lastIncludedIndex r') (map strip es) =
      map (\<lambda>e. projr (DecodeConfiguration (unmarshalConf D) (Data e))) (filter (\<lambda>e. EntryType e = ConfigurationEntry) es')"
    by (simp add: filter_map o_def)
  with ne show "configuration r' = Some (last (confsAbove D (lastIncludedIndex r') (map strip es)))"
    by (simp add: r' takeConfs_keeps)
qed

lemma NewRaft_ok:
  assumes "applyOptions opts zeroOptions = Inr o0" "opt_log o0 = None" "opt_stateStorage o0 = None"
    and "NewRaft D resolve now i addr f opts d = (Inr (r, t, lg), d')"
  obtains l st ss where "NewLog (dp_log d) = (Inr (), l)" "NewStateStorage (dp_state d) = (Inr (), st)"
    "restore D (freshRaft now i addr f (raftOptions.truncate (optionDefaults o0)) l st ss) = (Inr (), r)"
proof -
  have o1: "opt_log (optionDefaults o0) = None" "opt_stateStorage (optionDefaults o0) = None"
    using assms(2,3) by (simp_all add: optionDefaults_def Let_def)
  from assms(4) obtain l st ss d1 d2 where l: "NewLog (dp_log d) = (Inr (), l)" and st: "NewStateStorage (dp_state d) = (Inr (), st)"
    and r: "restoreNew D (freshRaft now i addr f (raftOptions.truncate (optionDefaults o0)) l st ss) d1 = (Inr r, d2)"
    by (auto simp: NewRaft_def assms(1) bindA_eq_Inr zoomA_eq_Inr Let_def o1)
  obtain res r1 where r1: "restore D (freshRaft now i addr f (raftOptions.truncate (optionDefaults o0)) l st ss) = (res, r1)"
    by (cases "restore D (freshRaft now i addr f (raftOptions.truncate (optionDefaults o0)) l st ss)")
  with r have "restore D (freshRaft now i addr f (raftOptions.truncate (optionDefaults o0)) l st ss) = (Inr (), r)"
    by (cases res) (simp_all add: restoreNew_def)
  with l st that show thesis by blast
qed

text \<open>C19. A crashed node comes back: a node made by \<^verbatim>\<open>NewRaft\<close> on the directory that another one left behind has the
term and the vote that were stored last and the same log entries, it uses the given options (or the defaults)
and is shut down until started, and its latest configuration is the newest one in the log above its snapshot.\<close>

theorem restart_recovers:
  fixes D :: "('f, 'r) deps"
  assumes "proto_codec (marshalEntry D) (unmarshalEntry D)" "proto_codec (marshalState D) (unmarshalState D)"
    and "wf_log (marshalEntry D) (dp_log d)" "file_ok_state (marshalState D) (dp_state d)"
    and "applyOptions opts zeroOptions = Inr o0" "opt_log o0 = None" "opt_stateStorage o0 = None"
    and "NewRaft D resolve now i addr f opts d = (Inr (r, t, lg), d')"
    and "cs = confsAbove D (lastIncludedIndex r) (view (dp_log d))"
  shows "(currentTerm r, votedFor r) = durable (unmarshalState D) (dp_state d) \<and> logview r = view (dp_log d) \<and>
    state r = Shutdown \<and> raft_id r = i \<and> options r = raftOptions.truncate (optionDefaults o0) \<and>
    (unat (lastIncludedIndex r) + 1 < 2 ^ 64 \<and> cs \<noteq> [] \<longrightarrow> configuration r = Some (last cs))"
proof -
  from NewRaft_ok[OF assms(5-8)] obtain l st ss where n: "NewLog (dp_log d) = (Inr (), l)" "NewStateStorage (dp_state d) = (Inr (), st)"
    and r: "restore D (freshRaft now i addr f (raftOptions.truncate (optionDefaults o0)) l st ss) = (Inr (), r)" by blast
  let ?r0 = "freshRaft now i addr f (raftOptions.truncate (optionDefaults o0)) l st ss :: ('f, 'r) raft"
  have f: "log ?r0 = l" "stateStorage ?r0 = st" "state ?r0 = Shutdown" "raft_id ?r0 = i" "options ?r0 = raftOptions.truncate (optionDefaults o0)"
    by (simp_all add: freshRaft_def)
  note wl = wf_logD[OF assms(3)]
  have d: "disk (log ?r0) = Some (frames (marshalEntry D) (entries (dp_log d)))" using NewLog_ok(1)[OF n(1)] wl(4) f by simp
  note s = NewStateStorage_law[OF assms(4) n(2), of "unmarshalState D"]
  have ws: "wf_state (marshalState D) (unmarshalState D) (stateStorage ?r0)" using s f by simp
  note ok = restore_ok[OF assms(1,2) wl(1,3) d ws r]
  show ?thesis using ok assms(9) s f by (auto simp: synced_def view_def)
qed

definition crashed :: dataPath where
  "crashed = (let r = sample_node ''a'' Leader 3 ''b'' [emptyEntry, NewLogEntry 1 1 [1] ConfigurationEntry, sample_entry 2 2 [7],
       NewLogEntry 3 2 [3] ConfigurationEntry, sample_entry 4 3 []]
     in \<lparr>dp_log = log r, dp_state = stateStorage r, dp_snapshots = snapshotStorage r\<rparr>)"

theorem restart_recovers_witness:
  "\<exists>r t lg d'. NewRaft sample_deps Inr 7 ''a'' ''A'' [] ([WithLeaseDuration 9] :: (unit, nat) Option list) crashed = (Inr (r, t, lg), d') \<and>
     currentTerm r = 3 \<and> votedFor r = ''b'' \<and> map Term (logview r) = [0, 1, 2, 2, 3] \<and> leaseDuration (options r) = 9 \<and> configuration r = Some conf_ac"
proof -
  let ?run = "NewRaft sample_deps Inr 7 ''a'' ''A'' [] ([WithLeaseDuration 9] :: (unit, nat) Option list) crashed"
  let ?o = "zeroOptions\<lparr>leaseDuration := 9\<rparr> :: (unit, nat) allOptions"
  have "case fst ?run of Inr (r, t, lg) \<Rightarrow> lastIncludedIndex r = 0 | Inl _ \<Rightarrow> False" by code_simp
  then obtain r t lg d' where r: "?run = (Inr (r, t, lg), d')" and li: "lastIncludedIndex r = 0"
    by (cases ?run) (auto split: sum.splits prod.splits)
  have wf: "wf_log (marshalEntry sample_deps) (dp_log crashed)"
    unfolding wf_log_def
  proof (intro conjI)
    have "contiguous (Index (hd (entries (dp_log crashed)))) (entries (dp_log crashed))" "unat (Index (hd (entries (dp_log crashed)))) = 0"
      "length (entries (dp_log crashed)) = 5" by code_simp+
    then show "wf_entries (entries (dp_log crashed))" by (auto simp: wf_entries_def)
  qed code_simp+
  have fo: "file_ok_state (marshalState sample_deps) (dp_state crashed)"
    unfolding file_ok_state_def
    by (intro disjI2 exI[of _ 3] exI[of _ "''b''"])
       (simp add: crashed_def sample_node_def sample_storage_def sample_deps_def state_frame_def state_marshal_def)
  have v: "durable (unmarshalState sample_deps) (dp_state crashed) = (3, ''b'')" "map Term (view (dp_log crashed)) = [0, 1, 2, 2, 3]"
    "confsAbove sample_deps 0 (view (dp_log crashed)) \<noteq> []" "last (confsAbove sample_deps 0 (view (dp_log crashed))) = conf_ac"
    "leaseDuration (raftOptions.truncate (optionDefaults ?o)) = 9"
    by code_simp+
  have "proto_codec (marshalEntry sample_deps) (unmarshalEntry sample_deps)" "proto_codec (marshalState sample_deps) (unmarshalState sample_deps)"
    by (simp_all add: sample_deps_def entry_codec state_codec)
  from restart_recovers[OF this wf fo _ _ _ r refl, of ?o] r li v show ?thesis
    by (intro exI[of _ r] exI[of _ t] exI[of _ lg] exI[of _ d']) (simp add: WithLeaseDuration_def zeroOptions_def)
qed

end
