(* ===== verification/TestMocks.thy ===== *)
theory TestMocks
  imports Options Json
begin

text \<open>
  The first part of testing.go: operations and configurations for tests, the transport that loses messages, and the
  state machine that records its operations. The generator \<open>rnd\<close> is that of \<open>Options\<close>. The gob encoding of a list of
  operations is a pair of functions; gob transmits exported fields only (\<open>gob_codec\<close>).
\<close>

section \<open>Inputs\<close>

text \<open>The comparison of \<^verbatim>\<open>checkLogEntry\<close>, which leaves out the offset.\<close>

definition checkLogEntry :: "LogEntry \<Rightarrow> LogEntry \<Rightarrow> bool" where
  "checkLogEntry expected actual \<longleftrightarrow> Index expected = Index actual \<and> Term expected = Term actual \<and>
     Data expected = Data actual \<and> EntryType expected = EntryType actual"

definition makeOperations :: "nat \<Rightarrow> bytes list" where
  "makeOperations numOperations = map (\<lambda>i. textBytes (''operation '' @ decimal i)) [1..<Suc numOperations]"

text \<open>The address of the \<open>i\<close>-th server.\<close>

definition localAddress :: "nat \<Rightarrow> string" where
  "localAddress i = ''127.0.0.'' @ decimal i @ '':8080''"

definition makeClusterConfiguration :: "nat \<Rightarrow> Configuration" where
  "makeClusterConfiguration numServers =
     \<lparr>Members = fmap_of_list (map (\<lambda>i. (decimal i, localAddress i)) [0..<numServers]),
      IsVoter = fmap_of_list (map (\<lambda>i. (decimal i, True)) [0..<numServers]), cIndex = 0\<rparr>"

section \<open>A transport that loses messages\<close>

record ('s, 'c) transportMock =
  tm_Transport :: "('s, 'c) transport"
  isDisconnected :: bool
  disconnected :: "string fset"
  lossRate :: int

definition newTransportMock :: "(string \<Rightarrow> err + string) \<Rightarrow> string \<Rightarrow> err + ('s, 'c) transportMock" where
  "newTransportMock resolve addr = map_sum id
     (\<lambda>base. \<lparr>tm_Transport = base, isDisconnected = False, disconnected = {||}, lossRate = 0\<rparr>) (NewTransport resolve addr)"

definition TM_disconnect :: "string \<Rightarrow> ('s, 'c) transportMock \<Rightarrow> ('s, 'c) transportMock" where
  "TM_disconnect addr t = t\<lparr>disconnected := finsert addr (disconnected t)\<rparr>"

definition TM_connect :: "string \<Rightarrow> ('s, 'c) transportMock \<Rightarrow> ('s, 'c) transportMock" where
  "TM_connect addr t = t\<lparr>disconnected := disconnected t |-| {|addr|}\<rparr>"

definition shouldDropMessage :: "(int \<Rightarrow> int) \<Rightarrow> ('s, 'c) transportMock \<Rightarrow> exn + bool" where
  "shouldDropMessage rnd t = map_sum id (\<lambda>num. num < lossRate t) (RandomInt rnd 1 101)"

text \<open>The test the three senders share: the peer is disconnected, or the message is dropped.\<close>

definition unreachable :: "(int \<Rightarrow> int) \<Rightarrow> string \<Rightarrow> ('s, 'c) transportMock \<Rightarrow> exn + bool" where
  "unreachable rnd addr t = (if addr |\<in>| disconnected t then Inr True else shouldDropMessage rnd t)"

definition onBase :: "(('s, 'c) transport, 'a) action \<Rightarrow> (('s, 'c) transportMock, 'a) action" where
  "onBase m = zoomA tm_Transport (\<lambda>b t. t\<lparr>tm_Transport := b\<rparr>) m"

definition TM_SendAppendEntries :: "(int \<Rightarrow> int) \<Rightarrow> (string \<Rightarrow> err + 'c) \<Rightarrow>
    ('c \<Rightarrow> pb_AppendEntriesRequest \<Rightarrow> err + pb_AppendEntriesResponse) \<Rightarrow>
    string \<Rightarrow> AppendEntriesRequest \<Rightarrow> (('s, 'c) transportMock, AppendEntriesResponse) action" where
  "TM_SendAppendEntries rnd dial call addr request =
     bindA (readA (unreachable rnd addr)) (\<lambda>lost.
     if lost then raiseA (Error (ErrNew ''could not send AppendEntries RPC: disconnected''))
     else onBase (SendAppendEntries dial call addr request))"

definition TM_SendRequestVote :: "(int \<Rightarrow> int) \<Rightarrow> (string \<Rightarrow> err + 'c) \<Rightarrow>
    ('c \<Rightarrow> pb_RequestVoteRequest \<Rightarrow> err + pb_RequestVoteResponse) \<Rightarrow>
    string \<Rightarrow> RequestVoteRequest \<Rightarrow> (('s, 'c) transportMock, RequestVoteResponse) action" where
  "TM_SendRequestVote rnd dial call addr request =
     bindA (readA (unreachable rnd addr)) (\<lambda>lost.
     if lost then raiseA (Error (ErrNew ''could not send RequestVote RPC: disconnected''))
     else onBase (SendRequestVote dial call addr request))"

definition TM_SendInstallSnapshot :: "(int \<Rightarrow> int) \<Rightarrow> (string \<Rightarrow> err + 'c) \<Rightarrow>
    ('c \<Rightarrow> pb_InstallSnapshotRequest \<Rightarrow> err + pb_InstallSnapshotResponse) \<Rightarrow>
    string \<Rightarrow> InstallSnapshotRequest \<Rightarrow> (('s, 'c) transportMock, InstallSnapshotResponse) action" where
  "TM_SendInstallSnapshot rnd dial call addr request =
     bindA (readA (unreachable rnd addr)) (\<lambda>lost.
     if lost then raiseA (Error (ErrNew ''could not send InstallSnapshot RPC: disconnected''))
     else onBase (SendInstallSnapshot dial call addr request))"

section \<open>A state machine that records its operations\<close>

record stateMachineMock =
  sm_operations :: "Operation list"
  snapshotting :: bool
  snapshotSize :: int

definition newStateMachineMock :: "bool \<Rightarrow> int \<Rightarrow> stateMachineMock" where
  "newStateMachineMock snp sz = \<lparr>sm_operations = [], snapshotting = snp, snapshotSize = sz\<rparr>"

record gob =
  gobEncode :: "Operation list \<Rightarrow> err + bytes"
  gobDecode :: "bytes \<Rightarrow> err + Operation list"

text \<open>The fields \<^verbatim>\<open>quorumVerified\<close> and \<^verbatim>\<open>readIndex\<close> are not exported: gob leaves them out.\<close>

definition exported :: "Operation \<Rightarrow> Operation" where
  "exported oper = oper\<lparr>op_quorumVerified := False, op_readIndex := 0\<rparr>"

definition gob_codec :: "gob \<Rightarrow> bool" where
  "gob_codec G \<longleftrightarrow> (\<forall>ops bs. gobEncode G ops = Inr bs \<longrightarrow> gobDecode G bs = Inr (map exported ops))"

definition encodeOperations :: "gob \<Rightarrow> Operation list \<Rightarrow> err + bytes" where
  "encodeOperations G operations = gobEncode G operations"

definition decodeOperations :: "gob \<Rightarrow> bytes \<Rightarrow> err + Operation list" where
  "decodeOperations G dat = gobDecode G dat"

definition SM_Apply :: "Operation \<Rightarrow> stateMachineMock \<Rightarrow> nat \<times> stateMachineMock" where
  "SM_Apply operation s =
     (if op_Type operation = LeaseBasedReadOnly \<or> op_Type operation = LinearizableReadOnly
      then (length (sm_operations s), s)
      else let s' = s\<lparr>sm_operations := sm_operations s @ [operation]\<rparr> in (length (sm_operations s'), s'))"

text \<open>What \<^verbatim>\<open>Snapshot\<close> writes; the write itself belongs to the caller's file.\<close>

definition SM_Snapshot :: "gob \<Rightarrow> stateMachineMock \<Rightarrow> err + bytes" where
  "SM_Snapshot G s = map_sum (Wrapf ''error taking snapshot of state machine: error'') id (encodeOperations G (sm_operations s))"

definition SM_Restore :: "gob \<Rightarrow> bytes \<Rightarrow> stateMachineMock \<Rightarrow> err + stateMachineMock" where
  "SM_Restore G bs s = map_sum (Wrapf ''error restoring state machine: error'') (\<lambda>es. s\<lparr>sm_operations := es\<rparr>) (decodeOperations G bs)"

text \<open>The remainder of Go truncates; by zero it panics.\<close>

definition SM_NeedSnapshot :: "int \<Rightarrow> stateMachineMock \<Rightarrow> exn + bool" where
  "SM_NeedSnapshot logSize s =
     (if \<not> snapshotting s then Inr False
      else if snapshotSize s = 0 then Inl (Panic ''integer divide by zero'')
      else Inr (\<bar>logSize\<bar> mod \<bar>snapshotSize s\<bar> = 0))"

definition appliedOperations :: "stateMachineMock \<Rightarrow> Operation list" where
  "appliedOperations s = sm_operations s"

text \<open>
  The mock as the state machine of a node. The node asks \<^verbatim>\<open>NeedSnapshot\<close> only for a yes or no, so a snapshot size of
  zero together with snapshotting is outside of this instance.
\<close>

definition mockDeps :: "gob \<Rightarrow> (stateMachineMock, nat) deps \<Rightarrow> (stateMachineMock, nat) deps" where
  "mockDeps G D = D\<lparr>fsmApply := SM_Apply,
     fsmSnapshot := (\<lambda>s. case SM_Snapshot G s of Inl _ \<Rightarrow> None | Inr bs \<Rightarrow> Some bs),
     fsmRestore := (\<lambda>bs s. case SM_Restore G bs s of Inl _ \<Rightarrow> None | Inr s' \<Rightarrow> Some s'),
     fsmNeedSnapshot := (\<lambda>s n. SM_NeedSnapshot n s = Inr True)\<rparr>"

end
