(* ===== verification/TestCluster.thy ===== *)
theory TestCluster
  imports TestMocks Client
begin

text \<open>
  The cluster of testing.go: nodes with mock transports and state machines, and the operations tests use to crash,
  restart, partition and reconnect them, to submit operations and to check the result. \<^verbatim>\<open>t.Fatalf\<close> is \<open>Fatal\<close>. The
  state machine and the directory of a node are part of the node; \<^verbatim>\<open>t.TempDir()\<close> is the argument \<open>fresh\<close>. Iteration
  over a map follows the order of its keys, or an order that is an argument where the result depends on it. What
  the running nodes do while a test waits is an argument, too, and so is the clock: a loop with a deadline gets the list
  of its rounds, each with the time that has passed when the round begins; the end of the list is the deadline.
\<close>

definition Second :: duration where "Second = 1000000000"

definition maxElectionTime :: duration where "maxElectionTime = 5 * Second"
definition maxMembershipChangeTime :: duration where "maxMembershipChangeTime = 10 * Second"
definition maxSubmissionTime :: duration where "maxSubmissionTime = 10 * Second"
definition futureTimeout :: duration where "futureTimeout = 200 * Millisecond"

text \<open>Unlike the others, this constant is compared with a \<^verbatim>\<open>time.Duration\<close>: three nanoseconds.\<close>

definition maxMatchTime :: duration where "maxMatchTime = 3"

type_synonym node = "(stateMachineMock, nat) raft"

record ('s, 'c) testCluster =
  tc_nodes :: "(string, node) fmap"
  tc_configuration :: Configuration
  tc_transports :: "(string, ('s, 'c) transportMock) fmap"
  tc_snapshotting :: bool
  tc_snapshotSize :: int
  tc_lossRate :: int

type_synonym ('s, 'c, 'a) tcA = "(('s, 'c) testCluster, 'a) action"

definition nilPointer :: exn where
  "nilPointer = Panic ''nil pointer dereference''"

primrec forA :: "'x list \<Rightarrow> ('x \<Rightarrow> ('s, unit) action) \<Rightarrow> ('s, unit) action" where
  "forA [] f = returnA ()"
| "forA (x # xs) f = bindA (f x) (\<lambda>_. forA xs f)"

definition nodeIDs :: "('s, 'c) testCluster \<Rightarrow> string list" where
  "nodeIDs tc = sorted_list_of_fset (fmdom (tc_nodes tc))"

definition nodeOf :: "string \<Rightarrow> ('s, 'c) testCluster \<Rightarrow> exn + node" where
  "nodeOf i tc = (case fmlookup (tc_nodes tc) i of None \<Rightarrow> Inl nilPointer | Some r \<Rightarrow> Inr r)"

text \<open>An operation of the node \<open>i\<close>; a change of the transport of \<open>i\<close>.\<close>

definition onNode :: "string \<Rightarrow> (node, 'a) action \<Rightarrow> ('s, 'c, 'a) tcA" where
  "onNode i m =
     bindA (readA (nodeOf i)) (\<lambda>_.
     zoomA (\<lambda>tc. the (fmlookup (tc_nodes tc) i)) (\<lambda>r tc. tc\<lparr>tc_nodes := fmupd i r (tc_nodes tc)\<rparr>) m)"

definition onTransport :: "string \<Rightarrow> (('s, 'c) transportMock \<Rightarrow> ('s, 'c) transportMock) \<Rightarrow> ('s, 'c, unit) tcA" where
  "onTransport i g =
     bindA getA (\<lambda>tc.
     case fmlookup (tc_transports tc) i of
       None \<Rightarrow> raiseA nilPointer
     | Some t \<Rightarrow> modifyA (\<lambda>tc. tc\<lparr>tc_transports := fmupd i (g t) (tc_transports tc)\<rparr>))"

section \<open>Creating nodes\<close>

record testDeps =
  td_deps :: "(stateMachineMock, nat) deps"
  td_resolve :: "string \<Rightarrow> err + string"

definition makeRaft :: "testDeps \<Rightarrow> time \<Rightarrow> string \<Rightarrow> string \<Rightarrow> bool \<Rightarrow> int \<Rightarrow>
    (dataPath, node \<times> ('s, 'c) transportMock) action" where
  "makeRaft T now i addr snp sz =
     (let f = newStateMachineMock snp sz in
      bindA (readA (\<lambda>_. map_sum Error id (newTransportMock (td_resolve T) addr))) (\<lambda>mock.
      bindA (NewRaft (td_deps T) (td_resolve T) now i addr f [WithLogLevel LvDebug, WithTransport (Some (tm_Transport mock))]) (\<lambda>(r, t, _).
      returnA (r, mock\<lparr>tm_Transport := t\<rparr>))))"

text \<open>The directory of a node, as it is left on disk.\<close>

definition diskOf :: "node \<Rightarrow> dataPath" where
  "diskOf r = \<lparr>dp_log = log r, dp_state = stateStorage r, dp_snapshots = snapshotStorage r\<rparr>"

text \<open>A node is made from the directory \<open>dir\<close> and added, with the given loss rate.\<close>

definition addNode :: "testDeps \<Rightarrow> time \<Rightarrow> string \<Rightarrow> string \<Rightarrow> dataPath \<Rightarrow> string \<Rightarrow> int \<Rightarrow> ('s, 'c, unit) tcA" where
  "addNode T now i addr dir msg loss =
     bindA getA (\<lambda>tc.
     bindA (fatalA msg (readA (\<lambda>_. fst (makeRaft T now i addr (tc_snapshotting tc) (tc_snapshotSize tc) dir)))) (\<lambda>(r, t).
     modifyA (\<lambda>tc. tc\<lparr>tc_nodes := fmupd i r (tc_nodes tc), tc_transports := fmupd i (t\<lparr>lossRate := loss\<rparr>) (tc_transports tc)\<rparr>)))"

text \<open>The struct that is returned does not get the loss rate.\<close>

definition newCluster :: "testDeps \<Rightarrow> time \<Rightarrow> dataPath \<Rightarrow> nat \<Rightarrow> bool \<Rightarrow> int \<Rightarrow> int \<Rightarrow> exn + ('s, 'c) testCluster" where
  "newCluster T now fresh numServers snp sz loss =
     (let conf = makeClusterConfiguration numServers;
          tc0 = \<lparr>tc_nodes = fmempty, tc_configuration = conf, tc_transports = fmempty, tc_snapshotting = snp,
                 tc_snapshotSize = sz, tc_lossRate = 0\<rparr> in
      case forA (sorted_list_of_fset (fmdom (Members conf)))
             (\<lambda>i. addNode T now i (the (fmlookup (Members conf) i)) fresh ''failed to create node'' loss) tc0 of
        (Inl e, _) \<Rightarrow> Inl e
      | (Inr _, tc) \<Rightarrow> Inr tc)"

section \<open>Starting, stopping, crashing\<close>

definition startCluster :: "testDeps \<Rightarrow> time \<Rightarrow> err option \<Rightarrow> ('s, 'c, unit) tcA" where
  "startCluster T now run =
     bindA getA (\<lambda>tc. forA (nodeIDs tc) (\<lambda>i.
       bindA (fatalA ''failed to bootstrap node'' (onNode i (Bootstrap (td_deps T) (Members (tc_configuration tc))))) (\<lambda>_.
       fatalA ''failed to start node'' (onNode i (Start (td_deps T) now run)))))"

definition Stop :: "(node, unit) action" where
  "Stop = bindA Stop_begin (\<lambda>running. whenA running Stop_end)"

definition stopCluster :: "('s, 'c, unit) tcA" where
  "stopCluster = bindA getA (\<lambda>tc. forA (nodeIDs tc) (\<lambda>i. onNode i Stop))"

definition crashServer :: "string \<Rightarrow> ('s, 'c, unit) tcA" where
  "crashServer i =
     bindA getA (\<lambda>tc.
     case fmlookup (tc_nodes tc) i of
       None \<Rightarrow> raiseA (Fatal ''attempted to crash node that does not exist'')
     | Some r \<Rightarrow>
         if status_State (GetStatus r) = Shutdown then raiseA (Fatal ''attempted to crash server that was already crashed'')
         else onNode i Stop)"

text \<open>An element of a list, chosen by the generator.\<close>

definition pick :: "(int \<Rightarrow> int) \<Rightarrow> string list \<Rightarrow> exn + string" where
  "pick rnd xs = map_sum id (\<lambda>k. xs ! nat k) (RandomInt rnd 0 (int (length xs)))"

definition crashRandom :: "(int \<Rightarrow> int) \<Rightarrow> ('s, 'c, string) tcA" where
  "crashRandom rnd =
     bindA getA (\<lambda>tc.
     let notCrashed = filter (\<lambda>i. status_State (GetStatus (the (fmlookup (tc_nodes tc) i))) \<noteq> Shutdown) (nodeIDs tc) in
     bindA (readA (\<lambda>_. pick rnd notCrashed)) (\<lambda>i.
     bindA (onNode i Stop) (\<lambda>_. returnA i)))"

text \<open>The error of \<^verbatim>\<open>Start\<close> is ignored.\<close>

definition restart :: "testDeps \<Rightarrow> time \<Rightarrow> err option \<Rightarrow> string \<Rightarrow> ('s, 'c, unit) tcA" where
  "restart T now run i =
     bindA getA (\<lambda>tc.
     case fmlookup (tc_nodes tc) i of
       None \<Rightarrow> raiseA (Fatal ''attempted to restart node which does not exist'')
     | Some crashed \<Rightarrow>
         bindA (addNode T now i (address crashed) (diskOf crashed) ''failed to create node'' (tc_lossRate tc)) (\<lambda>_.
         bindA (tryA (onNode i (Start (td_deps T) now run))) (\<lambda>_. returnA ())))"

definition restartServer :: "testDeps \<Rightarrow> time \<Rightarrow> err option \<Rightarrow> string \<Rightarrow> ('s, 'c, unit) tcA" where
  "restartServer T now run i = restart T now run i"

definition restartServers :: "testDeps \<Rightarrow> time \<Rightarrow> err option \<Rightarrow> ('s, 'c, unit) tcA" where
  "restartServers T now run =
     bindA getA (\<lambda>tc. forA (nodeIDs tc) (\<lambda>i.
       bindA (readA (nodeOf i)) (\<lambda>r. whenA (status_State (GetStatus r) = Shutdown) (restart T now run i))))"

section \<open>The network\<close>

text \<open>Both directions between two nodes.\<close>

definition cutLink :: "node \<Rightarrow> node \<Rightarrow> ('s, 'c, unit) tcA" where
  "cutLink node1 node2 =
     bindA (onTransport (raft_id node1) (TM_disconnect (address node2))) (\<lambda>_.
     onTransport (raft_id node2) (TM_disconnect (address node1)))"

text \<open>The nodes of the partition: the first ones of the iteration, until there are \<open>size\<close> of them.\<close>

fun choosePartition :: "nat \<Rightarrow> string list \<Rightarrow> string list \<Rightarrow> string list" where
  "choosePartition sz acc [] = acc"
| "choosePartition sz acc (i # is) =
     (if length (acc @ [i]) = sz then acc @ [i] else choosePartition sz (acc @ [i]) is)"

text \<open>\<open>order\<close>: the order in which the first loop of \<^verbatim>\<open>createPartition\<close> visits the nodes.\<close>

definition createPartition :: "string list \<Rightarrow> ('s, 'c, unit) tcA" where
  "createPartition order =
     bindA getA (\<lambda>tc.
     let partitionSize = (length (nodeIDs tc) - 1) div 2;
         cutOff = choosePartition partitionSize [] order in
     bindA (forA cutOff (\<lambda>i. onTransport i (\<lambda>t. t\<lparr>isDisconnected := True\<rparr>))) (\<lambda>_.
     forA (nodeIDs tc) (\<lambda>id1. whenA (id1 \<in> set cutOff)
       (forA (nodeIDs tc) (\<lambda>id2. whenA (id2 \<notin> set cutOff)
         (cutLink (the (fmlookup (tc_nodes tc) id1)) (the (fmlookup (tc_nodes tc) id2))))))))"

definition disconnect :: "string \<Rightarrow> ('s, 'c, unit) tcA" where
  "disconnect i =
     bindA getA (\<lambda>tc.
     case fmlookup (tc_nodes tc) i of
       None \<Rightarrow> raiseA (Fatal ''attempted to disconnected node that does not exist'')
     | Some node1 \<Rightarrow>
         bindA (forA (nodeIDs tc) (\<lambda>id2. whenA (id2 \<noteq> i) (cutLink node1 (the (fmlookup (tc_nodes tc) id2))))) (\<lambda>_.
         onTransport (raft_id node1) (\<lambda>t. t\<lparr>isDisconnected := True\<rparr>)))"

definition disconnectServer :: "string \<Rightarrow> ('s, 'c, unit) tcA" where
  "disconnectServer i = disconnect i"

definition disconnectRandom :: "(int \<Rightarrow> int) \<Rightarrow> ('s, 'c, string) tcA" where
  "disconnectRandom rnd =
     bindA getA (\<lambda>tc.
     let notDisconnected = filter (\<lambda>i. \<not> isDisconnected (the (fmlookup (tc_transports tc) i))) (nodeIDs tc) in
     bindA (readA (\<lambda>_. pick rnd notDisconnected)) (\<lambda>i.
     bindA (disconnect i) (\<lambda>_. returnA i)))"

definition reconnectServer :: "string \<Rightarrow> ('s, 'c, unit) tcA" where
  "reconnectServer i =
     bindA getA (\<lambda>tc.
     case fmlookup (tc_nodes tc) i of
       None \<Rightarrow> raiseA (Fatal ''attempted to reconnect node that does not exist'')
     | Some node1 \<Rightarrow>
         bindA (forA (nodeIDs tc) (\<lambda>id2. whenA (id2 \<noteq> i)
           (let node2 = the (fmlookup (tc_nodes tc) id2) in
            bindA (onTransport (raft_id node1) (TM_connect (address node2))) (\<lambda>_.
            onTransport (raft_id node2) (TM_connect (address node1)))))) (\<lambda>_.
         onTransport i (\<lambda>t. t\<lparr>isDisconnected := False\<rparr>)))"

definition reconnectAllServers :: "('s, 'c, unit) tcA" where
  "reconnectAllServers =
     bindA getA (\<lambda>tc.
     forA (nodeIDs tc) (\<lambda>id1. forA (nodeIDs tc) (\<lambda>id2. whenA (id2 \<noteq> id1)
       (let node1 = the (fmlookup (tc_nodes tc) id1); node2 = the (fmlookup (tc_nodes tc) id2) in
        bindA (onTransport (raft_id node1) (TM_connect (address node2))) (\<lambda>_.
        onTransport (raft_id node1) (\<lambda>t. t\<lparr>isDisconnected := False\<rparr>))))))"

text \<open>The first number whose name is not taken.\<close>

partial_function (option) firstUnused :: "(nat \<Rightarrow> string) \<Rightarrow> string fset \<Rightarrow> nat \<Rightarrow> nat option" where
  "firstUnused name used i = (if name i |\<notin>| used then Some i else firstUnused name used (Suc i))"

definition unusedIDandAddress :: "('s, 'c) testCluster \<Rightarrow> (string \<times> string) option" where
  "unusedIDandAddress tc =
     (let addresses = (\<lambda>i. address (the (fmlookup (tc_nodes tc) i))) |`| fmdom (tc_nodes tc) in
      case firstUnused decimal (fmdom (tc_nodes tc)) 0 of None \<Rightarrow> None | Some i \<Rightarrow>
      case firstUnused localAddress addresses 0 of None \<Rightarrow> None | Some j \<Rightarrow>
      Some (decimal i, localAddress j))"

section \<open>Clients\<close>

text \<open>
  One call of a node and the wait for its answer: the node that is asked, the time, whether the timer of the future is
  taken although an answer is there, and what the cluster does meanwhile. Without an answer the timer fires.
\<close>

record ('s, 'c) attempt =
  at_node :: string
  at_now :: time
  at_timer :: bool
  at_run :: "('s, 'c) testCluster \<Rightarrow> ('s, 'c) testCluster"

definition await :: "(node \<Rightarrow> 'a chans) \<Rightarrow> ('a chans \<Rightarrow> node \<Rightarrow> node) \<Rightarrow> 'a \<Rightarrow> ('s, 'c) attempt \<Rightarrow> 'a future \<Rightarrow> ('s, 'c, 'a result) tcA" where
  "await get put zero a fut =
     bindA (modifyA (at_run a)) (\<lambda>_.
     onNode (at_node a) (bindA getA (\<lambda>r.
       case Await zero (at_timer a \<or> get r (responseCh fut) = None) fut (get r) of
         None \<Rightarrow> returnA \<lparr>res_success = zero, res_err = Some ErrTimeout\<rparr>
       | Some (res, _, chans) \<Rightarrow> bindA (modifyA (put chans)) (\<lambda>_. returnA res))))"

definition awaitOperation :: "('s, 'c) attempt \<Rightarrow> nat OperationResponse future \<Rightarrow> ('s, 'c, nat OperationResponse result) tcA" where
  "awaitOperation a fut = await opChans (\<lambda>cs r. r\<lparr>opChans := cs\<rparr>) zeroResponse a fut"

definition awaitConfiguration :: "('s, 'c) attempt \<Rightarrow> Configuration future \<Rightarrow> ('s, 'c, Configuration result) tcA" where
  "awaitConfiguration a fut = await confChans (\<lambda>cs r. r\<lparr>confChans := cs\<rparr>) emptyConfiguration a fut"

text \<open>One pass over the nodes, which ends with the first one that answers.\<close>

fun submitPass :: "testDeps \<Rightarrow> bool \<Rightarrow> OperationType \<Rightarrow> bytes \<Rightarrow> ('s, 'c) attempt list \<Rightarrow> ('s, 'c, bool) tcA" where
  "submitPass T expectFail ty oper [] = returnA False"
| "submitPass T expectFail ty oper (a # as) =
     bindA (onNode (at_node a) (SubmitOperation (td_deps T) (at_now a) oper ty futureTimeout)) (\<lambda>fut.
     bindA (awaitOperation a fut) (\<lambda>res.
     if res_err res \<noteq> None then submitPass T expectFail ty oper as
     else if expectFail then raiseA (Fatal ''expected the operation to fail, but it was successful'')
     else if op_Bytes (or_Operation (res_success res)) \<noteq> oper
       then raiseA (Fatal ''operation response does not match submitted operation'')
     else returnA True))"

fun submitLoop :: "testDeps \<Rightarrow> bool \<Rightarrow> OperationType \<Rightarrow> bytes \<Rightarrow> (duration \<times> ('s, 'c) attempt list) list \<Rightarrow> ('s, 'c, bool) tcA" where
  "submitLoop T expectFail ty oper [] = returnA False"
| "submitLoop T expectFail ty oper ((elapsed, as) # rounds) =
     (if elapsed < maxSubmissionTime
      then bindA (submitPass T expectFail ty oper as) (\<lambda>success.
           if success then returnA True else submitLoop T expectFail ty oper rounds)
      else returnA False)"

text \<open>Each operation comes with the rounds of its loop.\<close>

definition submit :: "testDeps \<Rightarrow> bool \<Rightarrow> OperationType \<Rightarrow> (bytes \<times> (duration \<times> ('s, 'c) attempt list) list) list \<Rightarrow> ('s, 'c, unit) tcA" where
  "submit T expectFail ty operations =
     forA operations (\<lambda>(oper, rounds).
       bindA (submitLoop T expectFail ty oper rounds) (\<lambda>success.
       if \<not> success \<and> \<not> expectFail then raiseA (Fatal ''cluster timed out trying to apply operation'') else returnA ()))"

definition checkAdded :: "string \<Rightarrow> string \<Rightarrow> bool \<Rightarrow> Configuration \<Rightarrow> exn + unit" where
  "checkAdded i addr voter c =
     (case fmlookup (Members c) i of
        None \<Rightarrow> Inl (Fatal ''membership change returned success, but node is missing from configuration'')
      | Some actual \<Rightarrow>
          if actual \<noteq> addr then Inl (Fatal ''membership change returned success, but node has incorrect address'')
          else if (fmlookup (IsVoter c) i = Some True) \<noteq> voter
          then Inl (Fatal ''membership change returned success, but node has incorrect voting status'')
          else Inr ())"

fun addPass :: "testDeps \<Rightarrow> string \<Rightarrow> string \<Rightarrow> bool \<Rightarrow> ('s, 'c) attempt list \<Rightarrow> ('s, 'c, bool) tcA" where
  "addPass T i addr voter [] = returnA False"
| "addPass T i addr voter (a # as) =
     bindA (onNode (at_node a) (AddServer (td_deps T) (at_now a) i addr voter futureTimeout)) (\<lambda>fut.
     bindA (awaitConfiguration a fut) (\<lambda>res.
     if res_err res \<noteq> None then addPass T i addr voter as
     else bindA (readA (\<lambda>_. checkAdded i addr voter (res_success res))) (\<lambda>_. returnA True)))"

fun addLoop :: "testDeps \<Rightarrow> string \<Rightarrow> string \<Rightarrow> bool \<Rightarrow> (duration \<times> ('s, 'c) attempt list) list \<Rightarrow> ('s, 'c, unit) tcA" where
  "addLoop T i addr voter [] = raiseA (Fatal ''timed out trying to add a node'')"
| "addLoop T i addr voter ((elapsed, as) # rounds) =
     (if elapsed < maxMembershipChangeTime
      then bindA (addPass T i addr voter as) (\<lambda>added. if added then returnA () else addLoop T i addr voter rounds)
      else raiseA (Fatal ''timed out trying to add a node''))"

definition addServer :: "testDeps \<Rightarrow> time \<Rightarrow> err option \<Rightarrow> dataPath \<Rightarrow> string \<Rightarrow> string \<Rightarrow> bool \<Rightarrow>
    (duration \<times> ('s, 'c) attempt list) list \<Rightarrow> ('s, 'c, unit) tcA" where
  "addServer T now run fresh i addr voter rounds =
     bindA getA (\<lambda>tc.
     bindA (whenA (fmlookup (tc_nodes tc) i = None)
       (bindA (addNode T now i addr fresh ''failed to make node'' (tc_lossRate tc)) (\<lambda>_.
        fatalA ''failed to start node'' (onNode i (Start (td_deps T) now run))))) (\<lambda>_.
     addLoop T i addr voter rounds))"

text \<open>The removed node is stopped before the test whether it exists.\<close>

definition dropNode :: "string \<Rightarrow> ('s, 'c, unit) tcA" where
  "dropNode i = bindA (onNode i Stop) (\<lambda>_.
     modifyA (\<lambda>tc. tc\<lparr>tc_nodes := fmdrop i (tc_nodes tc), tc_transports := fmdrop i (tc_transports tc)\<rparr>))"

fun removePass :: "testDeps \<Rightarrow> string \<Rightarrow> ('s, 'c) attempt list \<Rightarrow> ('s, 'c, bool) tcA" where
  "removePass T i [] = returnA False"
| "removePass T i (a # as) =
     bindA (onNode (at_node a) (RemoveServer (td_deps T) (at_now a) i futureTimeout)) (\<lambda>fut.
     bindA (awaitConfiguration a fut) (\<lambda>res.
     if res_err res \<noteq> None then removePass T i as
     else if i |\<in>| fmdom (Members (res_success res)) \<or> i |\<in>| fmdom (IsVoter (res_success res))
     then raiseA (Fatal ''membership change returned success, but node is still in configuration'')
     else bindA (dropNode i) (\<lambda>_. returnA True)))"

fun removeServer :: "testDeps \<Rightarrow> string \<Rightarrow> (duration \<times> ('s, 'c) attempt list) list \<Rightarrow> ('s, 'c, unit) tcA" where
  "removeServer T i [] = raiseA (Fatal ''timed out trying to remove a node'')"
| "removeServer T i ((elapsed, as) # rounds) =
     (if elapsed < maxMembershipChangeTime
      then bindA (removePass T i as) (\<lambda>removed. if removed then returnA () else removeServer T i rounds)
      else raiseA (Fatal ''timed out trying to remove a node''))"

section \<open>Checks\<close>

fun containsLoop :: "Operation list \<Rightarrow> u64 \<Rightarrow> bytes list \<Rightarrow> exn + bytes list" where
  "containsLoop [] maxIndex applied = Inr applied"
| "containsLoop (oper # ops) maxIndex applied =
     (let (maxIndex', applied') = (if op_LogIndex oper > maxIndex then (op_LogIndex oper, applied @ [op_Bytes oper]) else (maxIndex, applied)) in
      if op_LogIndex oper < maxIndex' then Inl (Fatal ''applied operations log indices are not monotonic'')
      else containsLoop ops maxIndex' applied')"

definition checkContainsAll :: "bytes list \<Rightarrow> Operation list \<Rightarrow> exn + unit" where
  "checkContainsAll submitted applied =
     (case containsLoop applied 0 [] of
        Inl e \<Rightarrow> Inl e
      | Inr xs \<Rightarrow> if xs \<noteq> submitted then Inl (Fatal ''applied operations do not match submitted operations'') else Inr ())"

text \<open>The loop only looks for the first difference; it fails in any case.\<close>

definition compareOperations :: "Operation list \<Rightarrow> Operation list \<Rightarrow> exn + unit" where
  "compareOperations expected actual =
     (if expected = actual then Inr ()
      else if list_ex (\<lambda>k. expected ! k \<noteq> actual ! k) [0..<FileUtil.Min (length expected) (length actual)]
      then Inl (Fatal ''state machines do not match'')
      else Inl (Fatal ''state machines do not match: incorrect number of operations''))"

text \<open>The operations a node has applied, in the map of the loop; a missing key is the empty slice.\<close>

type_synonym appliedMap = "(string, Operation list) fmap"

definition opsAt :: "appliedMap \<Rightarrow> string \<Rightarrow> Operation list" where
  "opsAt m i = (case fmlookup m i of None \<Rightarrow> [] | Some ops \<Rightarrow> ops)"

definition collectOne :: "('s, 'c) testCluster \<Rightarrow> string \<Rightarrow> string \<times> appliedMap \<Rightarrow> string \<times> appliedMap" where
  "collectOne tc i st = (case st of (matchID, m) \<Rightarrow>
     let ops = appliedOperations (fsm (the (fmlookup (tc_nodes tc) i))) in
     (if matchID = [] \<or> length ops > length (opsAt m matchID) then i else matchID, fmupd i ops m))"

definition countEqual :: "string \<Rightarrow> appliedMap \<Rightarrow> nat" where
  "countEqual matchID m = 1 + length (filter (\<lambda>i. i \<noteq> matchID \<and> opsAt m i = opsAt m matchID) (sorted_list_of_fset (fmdom m)))"

fun compareAll :: "string \<Rightarrow> appliedMap \<Rightarrow> string list \<Rightarrow> exn + unit" where
  "compareAll matchID m [] = Inr ()"
| "compareAll matchID m (i # is) =
     (if i = matchID then compareAll matchID m is
      else case compareOperations (opsAt m matchID) (opsAt m i) of Inl e \<Rightarrow> Inl e | Inr _ \<Rightarrow> compareAll matchID m is)"

text \<open>Each round sees the cluster as it is then.\<close>

fun matchLoop :: "int \<Rightarrow> bytes list \<Rightarrow> string \<times> appliedMap \<Rightarrow> (duration \<times> ('s, 'c) testCluster) list \<Rightarrow> exn + unit" where
  "matchLoop expected submitted (matchID, m) [] = compareAll matchID m (sorted_list_of_fset (fmdom m))"
| "matchLoop expected submitted (matchID, m) ((elapsed, tc) # rounds) =
     (if elapsed < maxMatchTime
      then case fold (collectOne tc) (nodeIDs tc) (matchID, m) of (matchID', m') \<Rightarrow>
        if int (countEqual matchID' m') \<ge> expected then checkContainsAll submitted (opsAt m' matchID')
        else matchLoop expected submitted (matchID', m') rounds
      else compareAll matchID m (sorted_list_of_fset (fmdom m)))"

definition checkStateMachines :: "int \<Rightarrow> bytes list \<Rightarrow> (duration \<times> ('s, 'c) testCluster) list \<Rightarrow> exn + unit" where
  "checkStateMachines expectedMatches submittedOperations rounds =
     matchLoop expectedMatches submittedOperations ('''', fmempty) rounds"

text \<open>The leaders that are not marked as disconnected, by the identifiers of their status.\<close>

definition leadersOf :: "('s, 'c) testCluster \<Rightarrow> string list" where
  "leadersOf tc = map (\<lambda>i. status_ID (GetStatus (the (fmlookup (tc_nodes tc) i))))
     (filter (\<lambda>i. let r = the (fmlookup (tc_nodes tc) i) in
        status_State (GetStatus r) = Leader \<and> \<not> isDisconnected (the (fmlookup (tc_transports tc) (raft_id r)))) (nodeIDs tc))"

fun leaderLoop :: "(duration \<times> ('s, 'c) testCluster) list \<Rightarrow> exn + string list" where
  "leaderLoop [] = Inr []"
| "leaderLoop ((elapsed, tc) # rounds) =
     (if elapsed < maxElectionTime
      then let leaders = leadersOf tc in
        if length leaders > 1 then Inl (Fatal ''cluster has more than one leader'')
        else if length leaders = 1 then Inr leaders
        else leaderLoop rounds
      else Inr [])"

definition checkLeaders :: "bool \<Rightarrow> (duration \<times> ('s, 'c) testCluster) list \<Rightarrow> exn + string" where
  "checkLeaders expectNoLeader rounds =
     (case leaderLoop rounds of
        Inl e \<Rightarrow> Inl e
      | Inr leaders \<Rightarrow>
          if leaders = [] \<and> \<not> expectNoLeader then Inl (Fatal ''cluster failed to elect a leader in a reasonable amount of time'')
          else if leaders \<noteq> [] \<and> expectNoLeader then Inl (Fatal ''cluster elected leader without quorum'')
          else if expectNoLeader then Inr '''' else Inr (hd leaders))"


end
