(* ===== verification/TestProps.thy ===== *)
theory TestProps
  imports TestCluster Samples
begin

text \<open>
  The test harness does what tests rely on: partitions cut exactly the messages between their sides, the recording
  state machine survives a snapshot, unused names are found; and where it does not: the comparison of the state
  machines at the end of a test.
\<close>

section \<open>Loops\<close>

lemma forA_Inr_induct:
  assumes "\<And>s. P [] s s" "\<And>x xs s s1 s2. f x s = (Inr (), s1) \<Longrightarrow> P xs s1 s2 \<Longrightarrow> P (x # xs) s s2"
    and "forA xs f s = (Inr (), s')"
  shows "P xs s s'"
  using assms(3)
proof (induction xs arbitrary: s)
  case Nil
  then show ?case using assms(1) by simp
next
  case (Cons x xs)
  then obtain s1 where "f x s = (Inr (), s1)" "forA xs f s1 = (Inr (), s')" by (auto simp: bindA_eq_Inr)
  then show ?case using assms(2) Cons.IH by blast
qed

section \<open>Messages that are lost\<close>

text \<open>
  \<open>cutBy R P tc tc'\<close>: between the two states the transport of \<open>i\<close> was cut from the addresses \<open>a\<close> with \<open>(i, a) \<in> R\<close>, those
  in \<open>P\<close> were marked, and nothing else changed.
\<close>

definition cutBy :: "(string \<times> string) set \<Rightarrow> string set \<Rightarrow> ('s, 'c) testCluster \<Rightarrow> ('s, 'c) testCluster \<Rightarrow> bool" where
  "cutBy R P tc tc' \<longleftrightarrow> tc_nodes tc' = tc_nodes tc \<and> fmdom (tc_transports tc') = fmdom (tc_transports tc) \<and>
     (\<forall>i t. fmlookup (tc_transports tc) i = Some t \<longrightarrow> (\<exists>t'. fmlookup (tc_transports tc') i = Some t' \<and>
        (\<forall>a. a |\<in>| disconnected t' \<longleftrightarrow> a |\<in>| disconnected t \<or> (i, a) \<in> R) \<and>
        (isDisconnected t' \<longleftrightarrow> isDisconnected t \<or> i \<in> P) \<and> lossRate t' = lossRate t \<and> tm_Transport t' = tm_Transport t))"

lemma cutBy_refl: "cutBy {} {} tc tc"
  by (auto simp: cutBy_def)

lemma cutBy_trans:
  assumes "cutBy R P tc1 tc2" "cutBy R' P' tc2 tc3"
  shows "cutBy (R \<union> R') (P \<union> P') tc1 tc3"
proof -
  have "\<exists>t'. fmlookup (tc_transports tc3) i = Some t' \<and>
        (\<forall>a. a |\<in>| disconnected t' \<longleftrightarrow> a |\<in>| disconnected t \<or> (i, a) \<in> R \<union> R') \<and>
        (isDisconnected t' \<longleftrightarrow> isDisconnected t \<or> i \<in> P \<union> P') \<and> lossRate t' = lossRate t \<and> tm_Transport t' = tm_Transport t"
    if t: "fmlookup (tc_transports tc1) i = Some t" for i t
  proof -
    obtain t2 where "fmlookup (tc_transports tc2) i = Some t2" "\<And>a. a |\<in>| disconnected t2 \<longleftrightarrow> a |\<in>| disconnected t \<or> (i, a) \<in> R"
      "isDisconnected t2 \<longleftrightarrow> isDisconnected t \<or> i \<in> P" "lossRate t2 = lossRate t" "tm_Transport t2 = tm_Transport t"
      using assms(1) t unfolding cutBy_def by metis
    moreover obtain t3 where "fmlookup (tc_transports tc3) i = Some t3" "\<And>a. a |\<in>| disconnected t3 \<longleftrightarrow> a |\<in>| disconnected t2 \<or> (i, a) \<in> R'"
      "isDisconnected t3 \<longleftrightarrow> isDisconnected t2 \<or> i \<in> P'" "lossRate t3 = lossRate t2" "tm_Transport t3 = tm_Transport t2"
      using assms(2) calculation(1) unfolding cutBy_def by metis
    ultimately show ?thesis by auto
  qed
  then show ?thesis using assms by (auto simp: cutBy_def)
qed

lemma onTransport_Inr:
  "onTransport i g tc = (Inr (), tc') \<longleftrightarrow>
     (\<exists>t. fmlookup (tc_transports tc) i = Some t \<and> tc' = tc\<lparr>tc_transports := fmupd i (g t) (tc_transports tc)\<rparr>)"
  by (auto simp: onTransport_def split: option.splits)

lemma fmdom_upd_same: "fmlookup m i = Some t \<Longrightarrow> finsert i (fmdom m) = fmdom m"
  by (meson finsert_absorb fmdomI)

lemma onTransport_effect:
  "onTransport i (TM_disconnect a) tc = (Inr (), tc') \<Longrightarrow> cutBy {(i, a)} {} tc tc'"
  "onTransport i (\<lambda>t. t\<lparr>isDisconnected := True\<rparr>) tc = (Inr (), tc') \<Longrightarrow> cutBy {} {i} tc tc'"
  by (auto simp: onTransport_Inr cutBy_def TM_disconnect_def fmdom_upd_same)

lemma cut_effect:
  assumes "cutLink node1 node2 tc = (Inr (), tc')"
  shows "cutBy {(raft_id node1, address node2), (raft_id node2, address node1)} {} tc tc'"
proof -
  from assms obtain tc1 where "onTransport (raft_id node1) (TM_disconnect (address node2)) tc = (Inr (), tc1)"
    "onTransport (raft_id node2) (TM_disconnect (address node1)) tc1 = (Inr (), tc')" by (auto simp: cutLink_def bindA_eq_Inr)
  from cutBy_trans[OF onTransport_effect(1)[OF this(1)] onTransport_effect(1)[OF this(2)]] show ?thesis by (simp add: insert_commute)
qed

text \<open>A loop whose rounds cut \<open>R x\<close> cuts the union.\<close>

lemma forA_cutBy:
  assumes "\<And>x s s'. f x s = (Inr (), s') \<Longrightarrow> cutBy (R x) (P x) s s'" "forA xs f tc = (Inr (), tc')"
  shows "cutBy (\<Union>x\<in>set xs. R x) (\<Union>x\<in>set xs. P x) tc tc'"
proof (rule forA_Inr_induct[where P = "\<lambda>xs s s'. cutBy (\<Union>x\<in>set xs. R x) (\<Union>x\<in>set xs. P x) s s'", OF _ _ assms(2)])
  show "cutBy (\<Union>x\<in>set (x # xs). R x) (\<Union>x\<in>set (x # xs). P x) s s2"
    if "f x s = (Inr (), s1)" "cutBy (\<Union>x\<in>set xs. R x) (\<Union>x\<in>set xs. P x) s1 s2" for x xs s s1 s2
    using cutBy_trans[OF assms(1)[OF that(1)] that(2)] by simp
qed (simp add: cutBy_refl)

lemma whenA_cutBy: "(b \<Longrightarrow> m s = (Inr (), s') \<Longrightarrow> cutBy R P s s') \<Longrightarrow> whenA b m s = (Inr (), s') \<Longrightarrow>
  cutBy (if b then R else {}) (if b then P else {}) s s'"
  by (cases b) (auto simp: cutBy_refl)

lemma forA_total:
  assumes "\<And>x s. x \<in> set xs \<Longrightarrow> I s \<Longrightarrow> \<exists>s'. f x s = (Inr (), s') \<and> I s'" "I s"
  shows "\<exists>s'. forA xs f s = (Inr (), s') \<and> I s'"
  using assms
proof (induction xs arbitrary: s)
  case (Cons x xs)
  obtain s1 where "f x s = (Inr (), s1)" "I s1" using Cons.prems(1)[of x s] Cons.prems(2) by auto
  then show ?case using Cons.IH[OF Cons.prems(1)] by (simp add: bindA_def)
qed auto

lemma onTransport_total:
  assumes "i |\<in>| fmdom (tc_transports tc)"
  shows "\<exists>tc'. onTransport i g tc = (Inr (), tc') \<and> fmdom (tc_transports tc') = fmdom (tc_transports tc)"
  using assms by (auto simp: onTransport_Inr fmlookup_dom_iff fmdom_upd_same)

lemma cut_total:
  assumes "raft_id node1 |\<in>| fmdom (tc_transports tc)" "raft_id node2 |\<in>| fmdom (tc_transports tc)"
  shows "\<exists>tc'. cutLink node1 node2 tc = (Inr (), tc') \<and> fmdom (tc_transports tc') = fmdom (tc_transports tc)"
proof -
  obtain tc1 where c: "onTransport (raft_id node1) (TM_disconnect (address node2)) tc = (Inr (), tc1)" "fmdom (tc_transports tc1) = fmdom (tc_transports tc)"
    using onTransport_total[OF assms(1)] by blast
  then show ?thesis using onTransport_total[of "raft_id node2" tc1] assms(2) by (simp add: cutLink_def bindA_def)
qed

section \<open>Partitions\<close>

definition nodeAt :: "('s, 'c) testCluster \<Rightarrow> string \<Rightarrow> node" where
  "nodeAt tc i = the (fmlookup (tc_nodes tc) i)"

definition transportAt :: "('s, 'c) testCluster \<Rightarrow> string \<Rightarrow> ('s, 'c) transportMock" where
  "transportAt tc i = the (fmlookup (tc_transports tc) i)"

definition wfCluster :: "('s, 'c) testCluster \<Rightarrow> bool" where
  "wfCluster tc \<longleftrightarrow> fmdom (tc_transports tc) = fmdom (tc_nodes tc) \<and> list_all (\<lambda>i. raft_id (nodeAt tc i) = i) (nodeIDs tc) \<and>
     distinct (map (\<lambda>i. address (nodeAt tc i)) (nodeIDs tc))"

lemma wfClusterD:
  assumes "wfCluster tc"
  shows "fmdom (tc_transports tc) = fmdom (tc_nodes tc)" "i |\<in>| fmdom (tc_nodes tc) \<Longrightarrow> raft_id (nodeAt tc i) = i"
    "i |\<in>| fmdom (tc_nodes tc) \<Longrightarrow> j |\<in>| fmdom (tc_nodes tc) \<Longrightarrow> address (nodeAt tc i) = address (nodeAt tc j) \<Longrightarrow> i = j"
  using assms by (auto simp: wfCluster_def list_all_iff nodeIDs_def distinct_map dest: inj_onD)

lemma set_nodeIDs: "set (nodeIDs tc) = fset (fmdom (tc_nodes tc))"
  by (simp add: nodeIDs_def)

lemma choosePartition_take: "length acc < sz \<Longrightarrow> choosePartition sz acc is = acc @ take (sz - length acc) is"
proof (induction sz acc "is" rule: choosePartition.induct)
  case (2 sz acc i "is")
  have "sz - length acc = Suc (sz - Suc (length acc))" using 2(2) by simp
  then show ?case using 2 by (auto simp: take_Cons')
qed auto

lemma cutLoops_effect:
  fixes tc1 tc2 :: "('s, 'c) testCluster"
  assumes "forA xs (\<lambda>i. whenA (A i) (forA ys (\<lambda>j. whenA (B j) (cutLink (g i) (g j))))) tc1 = (Inr (), tc2)"
  shows "cutBy (\<Union>i\<in>set xs. if A i then \<Union>j\<in>set ys. if B j then {(raft_id (g i), address (g j)), (raft_id (g j), address (g i))} else {} else {}) {} tc1 tc2"
proof -
  let ?L = "\<lambda>i j. if B j then {(raft_id (g i), address (g j)), (raft_id (g j), address (g i))} else {}"
  have one: "cutBy (?L i j) {} s s'" if "whenA (B j) (cutLink (g i) (g j)) s = (Inr (), s')" for i j and s s' :: "('s, 'c) testCluster"
    using that cut_effect by (cases "B j") (auto simp: cutBy_refl)
  have inner: "cutBy (if A i then \<Union>j\<in>set ys. ?L i j else {}) {} s s'"
    if "whenA (A i) (forA ys (\<lambda>j. whenA (B j) (cutLink (g i) (g j)))) s = (Inr (), s')" for i and s s' :: "('s, 'c) testCluster"
    using that forA_cutBy[where R = "?L i" and P = "\<lambda>_. {}" and xs = ys, OF one[of _ i]] by (cases "A i") (auto simp: cutBy_refl)
  show ?thesis
    using forA_cutBy[where P = "\<lambda>_. {}", OF inner assms] by simp
qed

text \<open>What the loops of \<^verbatim>\<open>createPartition\<close> do for the chosen nodes \<open>P\<close>.\<close>

lemma partition_effect:
  assumes "wfCluster tc" "set ps \<subseteq> fset (fmdom (tc_nodes tc))"
  defines "loops \<equiv> bindA (forA ps (\<lambda>i. onTransport i (\<lambda>t. t\<lparr>isDisconnected := True\<rparr>))) (\<lambda>_.
     forA (nodeIDs tc) (\<lambda>id1. whenA (id1 \<in> set ps)
       (forA (nodeIDs tc) (\<lambda>id2. whenA (id2 \<notin> set ps)
         (cutLink (the (fmlookup (tc_nodes tc) id1)) (the (fmlookup (tc_nodes tc) id2)))))))"
  shows "\<exists>tc'. loops tc = (Inr (), tc') \<and>
    cutBy {(i, address (nodeAt tc j)) |i j. i |\<in>| fmdom (tc_nodes tc) \<and> j |\<in>| fmdom (tc_nodes tc) \<and> (i \<in> set ps) \<noteq> (j \<in> set ps)} (set ps) tc tc'"
proof -
  let ?A = "fmdom (tc_nodes tc)"
  let ?I = "\<lambda>s :: ('a, 'b) testCluster. fmdom (tc_transports s) = ?A"
  let ?lnk = "\<lambda>i j. {(i, address (nodeAt tc j)), (j, address (nodeAt tc i))}"
  let ?in = "\<lambda>id1. forA (nodeIDs tc) (\<lambda>id2. whenA (id2 \<notin> set ps) (cutLink (nodeAt tc id1) (nodeAt tc id2))) :: ('a, 'b, unit) tcA"
  note wf = wfClusterD[OF assms(1)]
  have I0: "?I tc" using wf(1) .
  have a: "\<exists>tc1. forA ps (\<lambda>i. onTransport i (\<lambda>t. t\<lparr>isDisconnected := True\<rparr>)) tc = (Inr (), tc1) \<and> ?I tc1"
  proof (rule forA_total[where I = ?I])
    show "\<exists>s'. onTransport i (\<lambda>t. t\<lparr>isDisconnected := True\<rparr>) s = (Inr (), s') \<and> ?I s'" if "i \<in> set ps" "?I s" for i s
      using onTransport_total[of i s] that assms(2) by auto
  qed (rule I0)
  then obtain tc1 where tc1: "forA ps (\<lambda>i. onTransport i (\<lambda>t. t\<lparr>isDisconnected := True\<rparr>)) tc = (Inr (), tc1)" "?I tc1" by blast
  have c1: "cutBy (\<Union>i\<in>set ps. {}) (\<Union>i\<in>set ps. {i}) tc tc1" by (rule forA_cutBy[OF onTransport_effect(2) tc1(1)])
  have inner: "\<exists>s'. ?in i s = (Inr (), s') \<and> ?I s'" if "i \<in> set (nodeIDs tc)" "?I s" for i s
  proof (rule forA_total[where I = ?I])
    show "\<exists>s'. whenA (j \<notin> set ps) (cutLink (nodeAt tc i) (nodeAt tc j)) s = (Inr (), s') \<and> ?I s'" if "j \<in> set (nodeIDs tc)" "?I s" for j s
      using cut_total[of "nodeAt tc i" s "nodeAt tc j"] that wf(2) \<open>i \<in> set (nodeIDs tc)\<close> by (cases "j \<in> set ps") (auto simp: set_nodeIDs)
  qed (rule that(2))
  have "\<exists>s'. forA (nodeIDs tc) (\<lambda>i. whenA (i \<in> set ps) (?in i)) tc1 = (Inr (), s') \<and> ?I s'"
  proof (rule forA_total[where I = ?I])
    show "\<exists>s'. whenA (i \<in> set ps) (?in i) s = (Inr (), s') \<and> ?I s'" if "i \<in> set (nodeIDs tc)" "?I s" for i s
      using inner[OF that] that(2) by (cases "i \<in> set ps") auto
  qed (rule tc1(2))
  then obtain tc2 where tc2: "forA (nodeIDs tc) (\<lambda>i. whenA (i \<in> set ps) (?in i)) tc1 = (Inr (), tc2)" by blast
  from cutBy_trans[OF c1 cutLoops_effect[OF tc2]] have
    "cutBy (\<Union>i\<in>set (nodeIDs tc). if i \<in> set ps then \<Union>j\<in>set (nodeIDs tc). if j \<notin> set ps then
        {(raft_id (nodeAt tc i), address (nodeAt tc j)), (raft_id (nodeAt tc j), address (nodeAt tc i))} else {} else {}) (set ps) tc tc2"
    by simp
  moreover have "(\<Union>i\<in>set (nodeIDs tc). if i \<in> set ps then \<Union>j\<in>set (nodeIDs tc). if j \<notin> set ps then
        {(raft_id (nodeAt tc i), address (nodeAt tc j)), (raft_id (nodeAt tc j), address (nodeAt tc i))} else {} else {}) =
     {(i, address (nodeAt tc j)) |i j. i |\<in>| ?A \<and> j |\<in>| ?A \<and> (i \<in> set ps) \<noteq> (j \<in> set ps)}"
    using wf(2) by (auto simp: set_nodeIDs split: if_splits)
  moreover have "loops tc = (Inr (), tc2)" using tc1(1) tc2 by (simp add: loops_def bindA_def nodeAt_def)
  ultimately show ?thesis by auto
qed


text \<open>No call to the address gets out: every sender fails and leaves the transport as it is.\<close>

definition isolated :: "('s, 'c) transportMock \<Rightarrow> string \<Rightarrow> bool" where
  "isolated t a \<longleftrightarrow> (\<forall>rnd dial.
     (\<forall>call req. TM_SendAppendEntries rnd dial call a req t = (Inl (Error (ErrNew ''could not send AppendEntries RPC: disconnected'')), t)) \<and>
     (\<forall>call req. TM_SendRequestVote rnd dial call a req t = (Inl (Error (ErrNew ''could not send RequestVote RPC: disconnected'')), t)) \<and>
     (\<forall>call req. TM_SendInstallSnapshot rnd dial call a req t = (Inl (Error (ErrNew ''could not send InstallSnapshot RPC: disconnected'')), t)))"

lemma disconnected_isolated: "a |\<in>| disconnected t \<Longrightarrow> isolated t a"
  by (simp add: isolated_def unreachable_def TM_SendAppendEntries_def TM_SendRequestVote_def TM_SendInstallSnapshot_def bindA_readA)

lemma cutBy_isolated:
  assumes "cutBy R P tc tc'" "i |\<in>| fmdom (tc_transports tc)"
  shows "(i, a) \<in> R \<Longrightarrow> isolated (transportAt tc' i) a"
    "(i, a) \<notin> R \<Longrightarrow> unreachable rnd a (transportAt tc' i) = unreachable rnd a (transportAt tc i)"
    "isDisconnected (transportAt tc' i) \<longleftrightarrow> isDisconnected (transportAt tc i) \<or> i \<in> P"
proof -
  obtain t t' where t: "fmlookup (tc_transports tc) i = Some t" "fmlookup (tc_transports tc') i = Some t'"
    "\<And>a. a |\<in>| disconnected t' \<longleftrightarrow> a |\<in>| disconnected t \<or> (i, a) \<in> R" "isDisconnected t' \<longleftrightarrow> isDisconnected t \<or> i \<in> P" "lossRate t' = lossRate t"
    using assms unfolding cutBy_def fmlookup_dom_iff by metis
  show "(i, a) \<in> R \<Longrightarrow> isolated (transportAt tc' i) a" using t disconnected_isolated[of a t'] by (simp add: transportAt_def)
  show "(i, a) \<notin> R \<Longrightarrow> unreachable rnd a (transportAt tc' i) = unreachable rnd a (transportAt tc i)"
    using t by (simp add: transportAt_def unreachable_def shouldDropMessage_def)
  show "isDisconnected (transportAt tc' i) \<longleftrightarrow> isDisconnected (transportAt tc i) \<or> i \<in> P" using t by (simp add: transportAt_def)
qed

text \<open>C40. A partition of the test cluster cuts exactly the messages between its sides: with at least three nodes,
\<^verbatim>\<open>createPartition\<close> marks a minority of the nodes, the first ones in the order of the iteration, no call of a node reaches
a node of the other side, and calls within a side fare as before.\<close>

theorem partition_isolates:
  assumes "wfCluster tc" "3 \<le> length (nodeIDs tc)" "set order = set (nodeIDs tc)" "distinct order"
  defines "P \<equiv> set (take ((length (nodeIDs tc) - 1) div 2) order)"
  shows "\<exists>tc'. createPartition order tc = (Inr (), tc') \<and> P \<noteq> {} \<and> 2 * card P < length (nodeIDs tc) \<and>
    (\<forall>i j rnd. i \<in> set (nodeIDs tc) \<longrightarrow> j \<in> set (nodeIDs tc) \<longrightarrow>
       (isDisconnected (transportAt tc' i) \<longleftrightarrow> isDisconnected (transportAt tc i) \<or> i \<in> P) \<and>
       (if (i \<in> P) \<noteq> (j \<in> P) then isolated (transportAt tc' i) (address (nodeAt tc j))
        else unreachable rnd (address (nodeAt tc j)) (transportAt tc' i) = unreachable rnd (address (nodeAt tc j)) (transportAt tc i)))"
proof -
  let ?n = "length (nodeIDs tc)" and ?R = "{(i, address (nodeAt tc j)) |i j. i |\<in>| fmdom (tc_nodes tc) \<and> j |\<in>| fmdom (tc_nodes tc) \<and> (i \<in> P) \<noteq> (j \<in> P)}"
  have lo: "length order = ?n" using assms(3,4) distinct_card[of order] distinct_card[of "nodeIDs tc"] by (simp add: nodeIDs_def sorted_list_of_fset.rep_eq)
  have ps: "choosePartition ((?n - 1) div 2) [] order = take ((?n - 1) div 2) order" using assms(2) choosePartition_take[of "[]"] by simp
  have sub: "P \<subseteq> fset (fmdom (tc_nodes tc))" using assms(3) set_take_subset[of _ order] by (auto simp: P_def set_nodeIDs)
  obtain tc' where c: "createPartition order tc = (Inr (), tc')" "cutBy ?R P tc tc'"
    using partition_effect[OF assms(1) sub[unfolded P_def]] ps by (auto simp: createPartition_def Let_def P_def)
  have "card P = (?n - 1) div 2" using assms(4) lo by (simp add: P_def distinct_card)
  then have sz: "P \<noteq> {}" "2 * card P < ?n" using assms(2) by (auto simp: P_def)
  have inR: "(i, address (nodeAt tc j)) \<in> ?R \<longleftrightarrow> (i \<in> P) \<noteq> (j \<in> P)" if "i |\<in>| fmdom (tc_nodes tc)" "j |\<in>| fmdom (tc_nodes tc)" for i j
    using that wfClusterD(3)[OF assms(1)] by blast
  have pair: "(isDisconnected (transportAt tc' i) \<longleftrightarrow> isDisconnected (transportAt tc i) \<or> i \<in> P) \<and>
       (if (i \<in> P) \<noteq> (j \<in> P) then isolated (transportAt tc' i) (address (nodeAt tc j))
        else unreachable rnd (address (nodeAt tc j)) (transportAt tc' i) = unreachable rnd (address (nodeAt tc j)) (transportAt tc i))"
    if ij: "i \<in> set (nodeIDs tc)" "j \<in> set (nodeIDs tc)" for i j rnd
  proof -
    have d: "i |\<in>| fmdom (tc_nodes tc)" "j |\<in>| fmdom (tc_nodes tc)" "i |\<in>| fmdom (tc_transports tc)"
      using ij wfClusterD(1)[OF assms(1)] by (simp_all add: set_nodeIDs)
    note iso = cutBy_isolated[OF c(2) d(3)]
    show ?thesis
    proof (cases "(i \<in> P) \<noteq> (j \<in> P)")
      case True
      then show ?thesis using iso(1)[OF inR[OF d(1,2), THEN iffD2]] iso(3) by simp
    next
      case False
      then have "(i, address (nodeAt tc j)) \<notin> ?R" using inR[OF d(1,2)] by blast
      then show ?thesis using iso(2)[of _ rnd] iso(3) False by simp
    qed
  qed
  show ?thesis using c(1) sz pair by blast
qed


section \<open>Unused names\<close>

lemma firstUnused_finds:
  assumes "inj name"
  shows "\<exists>k. firstUnused name used i = Some k \<and> name k |\<notin>| used"
proof -
  have fin: "finite {k. name k |\<in>| used}" using finite_vimageI[OF _ assms, of "fset used"] by (simp add: vimage_def)
  show ?thesis
  proof (induction "card {k. i \<le> k \<and> name k |\<in>| used}" arbitrary: i rule: less_induct)
    case less
    show ?case
    proof (cases "name i |\<in>| used")
      case True
      have "{k. Suc i \<le> k \<and> name k |\<in>| used} \<subset> {k. i \<le> k \<and> name k |\<in>| used}"
        using True by (intro psubsetI) (auto simp: set_eq_iff intro!: exI[of _ i])
      then have "card {k. Suc i \<le> k \<and> name k |\<in>| used} < card {k. i \<le> k \<and> name k |\<in>| used}"
        using finite_subset[OF _ fin, of "{k. i \<le> k \<and> name k |\<in>| used}"] by (intro psubset_card_mono) auto
      from less[OF this] True show ?thesis by (simp add: firstUnused.simps[of name used i])
    qed (simp add: firstUnused.simps[of name used i])
  qed
qed

theorem unused_id_and_address:
  "\<exists>i a. unusedIDandAddress tc = Some (i, a) \<and> i \<notin> set (nodeIDs tc) \<and> a \<notin> (\<lambda>i. address (nodeAt tc i)) ` set (nodeIDs tc)"
proof -
  have "inj decimal" "inj localAddress" by (auto intro!: injI simp: localAddress_def decimal_inj)
  from firstUnused_finds[OF this(1)] firstUnused_finds[OF this(2)] obtain i j where
    "firstUnused decimal (fmdom (tc_nodes tc)) 0 = Some i" "decimal i |\<notin>| fmdom (tc_nodes tc)"
    "firstUnused localAddress ((\<lambda>i. address (the (fmlookup (tc_nodes tc) i))) |`| fmdom (tc_nodes tc)) 0 = Some j"
    "localAddress j |\<notin>| (\<lambda>i. address (the (fmlookup (tc_nodes tc) i))) |`| fmdom (tc_nodes tc)" by metis
  then show ?thesis by (auto simp: unusedIDandAddress_def Let_def set_nodeIDs nodeAt_def)
qed

section \<open>The state machine\<close>

text \<open>A snapshot holds the recorded operations, up to the fields that gob does not transmit.\<close>

theorem mock_snapshot_roundtrip:
  assumes "gob_codec G" "SM_Snapshot G s = Inr bs"
  shows "SM_Restore G bs s' = Inr (s'\<lparr>sm_operations := map exported (sm_operations s)\<rparr>)"
proof -
  have "gobEncode G (sm_operations s) = Inr bs"
    using assms(2) by (cases "gobEncode G (sm_operations s)") (simp_all add: SM_Snapshot_def encodeOperations_def)
  then show ?thesis using assms(1) by (simp add: gob_codec_def SM_Restore_def decodeOperations_def)
qed

section \<open>Checks\<close>

text \<open>
  The comparison of the state machines waits three nanoseconds: when the clock has moved that far before the loop is
  entered, the check accepts whatever the nodes have applied.
\<close>

theorem state_check_vacuous:
  assumes "maxMatchTime \<le> elapsed"
  shows "checkStateMachines expectedMatches submittedOperations ((elapsed, tc) # rounds) = Inr ()"
  using assms by (simp add: checkStateMachines_def sorted_list_of_fset.rep_eq)

text \<open>With a single node the partition has no target size: every node is marked, none is cut off.\<close>

lemma small_partition: "length (nodeIDs tc) \<le> 2 \<Longrightarrow> choosePartition ((length (nodeIDs tc) - 1) div 2) [] order = order"
proof -
  have "choosePartition 0 acc is = acc @ is" for acc "is" :: "string list"
    by (induction "is" arbitrary: acc) auto
  then show "length (nodeIDs tc) \<le> 2 \<Longrightarrow> choosePartition ((length (nodeIDs tc) - 1) div 2) [] order = order" by simp
qed

text \<open>
  \<^verbatim>\<open>checkContainsAll\<close> accepts exactly when the indices of the applied operations do not decrease and the first operations of
  the positive indices, in this order, are the submitted ones.
\<close>

definition opAt :: "Operation list \<Rightarrow> u64 \<Rightarrow> bytes" where
  "opAt ops i = (case find (\<lambda>oper. op_LogIndex oper = i) ops of None \<Rightarrow> [] | Some oper \<Rightarrow> op_Bytes oper)"

lemma remdups_adj_sorted:
  fixes ys :: "'a :: linorder list"
  shows "sorted (x # ys) \<Longrightarrow> remdups_adj (x # ys) = x # remdups_adj (filter (\<lambda>y. x < y) ys)"
proof (induction ys)
  case (Cons y ys)
  show ?case
  proof (cases "x = y")
    case False
    then have "x < y" "filter (\<lambda>z. x < z) ys = ys" using Cons.prems by (auto intro!: filter_True)
    then show ?thesis using False by simp
  qed (use Cons in simp)
qed auto

lemma containsLoop_ok:
  "containsLoop ops m acc = Inr xs \<longleftrightarrow> sorted (m # map op_LogIndex ops) \<and>
     xs = acc @ map (opAt ops) (remdups_adj (filter (\<lambda>i. m < i) (map op_LogIndex ops)))"
proof (induction ops arbitrary: m acc)
  case (Cons oper ops)
  let ?i = "op_LogIndex oper" and ?is = "map op_LogIndex ops"
  have later: "map (opAt (oper # ops)) (remdups_adj (filter (\<lambda>j. k < j) ?is)) = map (opAt ops) (remdups_adj (filter (\<lambda>j. k < j) ?is))"
    if "?i \<le> k" for k using that by (intro map_cong) (auto simp: opAt_def)
  consider "m < ?i" | "?i = m" | "?i < m" by (rule linorder_cases)
  then show ?case
  proof cases
    case 1
    have "remdups_adj (filter (\<lambda>j. m < j) (?i # ?is)) = ?i # remdups_adj (filter (\<lambda>j. ?i < j) ?is)" if "sorted (?i # ?is)"
    proof -
      have "filter (\<lambda>j. m < j) (?i # ?is) = ?i # ?is" using that 1 by (intro filter_True) auto
      then show ?thesis using remdups_adj_sorted[OF that] by simp
    qed
    moreover have "sorted (m # ?i # ?is) \<longleftrightarrow> sorted (?i # ?is)" using 1 by auto
    moreover have "opAt (oper # ops) ?i = op_Bytes oper" by (simp add: opAt_def)
    ultimately show ?thesis using 1 Cons.IH[of ?i "acc @ [op_Bytes oper]"] later[of ?i] by auto
  next
    case 2
    then show ?thesis using Cons.IH[of m acc] later[of m] by auto
  next
    case 3
    then show ?thesis by (auto simp: Let_def)
  qed
qed auto

theorem contains_all_spec:
  "checkContainsAll submitted ops = Inr () \<longleftrightarrow> sorted (map op_LogIndex ops) \<and>
     submitted = map (opAt ops) (remdups_adj (filter (\<lambda>i. 0 < i) (map op_LogIndex ops)))"
  using containsLoop_ok[of ops 0 "[]"] by (cases "containsLoop ops 0 []") (auto simp: checkContainsAll_def)

section \<open>New clusters\<close>

definition ident :: "('f, 'r) raft \<Rightarrow> string \<times> string" where
  "ident r = (raft_id r, address r)"

lemma keeps_restore: "keepsA ident (restore D)"
proof -
  have c: "keepsA ident (restoreConfigurations D is)" for "is"
  proof (induction "is")
    case Nil
    show ?case unfolding restoreConfigurations.simps by (intro keeps.intros)
  next
    case (Cons i "is")
    then show ?case unfolding restoreConfigurations.simps decodeConfA_def
      by (intro keeps.intros) (simp_all add: ident_def split: option.split)
  qed
  have s: "keepsA ident (restoreSnapshot D s)" for s
    unfolding restoreSnapshot_def Let_def onSnapshots_def decodeConfA_def case_prod_unfold
    by (intro keeps.from_get keeps.intros keeps.zoom) (simp_all add: ident_def)
  show ?thesis
    unfolding restore_def onLog_def onState_def onSnapshots_def lastIndexA_def case_prod_unfold
    by (intro keeps.from_get keeps.intros keeps.zoom s c) (simp_all add: ident_def)
qed

lemma NewRaft_ident:
  assumes "NewRaft D resolve now i addr f opts d = (Inr (r, t, lg), d')"
  shows "raft_id r = i \<and> address r = addr"
proof -
  from assms obtain o1 l st ss d1 d2 where "restoreNew D (freshRaft now i addr f o1 l st ss) d1 = (Inr r, d2)"
    by (auto simp: NewRaft_def bindA_eq_Inr Let_def)
  then obtain u where "restore D (freshRaft now i addr f o1 l st ss) = (Inr u, r)"
    by (cases "restore D (freshRaft now i addr f o1 l st ss)"; cases "fst (restore D (freshRaft now i addr f o1 l st ss))")
       (auto simp: restoreNew_def)
  then show ?thesis using keeps_restore[of D, unfolded relA_def, rule_format, of "freshRaft now i addr f o1 l st ss"]
    by (simp add: ident_def freshRaft_def)
qed

lemma addNode_ok:
  assumes "addNode T now i addr dir msg loss tc = (Inr (), tc')"
  shows "\<exists>r t. raft_id r = i \<and> address r = addr \<and> lossRate t = loss \<and>
    tc' = tc\<lparr>tc_nodes := fmupd i r (tc_nodes tc), tc_transports := fmupd i t (tc_transports tc)\<rparr>"
proof -
  from assms obtain r t where m: "fst (makeRaft T now i addr (tc_snapshotting tc) (tc_snapshotSize tc) dir) = Inr (r, t)"
    and tc': "tc' = tc\<lparr>tc_nodes := fmupd i r (tc_nodes tc), tc_transports := fmupd i (t\<lparr>lossRate := loss\<rparr>) (tc_transports tc)\<rparr>"
    by (auto simp: addNode_def bindA_eq_Inr)
  from m obtain d' where "makeRaft T now i addr (tc_snapshotting tc) (tc_snapshotSize tc) dir = (Inr (r, t), d')" by (metis prod.collapse)
  then have "raft_id r = i \<and> address r = addr" by (auto simp: makeRaft_def Let_def bindA_eq_Inr dest!: NewRaft_ident)
  with tc' show ?thesis by (intro exI[of _ r] exI[of _ "t\<lparr>lossRate := loss\<rparr>"]) simp
qed

text \<open>The nodes of a configuration, as far as they were made.\<close>

definition clusterOf :: "Configuration \<Rightarrow> int \<Rightarrow> ('s, 'c) testCluster \<Rightarrow> bool" where
  "clusterOf conf loss tc \<longleftrightarrow> fmdom (tc_transports tc) = fmdom (tc_nodes tc) \<and> tc_lossRate tc = 0 \<and>
     (\<forall>i r. fmlookup (tc_nodes tc) i = Some r \<longrightarrow> raft_id r = i \<and> fmlookup (Members conf) i = Some (address r)) \<and>
     (\<forall>i t. fmlookup (tc_transports tc) i = Some t \<longrightarrow> lossRate t = loss)"

lemma addNodes_ok:
  assumes "forA xs (\<lambda>i. addNode T now i (the (fmlookup (Members conf) i)) fresh msg loss) tc = (Inr (), tc')"
    and "set xs \<subseteq> fset (fmdom (Members conf))" "clusterOf conf loss tc"
  shows "clusterOf conf loss tc' \<and> fset (fmdom (tc_nodes tc')) = fset (fmdom (tc_nodes tc)) \<union> set xs"
  using assms
proof (induction xs arbitrary: tc)
  case (Cons i xs)
  then obtain tc1 where a: "addNode T now i (the (fmlookup (Members conf) i)) fresh msg loss tc = (Inr (), tc1)"
    and rest: "forA xs (\<lambda>i. addNode T now i (the (fmlookup (Members conf) i)) fresh msg loss) tc1 = (Inr (), tc')"
    by (auto simp: bindA_eq_Inr)
  from addNode_ok[OF a] Cons.prems have "clusterOf conf loss tc1" "fset (fmdom (tc_nodes tc1)) = insert i (fset (fmdom (tc_nodes tc)))"
    by (auto simp: clusterOf_def fmlookup_dom_iff split: if_splits)
  then show ?case using Cons.IH[OF rest] Cons.prems(2) by auto
qed simp

text \<open>\<^verbatim>\<open>newCluster\<close> makes a cluster of \<open>n\<close> nodes with different addresses; the loss rate reaches the transports only.\<close>

theorem new_cluster:
  assumes "newCluster T now fresh n snp sz loss = Inr tc"
  shows "wfCluster tc \<and> nodeIDs tc = sorted_list_of_fset (fset_of_list (map decimal [0..<n])) \<and> tc_lossRate tc = 0 \<and>
    (\<forall>i t. fmlookup (tc_transports tc) i = Some t \<longrightarrow> lossRate t = loss)"
proof -
  let ?conf = "makeClusterConfiguration n"
  let ?tc0 = "\<lparr>tc_nodes = fmempty, tc_configuration = ?conf, tc_transports = fmempty, tc_snapshotting = snp, tc_snapshotSize = sz, tc_lossRate = 0\<rparr> :: ('a, 'b) testCluster"
  from assms obtain tc1 where "forA (sorted_list_of_fset (fmdom (Members ?conf)))
     (\<lambda>i. addNode T now i (the (fmlookup (Members ?conf) i)) fresh ''failed to create node'' loss) ?tc0 = (Inr (), tc1)" "tc = tc1"
    by (auto simp: newCluster_def Let_def split: prod.splits sum.splits)
  then have c: "clusterOf ?conf loss tc" "fset (fmdom (tc_nodes tc)) = fset (fmdom (Members ?conf))"
    using addNodes_ok[of "sorted_list_of_fset (fmdom (Members ?conf))" T now ?conf fresh "''failed to create node''" loss ?tc0 tc]
    by (auto simp: clusterOf_def)
  have d: "fmdom (Members ?conf) = fset_of_list (map decimal [0..<n])"
    by (simp add: makeClusterConfiguration_def o_def fset_of_list_map)
  have "i = j" if "fmlookup (Members ?conf) i = Some a" "fmlookup (Members ?conf) j = Some a" for i j a
    using that by (auto simp: makeClusterConfiguration_def fmlookup_of_list localAddress_def decimal_inj dest!: map_of_SomeD)
  then have "inj_on (\<lambda>i. address (nodeAt tc i)) (fset (fmdom (tc_nodes tc)))"
    using c(1) by (intro inj_onI) (auto simp: clusterOf_def nodeAt_def fmlookup_dom_iff)
  then have "wfCluster tc" using c(1)
    by (auto simp: wfCluster_def clusterOf_def list_all_iff set_nodeIDs nodeAt_def fmlookup_dom_iff distinct_map nodeIDs_def sorted_list_of_fset.rep_eq)
  moreover have "nodeIDs tc = sorted_list_of_fset (fset_of_list (map decimal [0..<n]))"
    using c(2) d by (simp only: nodeIDs_def fset_inject)
  ultimately show ?thesis using c(1) by (simp add: clusterOf_def)
qed


text \<open>A restarted node loses no messages any more, whatever rate the cluster was made with.\<close>

theorem restart_forgets_loss:
  assumes "newCluster T now fresh n snp sz loss = Inr tc" "restart T now' run i tc = (Inr (), tc')"
  shows "lossRate (transportAt tc' i) = 0"
proof -
  have l: "tc_lossRate tc = 0" using new_cluster[OF assms(1)] by simp
  have keep: "keepsA tc_transports (tryA (onNode i m))" for m :: "(node, unit) action"
    unfolding onNode_def by (intro keeps.intros keeps.zoom) simp
  from assms(2) obtain crashed tc1 res where "addNode T now' i (address crashed) (diskOf crashed) ''failed to create node'' 0 tc = (Inr (), tc1)"
    and s: "tryA (onNode i (Start (td_deps T) now' run)) tc1 = (Inr res, tc')"
    by (auto simp: restart_def l bindA_eq_Inr split: option.splits)
  from addNode_ok[OF this(1)] have "lossRate (transportAt tc1 i) = 0" by (auto simp: transportAt_def)
  moreover have "tc_transports tc' = tc_transports tc1"
    using s by (rule relAD[of "\<lambda>s s'. tc_transports s' = tc_transports s", OF keep])
  ultimately show ?thesis by (simp add: transportAt_def)
qed

section \<open>A cluster\<close>

definition test_deps :: testDeps where
  "test_deps =
     \<lparr>td_deps = mockDeps \<lparr>gobEncode = (\<lambda>_. Inl (ErrNew ''gob'')), gobDecode = (\<lambda>_. Inl (ErrNew ''gob''))\<rparr>
        \<lparr>marshalEntry = entry_marshal, unmarshalEntry = entry_unmarshal, marshalState = state_marshal, unmarshalState = state_unmarshal,
         marshalConf = conf_marshal, unmarshalConf = conf_unmarshal, fsmApply = SM_Apply, fsmSnapshot = (\<lambda>_. None),
         fsmRestore = (\<lambda>_ _. None), fsmNeedSnapshot = (\<lambda>_ _. False)\<rparr>,
      td_resolve = Inr\<rparr>"

definition empty_dir :: dataPath where
  "empty_dir = \<lparr>dp_log = \<lparr>entries = [], lfile = NilFile, disk = None, tmps = [], faults = []\<rparr>,
     dp_state = \<lparr>st_state = None, st_disk = None, st_tmps = [], st_faults = []\<rparr>,
     dp_snapshots = \<lparr>snapshotDir = ''dir/snapshots'', ss_dirs = fmempty, ss_tmpCount = 0, ss_faults = []\<rparr>\<rparr>"

definition test_cluster :: "(nat, nat) testCluster" where
  "test_cluster = projr (newCluster test_deps 0 empty_dir 3 False 0 10)"

theorem partition_isolates_witness:
  "\<exists>tc'. createPartition [''1'', ''0'', ''2''] test_cluster = (Inr (), tc') \<and> isDisconnected (transportAt tc' ''1'') \<and>
     isolated (transportAt tc' ''1'') (address (nodeAt test_cluster ''2'')) \<and> isolated (transportAt tc' ''2'') (address (nodeAt test_cluster ''1''))"
proof -
  have "isl (newCluster test_deps 0 empty_dir 3 False 0 10 :: exn + (nat, nat) testCluster) = False" by code_simp
  then have "newCluster test_deps 0 empty_dir 3 False 0 10 = Inr test_cluster" by (simp add: test_cluster_def)
  note n = new_cluster[OF this]
  have "sorted_list_of_fset (fset_of_list (map decimal [0..<3])) = [''0'', ''1'', ''2'']" by code_simp
  then have i: "nodeIDs test_cluster = [''0'', ''1'', ''2'']" using n by simp
  have w: "wfCluster test_cluster" using n by simp
  have p: "take ((length (nodeIDs test_cluster) - 1) div 2) [''1'', ''0'', ''2''] = [''1'']" by (simp add: i)
  have h: "3 \<le> length (nodeIDs test_cluster)" "set [''1'', ''0'', ''2''] = set (nodeIDs test_cluster)" "distinct [''1'', ''0'', ''2'']"
    by (auto simp: i)
  from partition_isolates[OF w h, unfolded p] obtain tc' where
    c: "createPartition [''1'', ''0'', ''2''] test_cluster = (Inr (), tc')"
    and a: "\<forall>i j rnd. i \<in> set (nodeIDs test_cluster) \<longrightarrow> j \<in> set (nodeIDs test_cluster) \<longrightarrow>
       (isDisconnected (transportAt tc' i) \<longleftrightarrow> isDisconnected (transportAt test_cluster i) \<or> i \<in> set [''1'']) \<and>
       (if (i \<in> set [''1'']) \<noteq> (j \<in> set [''1'']) then isolated (transportAt tc' i) (address (nodeAt test_cluster j))
        else unreachable rnd (address (nodeAt test_cluster j)) (transportAt tc' i) = unreachable rnd (address (nodeAt test_cluster j)) (transportAt test_cluster i))"
    by blast
  show ?thesis using c a[rule_format, of "''1''" "''2''"] a[rule_format, of "''2''" "''1''"] by (simp add: i)
qed

end
